theory Spec2Isabelle
  imports Main "HOL-Library.Sublist" "HOL-Library.Char_ord" "HOL-Library.List_Lexorder"
begin

section \<open>JavaScript strings\<close>

text \<open>
  A JavaScript string is a sequence of UTF-16 code units. The model uses \<^typ>\<open>string\<close>,
  whose characters are the code units below 256 (ASCII and Latin-1); every string literal
  of the program is ASCII. \<open>undefined\<close> is \<^term>\<open>None\<close> of an option type.
\<close>

definition backslash :: char where
  "backslash = CHR 0x5C"

definition code :: "char \<Rightarrow> nat" where
  "code c = of_char c"

text \<open>\<open>String.prototype.toLowerCase\<close> and \<open>toUpperCase\<close>, on one code unit below 256.
  \<open>toUpperCase\<close> leaves the code units whose upper case is not below 256 (\<open>0xB5\<close>,
  \<open>0xFF\<close>) or is two letters (\<open>0xDF\<close>) unchanged here; no other code unit below 256 shares
  their upper case, so comparisons of upper-cased code units are exact.\<close>

definition toLowerCase_char :: "char \<Rightarrow> char" where
  "toLowerCase_char c =
     (let n = code c in
      if (65 \<le> n \<and> n \<le> 90) \<or> (192 \<le> n \<and> n \<le> 222 \<and> n \<noteq> 215) then char_of (n + 32) else c)"

definition toUpperCase_char :: "char \<Rightarrow> char" where
  "toUpperCase_char c =
     (let n = code c in
      if (97 \<le> n \<and> n \<le> 122) \<or> (224 \<le> n \<and> n \<le> 254 \<and> n \<noteq> 247) then char_of (n - 32) else c)"

definition toLowerCase :: "string \<Rightarrow> string" where
  "toLowerCase s = map toLowerCase_char s"

definition toUpperCase :: "string \<Rightarrow> string" where
  "toUpperCase s = map toUpperCase_char s"

text \<open>\<open>String.prototype.trim\<close>: white space and line terminators below 256 are
  TAB, LF, VT, FF, CR, SP and NBSP.\<close>

definition isWhiteSpace :: "char \<Rightarrow> bool" where
  "isWhiteSpace c = (code c \<in> {9, 10, 11, 12, 13, 32, 160})"

definition trim :: "string \<Rightarrow> string" where
  "trim s = rev (dropWhile isWhiteSpace (rev (dropWhile isWhiteSpace s)))"

text \<open>\<open>s.split(sep)\<close> for a one-character separator: \<open>''''.split('/')\<close> is \<open>['''']\<close>.\<close>

fun split :: "char \<Rightarrow> string \<Rightarrow> string list" where
  "split sep [] = [[]]"
| "split sep (c # cs) =
     (if c = sep then [] # split sep cs
      else (case split sep cs of [] \<Rightarrow> [[c]] | x # xs \<Rightarrow> (c # x) # xs))"

fun join :: "string \<Rightarrow> string list \<Rightarrow> string" where
  "join sep [] = []"
| "join sep [x] = x"
| "join sep (x # y # ys) = x @ sep @ join sep (y # ys)"

text \<open>The truthiness of a \<open>string | undefined\<close>: defined and not empty.\<close>

fun truthy :: "string option \<Rightarrow> bool" where
  "truthy None = False"
| "truthy (Some s) = (s \<noteq> [])"

text \<open>\<open>x?.trim()\<close>.\<close>

definition opt_trim :: "string option \<Rightarrow> string option" where
  "opt_trim x = map_option trim x"

text \<open>The string a value of type \<open>string | undefined\<close> becomes where JavaScript
  converts it to a string (string concatenation, the argument of \<open>new URL\<close>).\<close>

fun toString :: "string option \<Rightarrow> string" where
  "toString None = ''undefined''"
| "toString (Some s) = s"

section \<open>Constants\<close>

text \<open>Modelled from the spec: the module \<open>dependency-check-constants\<close> (\<open>DCConst\<close>) is not
  among the sources. Its three values are the ones the sibling task file declares as
  \<open>dependencyCheckVersionLatest\<close>, \<open>releaseApi\<close> and the literal \<open>./dependency-check\<close>, and
  the ones the specification names (\<open>latest\<close>, \<open>{releases}\<close>,
  \<open><artifact-staging>/dependency-check\<close>).\<close>

definition DependencyCheckVersionLatest :: string where
  "DependencyCheckVersionLatest = ''latest''"

definition DependencyCheckReleaseApi :: string where
  "DependencyCheckReleaseApi = ''https://api.github.com/repos/jeremylong/DependencyCheck/releases''"

definition DependencyCheckFolderName :: string where
  "DependencyCheckFolderName = ''dependency-check''"

section \<open>Version format\<close>

subsection \<open>Template literals\<close>

text \<open>
  The pattern of \<open>isVersionFormatValid\<close> is written as an untagged template literal, not as
  a regular expression literal and not with \<open>String.raw\<close>. The value of a template literal
  is its cooked text: a backslash followed by a character that starts no escape sequence
  stands for that character alone. \<open>cook\<close> computes the cooked text of the literal text
  between two substitutions (hexadecimal and Unicode escapes, which the program does not
  use, are not interpreted).
\<close>

definition unescape :: "char \<Rightarrow> char" where
  "unescape c =
     (if c = CHR ''n'' then char_of (10::nat)
      else if c = CHR ''t'' then char_of (9::nat)
      else if c = CHR ''r'' then char_of (13::nat)
      else if c = CHR ''b'' then char_of (8::nat)
      else if c = CHR ''f'' then char_of (12::nat)
      else if c = CHR ''v'' then char_of (11::nat)
      else if c = CHR ''0'' then char_of (0::nat)
      else c)"

fun cook :: "string \<Rightarrow> string" where
  "cook [] = []"
| "cook [c] = [c]"
| "cook (c # d # cs) = (if c = backslash then unescape d # cook cs else c # cook (d # cs))"

text \<open>The source text of the template literal, before and after the substitution
  \<open>${DCConst.DependencyCheckVersionLatest}\<close>:
  \<^verbatim>\<open>`^(\d\.\d\.\d|${DCConst.DependencyCheckVersionLatest})$`\<close>\<close>

definition versionPattern_head :: string where
  "versionPattern_head =
     ''^('' @ [backslash] @ ''d'' @ [backslash] @ ''.'' @ [backslash] @ ''d'' @ [backslash] @ ''.''
       @ [backslash] @ ''d|''"

definition versionPattern_tail :: string where
  "versionPattern_tail = '')$''"

definition versionPattern :: string where
  "versionPattern = cook versionPattern_head @ DependencyCheckVersionLatest @ cook versionPattern_tail"

subsection \<open>Regular expressions\<close>

text \<open>
  \<open>new RegExp(pattern, 'gi')\<close> for the patterns of the shape \<open>^(A|B|...)$\<close> whose
  alternatives are sequences of one-character atoms: a literal character, \<open>.\<close> (any
  character but a line terminator), \<open>\d\<close> (a decimal digit) and an escaped punctuation
  character. \<open>RegExp_new\<close> is \<^term>\<open>None\<close> on every other pattern.
\<close>

datatype atom = Literal char | AnyChar | Digit

fun atoms :: "string \<Rightarrow> atom list" where
  "atoms [] = []"
| "atoms [c] = [if c = CHR ''.'' then AnyChar else Literal c]"
| "atoms (c # d # cs) =
     (if c = backslash then (if d = CHR ''d'' then Digit else Literal d) # atoms cs
      else (if c = CHR ''.'' then AnyChar else Literal c) # atoms (d # cs))"

definition isAlphaNum :: "char \<Rightarrow> bool" where
  "isAlphaNum c = (let n = code c in (48 \<le> n \<and> n \<le> 57) \<or> (65 \<le> n \<and> n \<le> 90) \<or> (97 \<le> n \<and> n \<le> 122))"

fun plain :: "string \<Rightarrow> bool" where
  "plain [] = True"
| "plain [c] = (c \<notin> set ''()[]{}*+?^$'' \<and> c \<noteq> backslash)"
| "plain (c # d # cs) =
     (if c = backslash then (d = CHR ''d'' \<or> \<not> isAlphaNum d) \<and> d \<noteq> CHR ''|'' \<and> plain cs
      else c \<notin> set ''()[]{}*+?^$'' \<and> plain (d # cs))"

definition RegExp_new :: "string \<Rightarrow> atom list list option" where
  "RegExp_new pattern =
     (case pattern of
        a # b # rest \<Rightarrow>
          (case rev rest of
             y # z # ydob \<Rightarrow>
               (let body = rev ydob in
                if a = CHR ''^'' \<and> b = CHR ''('' \<and> z = CHR '')'' \<and> y = CHR ''$'' \<and> plain body
                then Some (map atoms (split (CHR ''|'') body)) else None)
           | _ \<Rightarrow> None)
      | _ \<Rightarrow> None)"

text \<open>With the flag \<open>i\<close> (and without \<open>u\<close>) two code units match when their upper cases
  agree. \<open>.\<close> matches no line terminator (LF, CR).\<close>

fun atom_matches :: "atom \<Rightarrow> char \<Rightarrow> bool" where
  "atom_matches (Literal p) c = (toUpperCase_char p = toUpperCase_char c)"
| "atom_matches AnyChar c = (code c \<noteq> 10 \<and> code c \<noteq> 13)"
| "atom_matches Digit c = (48 \<le> code c \<and> code c \<le> 57)"

fun seq_matches :: "atom list \<Rightarrow> string \<Rightarrow> bool" where
  "seq_matches [] [] = True"
| "seq_matches [] (c # cs) = False"
| "seq_matches (a # as) [] = False"
| "seq_matches (a # as) (c # cs) = (atom_matches a c \<and> seq_matches as cs)"

text \<open>\<open>regex.test(s)\<close> on a freshly built expression (\<open>lastIndex\<close> is 0, so the flag
  \<open>g\<close> changes nothing): the anchors make the whole string match one alternative.\<close>

definition RegExp_test :: "atom list list \<Rightarrow> string \<Rightarrow> bool" where
  "RegExp_test alts s = list_ex (\<lambda>alt. seq_matches alt s) alts"

subsection \<open>isVersionFormatValid\<close>

definition isVersionFormatValid :: "string \<Rightarrow> bool" where
  "isVersionFormatValid version =
     (case RegExp_new versionPattern of
        None \<Rightarrow> False
      | Some versionRegex \<Rightarrow> RegExp_test versionRegex version)"

section \<open>Errors\<close>

text \<open>Every value the program or its libraries throw is an \<open>Error\<close> object with a message.\<close>

datatype error = Error (message: string)

section \<open>Paths\<close>

text \<open>
  Path strings follow the POSIX rules of Node's \<open>path\<close> module. A location of the file
  system is a \<open>path\<close>: the list of the segments of an absolute, normalised path string.
\<close>

type_synonym path = "string list"

definition isAbsolute :: "string \<Rightarrow> bool" where
  "isAbsolute s = (case s of [] \<Rightarrow> False | c # _ \<Rightarrow> c = CHR ''/'')"

text \<open>\<open>normalizeString\<close> of an absolute path: empty segments and \<open>.\<close> are dropped,
  \<open>..\<close> removes the segment before it (and stays at the root).\<close>

fun normalizeString :: "path \<Rightarrow> string list \<Rightarrow> path" where
  "normalizeString acc [] = acc"
| "normalizeString acc (s # ss) =
     (if s = [] \<or> s = ''.'' then normalizeString acc ss
      else if s = ''..'' then normalizeString (butlast acc) ss
      else normalizeString (acc @ [s]) ss)"

definition render :: "path \<Rightarrow> string" where
  "render p = ''/'' @ join ''/'' p"

text \<open>The location a path string names for the operating system: relative strings are
  taken from the working directory.\<close>

definition fs_path :: "string \<Rightarrow> string \<Rightarrow> path" where
  "fs_path cwd s = normalizeString [] (split (CHR ''/'') (if isAbsolute s then s else cwd @ ''/'' @ s))"

text \<open>\<open>path.resolve(...args)\<close>: the arguments are read from the right until one is
  absolute; an argument that is read and is not a string raises a \<open>TypeError\<close>; the working
  directory is the last resort.\<close>

fun resolve_from_right :: "string \<Rightarrow> string \<Rightarrow> string option list \<Rightarrow> error + string" where
  "resolve_from_right cwd resolvedPath [] = Inr (cwd @ ''/'' @ resolvedPath)"
| "resolve_from_right cwd resolvedPath (None # args) =
     Inl (Error ''The path argument must be of type string. Received undefined'')"
| "resolve_from_right cwd resolvedPath (Some p # args) =
     (if p = [] then resolve_from_right cwd resolvedPath args
      else if isAbsolute p then Inr (p @ ''/'' @ resolvedPath)
      else resolve_from_right cwd (p @ ''/'' @ resolvedPath) args)"

definition path_resolve :: "string \<Rightarrow> string option list \<Rightarrow> error + string" where
  "path_resolve cwd args =
     (case resolve_from_right cwd [] (rev args) of
        Inl e \<Rightarrow> Inl e
      | Inr s \<Rightarrow> Inr (render (normalizeString [] (split (CHR ''/'') s))))"

text \<open>The segments of a normalised path are not empty, are not \<open>.\<close> or \<open>..\<close>, and hold
  no separator.\<close>

definition clean :: "path \<Rightarrow> bool" where
  "clean p = (\<forall>s \<in> set p. s \<noteq> [] \<and> s \<noteq> ''.'' \<and> s \<noteq> ''..'' \<and> CHR ''/'' \<notin> set s)"

text \<open>\<open>path.basename(p)\<close>: the last segment, trailing slashes ignored.\<close>

definition basename :: "string \<Rightarrow> string" where
  "basename p = (case filter (\<lambda>s. s \<noteq> []) (split (CHR ''/'') p) of [] \<Rightarrow> [] | x # xs \<Rightarrow> last (x # xs))"

section \<open>The file system\<close>

text \<open>A file has its content and its mode, of which the model keeps whether the user of
  the agent may execute the file (what \<open>isUnixExecutable\<close> of the task library reads in
  the mode bits).\<close>

datatype node = File string bool | Directory

type_synonym filesystem = "(path \<times> node) list"

definition stat :: "filesystem \<Rightarrow> path \<Rightarrow> node option" where
  "stat fs p = (if p = [] then Some Directory else map_of fs p)"

text \<open>\<open>rm -rf\<close>: the location and everything beneath it.\<close>

definition remove :: "path \<Rightarrow> filesystem \<Rightarrow> filesystem" where
  "remove p fs = filter (\<lambda>(q, n). \<not> prefix p q) fs"

definition put :: "path \<Rightarrow> node \<Rightarrow> filesystem \<Rightarrow> filesystem" where
  "put p n fs =
     (if p \<in> fst ` set fs then map (\<lambda>(q, m). if q = p then (q, n) else (q, m)) fs else fs @ [(p, n)])"

definition isFile :: "node option \<Rightarrow> bool" where
  "isFile x = (case x of Some (File c m) \<Rightarrow> True | _ \<Rightarrow> False)"

definition isUnixExecutable :: "node option \<Rightarrow> bool" where
  "isUnixExecutable x = (case x of Some (File c m) \<Rightarrow> m | _ \<Rightarrow> False)"

text \<open>\<open>mkdir -p\<close>: fails when a file is in the way, creates the missing directories.\<close>

definition mkdirs :: "path \<Rightarrow> filesystem \<Rightarrow> error + filesystem" where
  "mkdirs p fs =
     (if list_ex (\<lambda>q. isFile (stat fs q)) (prefixes p)
      then Inl (Error (''Unable to create directory '' @ render p @ ''. Conflicting file exists''))
      else Inr (fs @ map (\<lambda>q. (q, Directory)) (filter (\<lambda>q. stat fs q = None) (prefixes p))))"

text \<open>Opening a write stream and piping a body into it: fails on a directory and when
  the parent is not a directory; otherwise the file holds the body. A file that existed
  keeps its mode; a new file gets the mode \<open>0666\<close> less the umask, so it is not executable.\<close>

definition writeFile :: "path \<Rightarrow> string \<Rightarrow> filesystem \<Rightarrow> error + filesystem" where
  "writeFile p body fs =
     (if stat fs p = Some Directory then Inl (Error (''EISDIR: illegal operation on a directory, open '' @ render p))
      else if stat fs (butlast p) \<noteq> Some Directory then Inl (Error (''ENOENT: no such file or directory, open '' @ render p))
      else Inr (put p (File body (isUnixExecutable (stat fs p))) fs))"

text \<open>Extracting the entries of an archive below a target with \<open>adm-zip\<close>, overwriting:
  a directory entry is created (\<open>makeDir\<close>, which fails when a file is in the way). A
  file entry whose target is an existing directory is skipped without an error
  (\<open>writeFileTo\<close> returns \<open>false\<close>); any other file entry is written after its parent
  directories are created, and gets the mode \<open>0666\<close>: the permissions stored in the
  archive are not applied (\<open>extractAllTo\<close> is called without \<open>keepOriginalPermission\<close>),
  so an extracted file is not executable. The entries before a failing one stay
  extracted.\<close>

definition extract_entry :: "path \<Rightarrow> path \<times> node \<Rightarrow> filesystem \<Rightarrow> error + filesystem" where
  "extract_entry target entry fs =
     (case snd entry of
        Directory \<Rightarrow> mkdirs (target @ fst entry) fs
      | File body mode \<Rightarrow>
          if stat fs (target @ fst entry) = Some Directory then Inr fs
          else (case mkdirs (butlast (target @ fst entry)) fs of
                  Inl e \<Rightarrow> Inl e
                | Inr fs' \<Rightarrow> Inr (put (target @ fst entry) (File body False) fs')))"

fun extract_entries :: "path \<Rightarrow> (path \<times> node) list \<Rightarrow> filesystem \<Rightarrow> error option \<times> filesystem" where
  "extract_entries target [] fs = (None, fs)"
| "extract_entries target (entry # entries) fs =
     (case extract_entry target entry fs of
        Inl e \<Rightarrow> (Some e, fs)
      | Inr fs' \<Rightarrow> extract_entries target entries fs')"

section \<open>Glob patterns\<close>

text \<open>
  The patterns of \<open>tl.findMatch\<close> (the library \<open>minimatch\<close>), for the pattern language
  the program uses: path segments separated by \<open>/\<close>, the segment \<open>**\<close>, and \<open>*\<close> inside a
  segment. Matching is case sensitive. Without the option \<open>dot\<close> a segment pattern that
  starts with \<open>*\<close> matches no name that starts with a dot, and \<open>**\<close> passes no such name.
  The segments of the root directory that \<open>findMatch\<close> puts before a pattern are escaped,
  so they match literally.
\<close>

datatype segment = Globstar | Glob string | Exact string

fun wildcard :: "string \<Rightarrow> string \<Rightarrow> bool" where
  "wildcard [] [] = True"
| "wildcard [] (c # cs) = False"
| "wildcard (p # ps) [] = (p = CHR ''*'' \<and> wildcard ps [])"
| "wildcard (p # ps) (c # cs) =
     (if p = CHR ''*'' then wildcard ps (c # cs) \<or> wildcard (p # ps) cs
      else p = c \<and> wildcard ps cs)"

definition hidden :: "string \<Rightarrow> bool" where
  "hidden name = (case name of [] \<Rightarrow> False | c # _ \<Rightarrow> c = CHR ''.'')"

fun segment_matches :: "bool \<Rightarrow> segment \<Rightarrow> string \<Rightarrow> bool" where
  "segment_matches dot (Exact s) name = (s = name)"
| "segment_matches dot (Glob p) name =
     ((dot \<or> \<not> (take 1 p = ''*'' \<and> hidden name)) \<and> wildcard p name)"
| "segment_matches dot Globstar name = (dot \<or> \<not> hidden name)"

text \<open>\<open>**\<close> at the end of a pattern takes one or more segments (so \<open>dir/**\<close> does not
  match \<open>dir\<close> itself); elsewhere it takes none or more.\<close>

fun minimatch :: "bool \<Rightarrow> segment list \<Rightarrow> path \<Rightarrow> bool" where
  "minimatch dot [] [] = True"
| "minimatch dot [] (f # fs) = False"
| "minimatch dot (p # ps) [] = False"
| "minimatch dot (Globstar # ps) (f # fs) =
     (if ps = [] then list_all (segment_matches dot Globstar) (f # fs)
      else minimatch dot ps (f # fs) \<or> (segment_matches dot Globstar f \<and> minimatch dot (Globstar # ps) fs))"
| "minimatch dot (p # ps) (f # fs) = (segment_matches dot p f \<and> minimatch dot ps fs)"

record matchOptions =
  dot :: bool
  matchBase :: bool

text \<open>The default match options of \<open>findMatch\<close> set \<open>dot\<close> and leave \<open>matchBase\<close> unset.\<close>

definition defaultMatchOptions :: matchOptions where
  "defaultMatchOptions = \<lparr>dot = True, matchBase = False\<rparr>"

definition pattern_segments :: "string \<Rightarrow> segment list" where
  "pattern_segments pattern =
     map (\<lambda>s. if s = ''**'' then Globstar else Glob s) (filter (\<lambda>s. s \<noteq> []) (split (CHR ''/'') pattern))"

text \<open>With \<open>matchBase\<close> a pattern without a slash is matched against the last segment.\<close>

definition basenameOnly :: "matchOptions \<Rightarrow> string \<Rightarrow> bool" where
  "basenameOnly opts pattern = (matchBase opts \<and> \<not> isAbsolute pattern \<and> CHR ''/'' \<notin> set pattern)"

definition rooted :: "path \<Rightarrow> matchOptions \<Rightarrow> string \<Rightarrow> segment list" where
  "rooted root opts pattern =
     (if basenameOnly opts pattern \<or> isAbsolute pattern then pattern_segments pattern
      else map Exact root @ pattern_segments pattern)"

definition matches :: "matchOptions \<Rightarrow> segment list \<Rightarrow> path \<Rightarrow> bool" where
  "matches opts segs q =
     (if matchBase opts \<and> length segs = 1 then q \<noteq> [] \<and> minimatch (dot opts) segs [last q]
      else minimatch (dot opts) segs q)"

text \<open>The directory a search starts from: the segments of the rooted pattern before the
  first one with a wildcard.\<close>

fun literal :: "segment \<Rightarrow> string option" where
  "literal Globstar = None"
| "literal (Glob p) = (if CHR ''*'' \<in> set p then None else Some p)"
| "literal (Exact s) = Some s"

fun literalSegments :: "segment list \<Rightarrow> path" where
  "literalSegments [] = []"
| "literalSegments (x # xs) = (case literal x of None \<Rightarrow> [] | Some s \<Rightarrow> s # literalSegments xs)"

text \<open>\<open>find(findPath)\<close>: the directory and everything beneath it.\<close>

definition find_paths :: "path \<Rightarrow> filesystem \<Rightarrow> path list" where
  "find_paths findPath fs = filter (prefix findPath) (map fst fs)"

text \<open>
  The loop of \<open>findMatch\<close> over the patterns: a pattern is trimmed; an empty pattern and a
  comment are skipped; an even number of leading \<open>!\<close> makes an include pattern, whose
  matches among the found paths join the results; an odd number makes an exclude
  pattern, whose matches leave the results.
\<close>

fun findMatch_patterns ::
  "path \<Rightarrow> matchOptions \<Rightarrow> filesystem \<Rightarrow> string list \<Rightarrow> path list \<Rightarrow> path list" where
  "findMatch_patterns root opts fs [] results = results"
| "findMatch_patterns root opts fs (p # ps) results =
     (let trimmed = trim p;
          negateCount = length (takeWhile (\<lambda>c. c = CHR ''!'') trimmed);
          pattern = trim (drop negateCount trimmed);
          segs = rooted root opts pattern
      in if trimmed = [] \<or> take 1 trimmed = ''#'' \<or> pattern = [] then findMatch_patterns root opts fs ps results
         else if even negateCount then
           (let findPath = (if basenameOnly opts pattern then root else literalSegments segs);
                matchResults = filter (matches opts segs) (find_paths findPath fs)
            in findMatch_patterns root opts fs ps (remdups (results @ matchResults)))
         else findMatch_patterns root opts fs ps (filter (\<lambda>q. \<not> matches opts segs q) results))"

text \<open>The final results are sorted as path strings.\<close>

definition findMatch :: "path \<Rightarrow> string list \<Rightarrow> matchOptions \<Rightarrow> filesystem \<Rightarrow> path list" where
  "findMatch root patterns opts fs = sort_key render (findMatch_patterns root opts fs patterns [])"

section \<open>The world of a run\<close>

text \<open>
  What a run can change: the files, the task variables, the console, the reported task
  result; and, for the statements about what was done in which order, the \<open>trace\<close> of
  the effects on the outside (requests, file operations, processes).
\<close>

datatype stream = Stdout | Stderr

datatype tool_args = Arg string | Line string

datatype action =
    HttpGet string
  | MkdirP path
  | RmRF path
  | WriteStream path
  | ExtractAllTo path
  | Exec string tool_args
  | SetVariable string string

record world =
  files :: filesystem
  variables :: "string \<Rightarrow> string option"
  console :: "(stream \<times> string) list"
  trace :: "action list"
  taskResult :: "string option"

text \<open>
  What a run is given: the working directory, the platform (Windows, or one of the POSIX
  platforms that \<open>tl.getPlatform\<close> knows, Linux and macOS), the directories of \<open>PATH\<close> and the extensions of \<open>PATHEXT\<close>
  (the empty items left out), the task inputs, and the behaviour of the outside: the
  outcome of the \<open>n\<close>-th request of the run to a URL (\<open>transport\<close>: a transport error, or
  the body of the response), the URL parser (\<open>pathname\<close>), \<open>JSON.parse\<close> of a release
  description, the archive decoder and the outcome of a process.
\<close>

type_synonym asset = "(string \<times> string) list"

record releaseInfo =
  assets :: "asset list option"

datatype exit = SpawnFailed string | Exited int bool

record env =
  cwd :: string
  windows :: bool
  PATH :: "string list"
  PATHEXT :: "string list"
  getInput :: "string \<Rightarrow> string option"
  getBoolInput :: "string \<Rightarrow> bool"
  getPathInput :: "string \<Rightarrow> string option"
  transport :: "string \<Rightarrow> nat \<Rightarrow> error + string"
  pathname :: "string \<Rightarrow> error + string"
  JSON_parse :: "string \<Rightarrow> error + releaseInfo"
  zip_entries :: "string \<Rightarrow> error + (path \<times> node) list"
  spawn :: "string \<Rightarrow> tool_args \<Rightarrow> exit"

subsection \<open>Computations that may throw\<close>

type_synonym 'a io = "world \<Rightarrow> (error + 'a) \<times> world"

definition ret :: "'a \<Rightarrow> 'a io" where
  "ret x w = (Inr x, w)"

definition throw :: "error \<Rightarrow> 'a io" where
  "throw e w = (Inl e, w)"

definition bind :: "'a io \<Rightarrow> ('a \<Rightarrow> 'b io) \<Rightarrow> 'b io" where
  "bind m f w = (case m w of (Inl e, w') \<Rightarrow> (Inl e, w') | (Inr x, w') \<Rightarrow> f x w')"

definition try_catch :: "'a io \<Rightarrow> (error \<Rightarrow> 'a io) \<Rightarrow> 'a io" where
  "try_catch m handler w = (case m w of (Inl e, w') \<Rightarrow> handler e w' | (Inr x, w') \<Rightarrow> (Inr x, w'))"

definition lift :: "error + 'a \<Rightarrow> 'a io" where
  "lift r w = (r, w)"

fun forEach :: "'a list \<Rightarrow> ('a \<Rightarrow> unit io) \<Rightarrow> unit io" where
  "forEach [] f = ret ()"
| "forEach (x # xs) f = bind (f x) (\<lambda>_. forEach xs f)"

subsection \<open>Numbers in messages\<close>

function digits :: "nat \<Rightarrow> string" where
  "digits n = (if n < 10 then [char_of (48 + n)] else digits (n div 10) @ [char_of (48 + n mod 10)])"
  by pat_completeness auto
termination
  by (relation "measure id") auto

definition show_int :: "int \<Rightarrow> string" where
  "show_int i = (if i < 0 then ''-'' @ digits (nat (- i)) else digits (nat i))"

definition quoted :: "string \<Rightarrow> string" where
  "quoted s = [CHR 0x27] @ s @ [CHR 0x27]"

definition dquoted :: "string \<Rightarrow> string" where
  "dquoted s = [CHR 0x22] @ s @ [CHR 0x22]"

subsection \<open>Console, task library, HTTP client, archive library\<close>

definition console_log :: "string \<Rightarrow> unit io" where
  "console_log s w = (Inr (), w\<lparr>console := console w @ [(Stdout, s)]\<rparr>)"

definition console_error :: "string \<Rightarrow> unit io" where
  "console_error s w = (Inr (), w\<lparr>console := console w @ [(Stderr, s)]\<rparr>)"

definition tl_getVariable :: "string \<Rightarrow> string option io" where
  "tl_getVariable name w = (Inr (variables w name), w)"

definition tl_setVariable :: "string \<Rightarrow> string \<Rightarrow> unit io" where
  "tl_setVariable name val w =
     (Inr (), w\<lparr>variables := (variables w)(name \<mapsto> val), trace := trace w @ [SetVariable name val]\<rparr>)"

definition tl_resolve :: "env \<Rightarrow> string option list \<Rightarrow> string io" where
  "tl_resolve env pathSegments = lift (path_resolve (cwd env) pathSegments)"

text \<open>\<open>tl.exist(path)\<close> is false for an undefined or empty path.\<close>

definition tl_exist :: "env \<Rightarrow> string option \<Rightarrow> bool io" where
  "tl_exist env p w =
     (Inr (case p of None \<Rightarrow> False | Some s \<Rightarrow> s \<noteq> [] \<and> stat (files w) (fs_path (cwd env) s) \<noteq> None), w)"

text \<open>\<open>tl.mkdirP(p)\<close> throws for an undefined or empty path.\<close>

definition tl_mkdirP :: "env \<Rightarrow> string option \<Rightarrow> unit io" where
  "tl_mkdirP env p w =
     (if \<not> truthy p then (Inl (Error ''Parameter p is required''), w)
      else (case mkdirs (fs_path (cwd env) (toString p)) (files w) of
              Inl e \<Rightarrow> (Inl e, w)
            | Inr fs \<Rightarrow> (Inr (), w\<lparr>files := fs, trace := trace w @ [MkdirP (fs_path (cwd env) (toString p))]\<rparr>)))"

text \<open>\<open>tl.checkPath(p, name)\<close> throws when nothing exists at the path.\<close>

definition tl_checkPath :: "env \<Rightarrow> string \<Rightarrow> string \<Rightarrow> unit io" where
  "tl_checkPath env p name w =
     (if p = [] \<or> stat (files w) (fs_path (cwd env) p) = None
      then (Inl (Error (''Not found '' @ name @ '': '' @ p)), w)
      else (Inr (), w))"

text \<open>\<open>tl.rmRF(path)\<close>, on the location the path string names.\<close>

definition tl_rmRF :: "path \<Rightarrow> unit io" where
  "tl_rmRF p w = (Inr (), w\<lparr>files := remove p (files w), trace := trace w @ [RmRF p]\<rparr>)"

text \<open>\<open>tl.findMatch(root, patterns, undefined, matchOptions)\<close>; the root is an absolute
  path string, as \<open>tl.resolve\<close> returns, and the results are locations.\<close>

definition tl_findMatch :: "env \<Rightarrow> string \<Rightarrow> string list \<Rightarrow> matchOptions \<Rightarrow> path list io" where
  "tl_findMatch env defaultRoot patterns opts w =
     (Inr (findMatch (fs_path (cwd env) defaultRoot) patterns opts (files w)), w)"

text \<open>\<open>tl.setResult(tl.TaskResult.Failed, message, true)\<close>.\<close>

definition tl_setResult_Failed :: "string \<Rightarrow> unit io" where
  "tl_setResult_Failed msg w = (Inr (), w\<lparr>taskResult := Some msg\<rparr>)"

text \<open>\<open>client.get(url)\<close>: the request is made; a transport error is thrown, any
  response is returned (its body here).\<close>

fun isHttpGet :: "action \<Rightarrow> bool" where
  "isHttpGet (HttpGet u) = True"
| "isHttpGet _ = False"

definition requests :: "world \<Rightarrow> action list" where
  "requests w = filter isHttpGet (trace w)"

definition client_get :: "env \<Rightarrow> string \<Rightarrow> string io" where
  "client_get env url w =
     (transport env url (length (requests w)), w\<lparr>trace := trace w @ [HttpGet url]\<rparr>)"

text \<open>Piping a response into \<open>fs.createWriteStream(p)\<close> and waiting for \<open>finish\<close> or
  \<open>error\<close>.\<close>

definition pipe_to_file :: "env \<Rightarrow> string \<Rightarrow> string \<Rightarrow> unit io" where
  "pipe_to_file env p body w =
     (case writeFile (fs_path (cwd env) p) body (files w) of
        Inl e \<Rightarrow> (Inl e, w)
      | Inr fs \<Rightarrow> (Inr (), w\<lparr>files := fs, trace := trace w @ [WriteStream (fs_path (cwd env) p)]\<rparr>))"

text \<open>\<open>new Zip(filePath)\<close> reads and decodes the file; \<open>extractAllTo(targetPath, true)\<close>
  writes the entries.\<close>

definition Zip_new :: "env \<Rightarrow> string \<Rightarrow> (path \<times> node) list io" where
  "Zip_new env filePath w =
     (case stat (files w) (fs_path (cwd env) filePath) of
        Some (File content mode) \<Rightarrow> (zip_entries env content, w)
      | _ \<Rightarrow> (Inl (Error (''ADM-ZIP: Invalid filename '' @ filePath)), w))"

definition extractAllTo :: "env \<Rightarrow> (path \<times> node) list \<Rightarrow> string \<Rightarrow> unit io" where
  "extractAllTo env entries targetPath w =
     (case extract_entries (fs_path (cwd env) targetPath) entries (files w) of
        (None, fs) \<Rightarrow> (Inr (), w\<lparr>files := fs, trace := trace w @ [ExtractAllTo (fs_path (cwd env) targetPath)]\<rparr>)
      | (Some e, fs) \<Rightarrow> (Inl e, w\<lparr>files := fs, trace := trace w @ [ExtractAllTo (fs_path (cwd env) targetPath)]\<rparr>))"

text \<open>
  \<open>tl.tool(tool)\<close> makes a tool runner for the path that \<open>which(tool, true)\<close> finds, and
  throws when it finds none; this happens before any process is started. A rooted path
  is found when \<open>_tryGetExecutablePath\<close> accepts it: the path must name a file which, on
  a POSIX platform, the user of the agent may execute (\<open>isUnixExecutable\<close>) and which, on
  Windows, has an extension listed in \<open>PATHEXT\<close>; failing that, on Windows, the first of
  the paths made by appending an extension of \<open>PATHEXT\<close> that names a file is found. A
  path that is not rooted and has a separator is not found; a name without one is
  searched in the directories of \<open>PATH\<close>. (File names are case sensitive here, so the
  name found with an appended extension is the one asked for.)
\<close>

definition upperExt :: "string \<Rightarrow> string option" where
  "upperExt fileName =
     (if CHR ''.'' \<in> set fileName
      then Some (toUpperCase (CHR ''.'' # rev (takeWhile (\<lambda>c. c \<noteq> CHR ''.'') (rev fileName))))
      else None)"

definition extensions :: "env \<Rightarrow> string list" where
  "extensions env = (if windows env then PATHEXT env else [])"

definition isExecutableFile :: "env \<Rightarrow> filesystem \<Rightarrow> string \<Rightarrow> bool" where
  "isExecutableFile env fs filePath =
     (isFile (stat fs (fs_path (cwd env) filePath))
      \<and> (if windows env
         then (case upperExt (basename filePath) of
                 None \<Rightarrow> False
               | Some ext \<Rightarrow> list_ex (\<lambda>validExt. toUpperCase validExt = ext) (extensions env))
         else isUnixExecutable (stat fs (fs_path (cwd env) filePath))))"

definition tryGetExecutablePath :: "env \<Rightarrow> filesystem \<Rightarrow> string \<Rightarrow> string option" where
  "tryGetExecutablePath env fs filePath =
     (if isExecutableFile env fs filePath then Some filePath
      else find (\<lambda>candidate. isFile (stat fs (fs_path (cwd env) candidate))
                              \<and> (windows env \<or> isUnixExecutable (stat fs (fs_path (cwd env) candidate))))
             (map (\<lambda>extension. filePath @ extension) (extensions env)))"

definition which :: "env \<Rightarrow> filesystem \<Rightarrow> string \<Rightarrow> string option" where
  "which env fs tool =
     (if isAbsolute tool then tryGetExecutablePath env fs tool
      else if CHR ''/'' \<in> set tool then None
      else (case List.map_filter (\<lambda>directory. tryGetExecutablePath env fs (directory @ ''/'' @ tool)) (PATH env) of
              [] \<Rightarrow> None
            | filePath # others \<Rightarrow> Some filePath))"

definition whichNotFound :: "env \<Rightarrow> string \<Rightarrow> string" where
  "whichNotFound env tool =
     ''Unable to locate executable file: '' @ quoted tool
       @ ''. Please verify either the file path exists or the file can be found within a directory specified by the PATH environment variable. ''
       @ (if windows env then ''Also verify the file has a valid extension for an executable file.''
          else ''Also check the file mode to verify the file is executable.'')"

text \<open>\<open>tl.tool(tool)...exec(options)\<close>: after the tool is found, the process is started.
  The promise is rejected when the process cannot be started, when it exits with a code
  other than 0 unless \<open>ignoreReturnCode\<close>, and when it wrote to the standard error stream
  if \<open>failOnStdErr\<close>; otherwise it gives the exit code.\<close>

definition tool_exec :: "env \<Rightarrow> string \<Rightarrow> tool_args \<Rightarrow> bool \<Rightarrow> bool \<Rightarrow> int io" where
  "tool_exec env tool args failOnStdErr ignoreReturnCode w =
     (if tool = [] then (Inl (Error (''Parameter '' @ quoted ''toolPath'' @ '' cannot be null or empty.'')), w)
      else case which env (files w) tool of
        None \<Rightarrow> (Inl (Error (whichNotFound env tool)), w)
      | Some toolPath \<Rightarrow>
          (case spawn env toolPath args of
             SpawnFailed msg \<Rightarrow>
               Inl (Error (''There was an error when attempting to execute the process '' @ quoted toolPath
                           @ ''. This may indicate the process failed to start. Error: '' @ msg))
           | Exited exitCode stderr \<Rightarrow>
               if exitCode \<noteq> 0 \<and> \<not> ignoreReturnCode
               then Inl (Error (''The process '' @ quoted toolPath @ '' failed with exit code '' @ show_int exitCode))
               else if stderr \<and> failOnStdErr
               then Inl (Error (''The process '' @ quoted toolPath
                                @ '' failed because one or more lines were written to the STDERR stream''))
               else Inr exitCode,
           w\<lparr>trace := trace w @ [Exec toolPath args]\<rparr>))"

section \<open>The options and their builder\<close>

record DependencyCheckOptionsBuilder =
  defaultRootFolder :: string
  defaultExportDirectory :: string
  defaultLogFilePath :: string
  builder_exportDirectory :: string
  builder_isVerboseEnabled :: bool
  builder_isUpdateOnlyEnabled :: bool
  builder_logFilePath :: string

record DependencyCheckOptions =
  exportDirectory :: string
  isUpdateOnlyEnabled :: bool
  isVerboseEnabled :: bool
  logFilePath :: string

definition cliArguments_LogFile :: string where
  "cliArguments_LogFile = ''--log''"

definition cliArguments_UpdateOnly :: string where
  "cliArguments_UpdateOnly = ''--updateonly''"

definition cliArguments_Version :: string where
  "cliArguments_Version = ''--version''"

text \<open>The constructor of the builder.\<close>

definition DependencyCheckOptionsBuilder_new :: "env \<Rightarrow> DependencyCheckOptionsBuilder io" where
  "DependencyCheckOptionsBuilder_new env =
     bind (tl_getVariable ''Build.ArtifactStagingDirectory'') (\<lambda>staging.
     let rootFolder = (if truthy staging then toString staging else ''./'') in
     bind (tl_resolve env [Some rootFolder, Some DependencyCheckFolderName]) (\<lambda>exportDir.
     bind (tl_resolve env [Some exportDir, Some DependencyCheckFolderName, Some ''dependency-check-log.txt'']) (\<lambda>logFile.
     ret \<lparr>defaultRootFolder = rootFolder,
          defaultExportDirectory = exportDir,
          defaultLogFilePath = logFile,
          builder_exportDirectory = exportDir,
          builder_isVerboseEnabled = False,
          builder_isUpdateOnlyEnabled = False,
          builder_logFilePath = logFile\<rparr>)))"

definition setExportDirectory :: "string option \<Rightarrow> DependencyCheckOptionsBuilder \<Rightarrow> DependencyCheckOptionsBuilder" where
  "setExportDirectory val b =
     b\<lparr>builder_exportDirectory :=
         (if truthy (opt_trim val) then toString (opt_trim val) else defaultExportDirectory b)\<rparr>"

definition setIsVerboseEnabled :: "bool \<Rightarrow> DependencyCheckOptionsBuilder \<Rightarrow> DependencyCheckOptionsBuilder" where
  "setIsVerboseEnabled val b = b\<lparr>builder_isVerboseEnabled := val\<rparr>"

definition setIsUpdateOnlyEnabled :: "bool \<Rightarrow> DependencyCheckOptionsBuilder \<Rightarrow> DependencyCheckOptionsBuilder" where
  "setIsUpdateOnlyEnabled val b = b\<lparr>builder_isUpdateOnlyEnabled := val\<rparr>"

definition setLogFilePath :: "string \<Rightarrow> DependencyCheckOptionsBuilder \<Rightarrow> DependencyCheckOptionsBuilder" where
  "setLogFilePath val b = b\<lparr>builder_logFilePath := val\<rparr>"

text \<open>The constructor of the options, which \<open>build()\<close> calls with the builder.\<close>

definition DependencyCheckOptions_new :: "DependencyCheckOptionsBuilder \<Rightarrow> DependencyCheckOptions" where
  "DependencyCheckOptions_new builder =
     \<lparr>exportDirectory = builder_exportDirectory builder,
      isUpdateOnlyEnabled = builder_isVerboseEnabled builder,
      isVerboseEnabled = builder_isVerboseEnabled builder,
      logFilePath = builder_logFilePath builder\<rparr>"

definition build :: "DependencyCheckOptionsBuilder \<Rightarrow> DependencyCheckOptions" where
  "build b = DependencyCheckOptions_new b"

definition getExecutableArguments :: "DependencyCheckOptions \<Rightarrow> string" where
  "getExecutableArguments opts =
     cliArguments_UpdateOnly
       @ (if isVerboseEnabled opts then '' '' @ cliArguments_LogFile @ '' '' @ logFilePath opts else [])"

section \<open>The task\<close>

text \<open>
  The functions below are those of the task file with the update step. The sibling file
  \<open>dependency-check-data-task.ts\<close> declares \<open>isVersionFormatValid\<close>, \<open>logDebug\<close>,
  \<open>isSystemDebugEnabled\<close>, \<open>getDependencyCheckDownloadUrl\<close>, \<open>cleanDirectory\<close>,
  \<open>downloadPackage\<close>, \<open>unzipFileTo\<close> and \<open>unzipFromUrl\<close> with the same text; its \<open>run\<close>
  differs and is \<open>run_data_task\<close> here.
\<close>

definition isSystemDebugEnabled :: "bool io" where
  "isSystemDebugEnabled =
     bind (tl_getVariable ''system.debug'') (\<lambda>varSystemDebug.
     ret (case varSystemDebug of None \<Rightarrow> False | Some s \<Rightarrow> toLowerCase s = ''true''))"

definition logDebug :: "string \<Rightarrow> unit io" where
  "logDebug msg =
     bind isSystemDebugEnabled (\<lambda>enabled.
     if enabled then console_log (''##[debug]'' @ msg) else ret ())"

subsection \<open>getDependencyCheckDownloadUrl\<close>

text \<open>The source types every asset as a dictionary from strings to strings. A release
  description without \<open>assets\<close>, and one without an asset of the content type, make the
  next property access a \<open>TypeError\<close>. The result is \<open>undefined\<close> when the asset has no
  \<open>browser_download_url\<close>.\<close>

definition releaseUrl :: "string \<Rightarrow> string" where
  "releaseUrl version =
     (if toLowerCase version = DependencyCheckVersionLatest
      then DependencyCheckReleaseApi @ ''/'' @ DependencyCheckVersionLatest
      else DependencyCheckReleaseApi @ ''/tags/v'' @ version)"

definition getDependencyCheckDownloadUrl :: "env \<Rightarrow> string \<Rightarrow> string option io" where
  "getDependencyCheckDownloadUrl env version =
     bind (logDebug ''Determine GitHub package URL...'') (\<lambda>_.
     let url = releaseUrl version in
     bind (client_get env url) (\<lambda>body.
     bind (lift (JSON_parse env body)) (\<lambda>releaseInfo.
     case assets releaseInfo of
       None \<Rightarrow> throw (Error ''Cannot read properties of undefined (reading find)'')
     | Some list \<Rightarrow>
         (case find (\<lambda>asset. map_of asset ''content_type'' = Some ''application/zip'') list of
            None \<Rightarrow> throw (Error ''Cannot read properties of undefined (reading browser_download_url)'')
          | Some asset \<Rightarrow>
              (let packageUrl = map_of asset ''browser_download_url'' in
               bind (logDebug (''Determined GitHub package URL: '' @ toString packageUrl)) (\<lambda>_.
               ret packageUrl))))))"

subsection \<open>cleanDirectory\<close>

definition cleanDirectory :: "env \<Rightarrow> string \<Rightarrow> string list \<Rightarrow> unit io" where
  "cleanDirectory env path patterns =
     bind (tl_findMatch env path patterns defaultMatchOptions) (\<lambda>files.
     forEach files (\<lambda>file. tl_rmRF file))"

subsection \<open>downloadPackage\<close>

text \<open>
  The \<open>do ... while\<close> loop: one pass requests the URL; a transport error is kept in
  \<open>tmpError\<close> (replacing the one of the pass before), the retries are counted down and
  the pass is repeated while they are not negative. The loop gives \<open>tmpError\<close> and
  \<open>response\<close> as they are when it ends.
\<close>

function download_loop :: "env \<Rightarrow> string \<Rightarrow> int \<Rightarrow> string option \<Rightarrow> (error option \<times> string option) io" where
  "download_loop env url downloadErrorRetries response w =
     (case bind (console_log (''Downloading ZIP from '' @ dquoted url @ ''...'')) (\<lambda>_.
           bind (client_get env url) (\<lambda>r.
           bind (logDebug ''done downloading'') (\<lambda>_. ret r))) w of
        (Inr r, w1) \<Rightarrow> (Inr (None, Some r), w1)
      | (Inl error, w1) \<Rightarrow>
          (let retries = downloadErrorRetries - 1;
               w2 = snd (bind (console_error (''Error trying to download ZIP ('' @ show_int (retries + 1) @ '' tries left)''))
                           (\<lambda>_. console_error (message error)) w1)
           in if retries \<ge> 0 then download_loop env url retries response w2
              else (Inr (Some error, response), w2)))"
  by pat_completeness auto
termination
  by (relation "measure (\<lambda>(env, url, retries, response, w). nat retries)") auto

definition downloadPackage :: "env \<Rightarrow> string \<Rightarrow> string io" where
  "downloadPackage env url =
     bind (lift (pathname env url)) (\<lambda>urlPathname.
     let fileName = basename urlPathname in
     bind (tl_resolve env [Some fileName]) (\<lambda>installPackage.
     bind (download_loop env url 5 None) (\<lambda>(tmpError, response).
     case tmpError of
       Some error \<Rightarrow> throw error
     | None \<Rightarrow>
         bind (logDebug ''Download was successful, saving downloaded ZIP file...'') (\<lambda>_.
         bind (case response of
                 None \<Rightarrow> throw (Error ''Cannot read properties of undefined (reading message)'')
               | Some body \<Rightarrow> pipe_to_file env installPackage body) (\<lambda>_.
         bind (logDebug ''Downloaded ZIP file has been saved.'') (\<lambda>_.
         ret installPackage))))))"

subsection \<open>unzipFileTo and unzipFromUrl\<close>

definition unzipFileTo :: "env \<Rightarrow> string \<Rightarrow> string \<Rightarrow> unit io" where
  "unzipFileTo env filePath targetPath =
     bind (console_log (''Extracting '' @ quoted filePath @ '' to '' @ quoted targetPath)) (\<lambda>_.
     try_catch
       (bind (Zip_new env filePath) (\<lambda>zipFile.
        bind (extractAllTo env zipFile targetPath) (\<lambda>_.
        console_log (''Extracted '' @ quoted filePath @ '' to '' @ quoted targetPath @ '' successfully''))))
       (\<lambda>error. console_error (''Extracting '' @ quoted filePath @ '' failed'')))"

definition unzipFromUrl :: "env \<Rightarrow> string \<Rightarrow> string \<Rightarrow> unit io" where
  "unzipFromUrl env zipUrl unzipLocation =
     bind (downloadPackage env zipUrl) (\<lambda>installZipPath.
     bind (unzipFileTo env installZipPath unzipLocation) (\<lambda>_.
     bind (logDebug ''Unzipping complete, removing ZIP file now...'') (\<lambda>_.
     bind (tl_rmRF (fs_path (cwd env) installZipPath)) (\<lambda>_.
     logDebug ''ZIP file has been removed''))))"

subsection \<open>The update step\<close>

definition getDependencyCheckScriptPath :: "env \<Rightarrow> string \<Rightarrow> string io" where
  "getDependencyCheckScriptPath env dependencyCheckDir =
     (let osSpecificDependencyCheckScript =
            (if windows env then ''dependency-check.bat'' else ''dependency-check.sh'') in
      bind (tl_resolve env [Some dependencyCheckDir, Some ''bin'', Some osSpecificDependencyCheckScript])
        (\<lambda>dependencyCheckScriptPath.
      bind (console_log (''Dependency Check script set to '' @ dependencyCheckScriptPath)) (\<lambda>_.
      bind (tl_checkPath env dependencyCheckScriptPath ''Dependency Check script'') (\<lambda>_.
      ret dependencyCheckScriptPath))))"

text \<open>The found lock files are absolute normalised paths, on which \<open>tl.resolve\<close> is
  the identity. The options \<open>{ matchBase: true }\<close> replace the default ones, so \<open>dot\<close> is
  not set. \<open>removeLockFile_each\<close> is the function given to \<open>forEach\<close>.\<close>

definition removeLockFile_each :: "env \<Rightarrow> path \<Rightarrow> unit io" where
  "removeLockFile_each env lockfile =
     (let fullLockFilePath = render lockfile in
      try_catch
        (bind (tl_exist env (Some fullLockFilePath)) (\<lambda>exists.
         if exists then
           bind (console_log (''removing lock file '' @ dquoted fullLockFilePath @ ''...'')) (\<lambda>_.
           tl_rmRF lockfile)
         else console_log (''found lock file '' @ dquoted fullLockFilePath @ '' doesn'' @ [CHR 0x27] @ ''t exist, that was unexpected'')))
        (\<lambda>err.
           bind (console_log (''could not delete lock file '' @ dquoted fullLockFilePath @ ''!'')) (\<lambda>_.
           console_error (message err))))"

definition removeLockFile :: "env \<Rightarrow> string \<Rightarrow> unit io" where
  "removeLockFile env dependencyCheckDir =
     bind (console_log ''Searching for left over lock files...'') (\<lambda>_.
     bind (tl_findMatch env dependencyCheckDir [''*.lock''] \<lparr>dot = False, matchBase = True\<rparr>) (\<lambda>lockFiles.
     if length lockFiles > 0 then
       bind (console_log (''found '' @ show_int (int (length lockFiles)) @ '' left over lock files, removing them now...'')) (\<lambda>_.
       forEach lockFiles (removeLockFile_each env))
     else console_log ''found no left over lock files, continuing...''))"

definition runDependencyCheck :: "env \<Rightarrow> string \<Rightarrow> string \<Rightarrow> int io" where
  "runDependencyCheck env scriptPath args =
     bind (tool_exec env scriptPath (Line args) False True) (\<lambda>exitCode.
     bind (console_log (''Dependency Check completed with exit code '' @ show_int exitCode @ ''.'')) (\<lambda>_.
     ret exitCode))"

definition updateDependencyCheckData :: "env \<Rightarrow> string \<Rightarrow> bool \<Rightarrow> DependencyCheckOptions \<Rightarrow> unit io" where
  "updateDependencyCheckData env dependencyCheckDir hasLocalInstallation dcOptions =
     bind (getDependencyCheckScriptPath env dependencyCheckDir) (\<lambda>dependencyCheckScriptPath.
     let args = getExecutableArguments dcOptions in
     bind (console_log ''Invoking Dependency Check data update...'') (\<lambda>_.
     bind (console_log (''Path: '' @ dependencyCheckScriptPath)) (\<lambda>_.
     bind (console_log (''Arguments: '' @ args)) (\<lambda>_.
     bind (tl_setVariable ''JAVA_OPTS'' ''-Xss8192k'') (\<lambda>_.
     bind (tool_exec env dependencyCheckScriptPath (Arg cliArguments_Version) False False) (\<lambda>_.
     bind (if \<not> hasLocalInstallation then removeLockFile env dependencyCheckDir else ret ()) (\<lambda>_.
     bind (runDependencyCheck env dependencyCheckScriptPath args) (\<lambda>exitCode.
     ret ()))))))))"

subsection \<open>run\<close>

text \<open>
  The \<open>try\<close> block of \<open>run\<close> is given in named parts: \<open>run_options\<close> are the statements
  that set and create the log and export directories and build the options;
  \<open>installZipUrl_of\<close> is the \<open>if\<close> statement that chooses the URL of the archive;
  \<open>run_install\<close> is the branch taken when the local install path is the sources
  directory; \<open>run_try\<close> is the block, which reads the inputs and variables first.
\<close>

definition run_options ::
  "env \<Rightarrow> bool \<Rightarrow> string option \<Rightarrow> string option \<Rightarrow> string option \<Rightarrow> string option \<Rightarrow> DependencyCheckOptions io" where
  "run_options env enableVerbose logDirectoryInput exportDirectoryInput sourcesDirectory artifactDirectory =
      bind (if logDirectoryInput = sourcesDirectory
            then bind (tl_resolve env [artifactDirectory, Some DependencyCheckFolderName]) (\<lambda>p. ret (Some p))
            else ret logDirectoryInput) (\<lambda>logDirectory.
      bind (console_log (''Setting log directory to '' @ toString logDirectory)) (\<lambda>_.
      bind (tl_exist env logDirectory) (\<lambda>logDirectoryExists.
      bind (if \<not> logDirectoryExists
            then bind (console_log (''Creating log directory at '' @ toString logDirectory)) (\<lambda>_.
                 tl_mkdirP env logDirectory)
            else ret ()) (\<lambda>_.
      bind (if exportDirectoryInput = sourcesDirectory
            then bind (tl_resolve env [artifactDirectory, Some DependencyCheckFolderName]) (\<lambda>p. ret (Some p))
            else ret exportDirectoryInput) (\<lambda>exportDirectory.
      bind (console_log (''Setting export directory to '' @ toString exportDirectory)) (\<lambda>_.
      bind (tl_exist env exportDirectory) (\<lambda>exportDirectoryExists.
      bind (if \<not> exportDirectoryExists
            then bind (console_log (''Creating export directory at '' @ toString exportDirectory)) (\<lambda>_.
                 tl_mkdirP env exportDirectory)
            else ret ()) (\<lambda>_.
      bind (tl_resolve env [logDirectory, Some ''dependency-check-log.txt'']) (\<lambda>logFile.
      bind (DependencyCheckOptionsBuilder_new env) (\<lambda>builder.
      ret (build (setLogFilePath logFile (setIsVerboseEnabled enableVerbose
             (setIsUpdateOnlyEnabled True (setExportDirectory exportDirectory builder)))))))))))))))"

definition installZipUrl_of :: "env \<Rightarrow> string option \<Rightarrow> string \<Rightarrow> string option io" where
  "installZipUrl_of env customRepoUrl dependencyCheckVersion =
     (if truthy customRepoUrl
      then bind (console_log (''Downloading Dependency Check installer from '' @ toString customRepoUrl @ ''...'')) (\<lambda>_.
           ret customRepoUrl)
      else bind (console_log (''Downloading Dependency Check '' @ dependencyCheckVersion @ '' installer from GitHub...'')) (\<lambda>_.
           getDependencyCheckDownloadUrl env dependencyCheckVersion))"

definition run_install :: "env \<Rightarrow> string option \<Rightarrow> string \<Rightarrow> DependencyCheckOptions \<Rightarrow> unit io" where
  "run_install env customRepoUrl dependencyCheckVersion options =
     bind (tl_resolve env [Some ''.'', Some DependencyCheckFolderName]) (\<lambda>localInstallPath.
     bind (tl_mkdirP env (Some localInstallPath)) (\<lambda>_.
     bind (installZipUrl_of env customRepoUrl dependencyCheckVersion) (\<lambda>installZipUrl.
     bind (cleanDirectory env localInstallPath [''**'', ''!data'', ''!data/**'']) (\<lambda>_.
     bind (tl_resolve env [Some ''./'']) (\<lambda>unzipLocation.
     bind (unzipFromUrl env (toString installZipUrl) unzipLocation) (\<lambda>_.
     updateDependencyCheckData env localInstallPath False options))))))"

definition run_try :: "env \<Rightarrow> unit io" where
  "run_try env =
     (let customRepoUrl = opt_trim (getInput env ''customRepoUrl'');
          dependencyCheckVersion =
            trim (if truthy (getInput env ''dependencyCheckVersion'')
                  then toString (getInput env ''dependencyCheckVersion'')
                  else DependencyCheckVersionLatest);
          enableVerbose = getBoolInput env ''enableVerbose'';
          localInstallPath = opt_trim (getPathInput env ''localInstallPath'');
          logDirectory = opt_trim (getPathInput env ''logDirectory'');
          exportDirectory = opt_trim (getPathInput env ''exportDirectory'')
      in
      bind (tl_getVariable ''Build.SourcesDirectory'') (\<lambda>sourcesDirectory.
      bind (tl_getVariable ''Build.ArtifactStagingDirectory'') (\<lambda>artifactDirectory.
      bind (run_options env enableVerbose logDirectory exportDirectory sourcesDirectory artifactDirectory) (\<lambda>options.
      if \<not> isVersionFormatValid dependencyCheckVersion
      then throw (Error (''Invalid Dependency Check version format '' @ quoted dependencyCheckVersion @ ''.''))
      else if localInstallPath = sourcesDirectory
      then run_install env customRepoUrl dependencyCheckVersion options
      else if truthy localInstallPath
      then tl_checkPath env (toString localInstallPath) ''Dependency Check installer''
      else ret ()))))"

text \<open>The \<open>catch\<close> block, and the whole of \<open>run\<close>.\<close>

definition run_catch :: "error \<Rightarrow> unit io" where
  "run_catch err =
     bind (console_log (message err)) (\<lambda>_.
     tl_setResult_Failed (message err))"

definition run :: "env \<Rightarrow> unit io" where
  "run env =
     bind (console_log ''Starting Dependency Check download...'') (\<lambda>_.
     bind (try_catch (run_try env) run_catch) (\<lambda>_.
     console_log ''Ending Dependency Check download...''))"

subsection \<open>run of dependency-check-data-task.ts\<close>

text \<open>The branch taken when the local install path is the sources directory, and the
  \<open>try\<close> block. The \<open>if\<close> statement that chooses the URL is the one of the other file.\<close>

definition run_data_task_install :: "env \<Rightarrow> string option \<Rightarrow> string \<Rightarrow> unit io" where
  "run_data_task_install env customRepoUrl dependencyCheckVersion =
     bind (tl_resolve env [Some ''./dependency-check'']) (\<lambda>localInstallPath.
     bind (tl_checkPath env localInstallPath ''Dependency Check installer'') (\<lambda>_.
     bind (installZipUrl_of env customRepoUrl dependencyCheckVersion) (\<lambda>installZipUrl.
     bind (cleanDirectory env localInstallPath [''**'', ''!data'', ''!data/**'']) (\<lambda>_.
     bind (tl_resolve env [Some ''./'']) (\<lambda>unzipLocation.
     unzipFromUrl env (toString installZipUrl) unzipLocation)))))"

definition run_data_task_try :: "env \<Rightarrow> unit io" where
  "run_data_task_try env =
     (let dependencyCheckVersion =
            trim (if truthy (getInput env ''dependencyCheckVersion'')
                  then toString (getInput env ''dependencyCheckVersion'')
                  else DependencyCheckVersionLatest);
          localInstallPath = opt_trim (getPathInput env ''localInstallPath'');
          customRepoUrl = opt_trim (getInput env ''customRepoUrl'')
      in
      bind (tl_getVariable ''Build.SourcesDirectory'') (\<lambda>sourcesDirectory.
      if \<not> isVersionFormatValid dependencyCheckVersion
      then throw (Error (''Invalid Dependency Check version format '' @ quoted dependencyCheckVersion @ ''.''))
      else if localInstallPath = sourcesDirectory
      then run_data_task_install env customRepoUrl dependencyCheckVersion
      else ret ()))"

definition run_data_task :: "env \<Rightarrow> unit io" where
  "run_data_task env =
     bind (console_log ''Starting Dependency Check download...'') (\<lambda>_.
     bind (try_catch (run_data_task_try env) run_catch) (\<lambda>_.
     console_log ''Ending Dependency Check download...''))"

subsection \<open>Effects that a computation leaves alone\<close>

definition preserves :: "(world \<Rightarrow> 'q) \<Rightarrow> 'a io \<Rightarrow> bool" where
  "preserves Q m = (\<forall>w. Q (snd (m w)) = Q w)"

subsection \<open>Debug lines\<close>

text \<open>What \<open>logDebug\<close> prints in a world.\<close>

definition debugEnabled :: "world \<Rightarrow> bool" where
  "debugEnabled w = (case variables w ''system.debug'' of None \<Rightarrow> False | Some s \<Rightarrow> toLowerCase s = ''true'')"

definition debugLines :: "world \<Rightarrow> string \<Rightarrow> (stream \<times> string) list" where
  "debugLines w msg = (if debugEnabled w then [(Stdout, ''##[debug]'' @ msg)] else [])"

section \<open>An example agent\<close>

text \<open>A build agent on a POSIX platform for the concrete runs below: no directory input
  is overridden (every path input is the sources directory), the working directory is
  \<open>/agent/work\<close>, the release description names a gzip and a zip asset, the archive
  holds the tool's script (stored as executable), and the tool passes its version check
  and then exits with code 4 after writing to the standard error stream.
  \<open>installed_files\<close> is an agent with an installation from an earlier run whose script has
  been made executable; \<open>unpacked_files\<close> is what the install branch leaves.\<close>

definition example_pathname :: "string \<Rightarrow> error + string" where
  "example_pathname url =
     (if take 8 url = ''https://'' then Inr (dropWhile (\<lambda>c. c \<noteq> CHR ''/'') (drop 8 url))
      else Inl (Error (''Invalid URL: '' @ url)))"

definition example_parse :: "string \<Rightarrow> error + releaseInfo" where
  "example_parse body =
     (if body = ''{release}''
      then Inr \<lparr>assets = Some
             [[(''content_type'', ''application/gzip''), (''browser_download_url'', ''https://host/files/dc.tar.gz'')],
              [(''content_type'', ''application/zip''), (''browser_download_url'', ''https://host/files/dc.zip'')]]\<rparr>
      else Inl (Error ''Unexpected token in JSON''))"

definition example_unzip :: "string \<Rightarrow> error + (path \<times> node) list" where
  "example_unzip content =
     (if content = ''PK''
      then Inr [([''dependency-check''], Directory),
                ([''dependency-check'', ''bin'', ''dependency-check.sh''], File ''#!/bin/sh'' True)]
      else Inl (Error ''Invalid or unsupported zip format''))"

definition example_spawn :: "string \<Rightarrow> tool_args \<Rightarrow> exit" where
  "example_spawn script args = Exited (if args = Arg ''--version'' then 0 else 4) True"

definition example_env :: "(string \<Rightarrow> string option) \<Rightarrow> bool \<Rightarrow> (string \<Rightarrow> nat \<Rightarrow> error + string) \<Rightarrow> env" where
  "example_env inputs verbose tr =
     \<lparr>cwd = ''/agent/work'', windows = False, PATH = [''/usr/bin''], PATHEXT = [], getInput = inputs, getBoolInput = (\<lambda>name. verbose),
      getPathInput = (\<lambda>name. Some ''/agent/src''), transport = tr, pathname = example_pathname,
      JSON_parse = example_parse, zip_entries = example_unzip, spawn = example_spawn\<rparr>"

definition example_variables :: "string \<Rightarrow> string option" where
  "example_variables name =
     (if name = ''Build.SourcesDirectory'' then Some ''/agent/src''
      else if name = ''Build.ArtifactStagingDirectory'' then Some ''/agent/out''
      else None)"

definition example_world :: "filesystem \<Rightarrow> world" where
  "example_world fs = \<lparr>files = fs, variables = example_variables, console = [], trace = [], taskResult = None\<rparr>"

definition example_files :: filesystem where
  "example_files = [([''agent''], Directory), ([''agent'', ''work''], Directory), ([''agent'', ''out''], Directory)]"

definition no_inputs :: "string \<Rightarrow> string option" where
  "no_inputs name = None"

definition hang_up_thrice :: "string \<Rightarrow> nat \<Rightarrow> error + string" where
  "hang_up_thrice url n = (if n < 3 then Inl (Error ''socket hang up'') else Inr ''PK'')"

definition always_refused :: "string \<Rightarrow> nat \<Rightarrow> error + string" where
  "always_refused url n = Inl (Error (''connection refused, request '' @ digits (Suc n)))"

definition answers_garbage :: "string \<Rightarrow> nat \<Rightarrow> error + string" where
  "answers_garbage url n = Inr ''<html>404</html>''"

definition answers_release :: "string \<Rightarrow> nat \<Rightarrow> error + string" where
  "answers_release url n = Inr ''{release}''"

definition installed_files :: filesystem where
  "installed_files =
     example_files @
     [([''agent'', ''work'', ''dependency-check''], Directory),
      ([''agent'', ''work'', ''dependency-check'', ''bin''], Directory),
      ([''agent'', ''work'', ''dependency-check'', ''bin'', ''dependency-check.sh''], File ''#!/bin/sh (old)'' True),
      ([''agent'', ''work'', ''dependency-check'', ''.odc.lock''], File [] False),
      ([''agent'', ''work'', ''dependency-check'', ''database''], File ''not the data directory'' False),
      ([''agent'', ''work'', ''dependency-check'', ''data''], Directory),
      ([''agent'', ''work'', ''dependency-check'', ''data'', ''odc.mv.db''], File ''vulnerabilities'' False),
      ([''agent'', ''work'', ''dependency-check'', ''data'', ''cache'', ''x.lock''], File [] False)]"

subsection \<open>Processes in a trace\<close>

fun isExec :: "action \<Rightarrow> bool" where
  "isExec (Exec script args) = True"
| "isExec _ = False"

definition executions :: "world \<Rightarrow> action list" where
  "executions w = filter isExec (trace w)"

definition broken_tool :: "string \<Rightarrow> tool_args \<Rightarrow> exit" where
  "broken_tool script args = Exited 1 False"

definition verbose_options :: DependencyCheckOptions where
  "verbose_options =
     \<lparr>exportDirectory = ''/agent/out/dependency-check'', isUpdateOnlyEnabled = True, isVerboseEnabled = True,
      logFilePath = ''/agent/out/dependency-check/dependency-check-log.txt''\<rparr>"

definition numeric_version :: "string \<Rightarrow> string option" where
  "numeric_version name = (if name = ''dependencyCheckVersion'' then Some ''1.2.3'' else None)"

definition preinstalled_env :: env where
  "preinstalled_env =
     (example_env no_inputs False always_refused)
       \<lparr>getPathInput := (\<lambda>name. if name = ''localInstallPath'' then Some ''/agent/work'' else Some ''/agent/src'')\<rparr>"

subsection \<open>Requests to one URL only\<close>

definition only_requests :: "string \<Rightarrow> 'a io \<Rightarrow> bool" where
  "only_requests url m = (\<forall>w. \<exists>k. requests (snd (m w)) = requests w @ replicate k (HttpGet url))"

definition blank_custom_url :: "string \<Rightarrow> string option" where
  "blank_custom_url name = (if name = ''customRepoUrl'' then Some '' '' else None)"

definition padded_custom_url :: "string \<Rightarrow> string option" where
  "padded_custom_url name = (if name = ''customRepoUrl'' then Some '' https://host/files/dc.zip '' else None)"

subsection \<open>The requested version\<close>

text \<open>The value of \<open>dependencyCheckVersion\<close> in \<open>run\<close>.\<close>

definition requestedVersion :: "env \<Rightarrow> string" where
  "requestedVersion env =
     trim (if truthy (getInput env ''dependencyCheckVersion'')
           then toString (getInput env ''dependencyCheckVersion'')
           else DependencyCheckVersionLatest)"

definition unpacked_files :: filesystem where
  "unpacked_files =
     example_files @
     [([''agent'', ''work'', ''dependency-check''], Directory),
      ([''agent'', ''work'', ''dependency-check'', ''bin''], Directory),
      ([''agent'', ''work'', ''dependency-check'', ''bin'', ''dependency-check.sh''], File ''#!/bin/sh'' False)]"

definition example_server :: "string \<Rightarrow> nat \<Rightarrow> error + string" where
  "example_server url n = (if url = ''https://host/files/dc.zip'' then Inr ''PK'' else Inr ''{release}'')"

section \<open>The version format\<close>

lemma versionPattern_cooked: "versionPattern = ''^(d.d.d|latest)$''"
  by (simp add: versionPattern_def versionPattern_head_def versionPattern_tail_def
      DependencyCheckVersionLatest_def backslash_def unescape_def)

lemma versionRegex_value:
  "RegExp_new versionPattern =
     Some [[Literal (CHR ''d''), AnyChar, Literal (CHR ''d''), AnyChar, Literal (CHR ''d'')],
           map Literal ''latest'']"
  by (simp add: versionPattern_cooked RegExp_new_def backslash_def)

text \<open>
  C1. The claim: \<open>isVersionFormatValid\<close> is true exactly for \<open>latest\<close> in any letter case
  and for three single digits separated by dots, so \<open>isVersionFormatValid("1.2.3")\<close> is
  true. The code: the pattern is a template literal, in which \<open>\d\<close> is the letter \<open>d\<close> and
  \<open>\.\<close> is a dot that matches any character, so the expression is \<open>^(d.d.d|latest)$\<close>
  and \<open>1.2.3\<close> is rejected, against the function's own description
  (\<open>Valid is 'x.y.z' or 'latest'\<close>).
\<close>

theorem isVersionFormatValid_rejects_digits: "isVersionFormatValid ''1.2.3'' = False"
  by (simp add: isVersionFormatValid_def versionRegex_value RegExp_test_def toUpperCase_char_def code_def)

section \<open>The options\<close>

text \<open>
  C5. For every builder, the options that \<open>build()\<close> makes have \<open>isUpdateOnlyEnabled\<close>
  equal to the builder's \<open>isVerboseEnabled\<close>, and \<open>isVerboseEnabled\<close>, \<open>exportDirectory\<close> and
  \<open>logFilePath\<close> equal to the builder's fields of these names. So the value given to
  \<open>setIsUpdateOnlyEnabled\<close> in the chain of \<open>run\<close> does not reach the options, whose
  \<open>isUpdateOnlyEnabled\<close> is the verbose input.
\<close>

theorem build_isUpdateOnlyEnabled_is_verbose:
  "isUpdateOnlyEnabled (build b) = builder_isVerboseEnabled b
   \<and> isVerboseEnabled (build b) = builder_isVerboseEnabled b
   \<and> exportDirectory (build b) = builder_exportDirectory b
   \<and> logFilePath (build b) = builder_logFilePath b
   \<and> build (setLogFilePath logFile (setIsVerboseEnabled enableVerbose
         (setIsUpdateOnlyEnabled x (setExportDirectory dir b0))))
     = build (setLogFilePath logFile (setIsVerboseEnabled enableVerbose
         (setIsUpdateOnlyEnabled y (setExportDirectory dir b0))))
   \<and> isUpdateOnlyEnabled (build (setLogFilePath logFile (setIsVerboseEnabled enableVerbose
         (setIsUpdateOnlyEnabled True (setExportDirectory dir b0))))) = enableVerbose"
  by (simp add: build_def DependencyCheckOptions_new_def setLogFilePath_def setIsVerboseEnabled_def
      setIsUpdateOnlyEnabled_def setExportDirectory_def)

section \<open>Computations\<close>

lemma bind_ret [simp]: "bind (ret x) f = f x"
  by (rule ext) (simp add: bind_def ret_def)

lemma bind_throw [simp]: "bind (throw e) f = throw e"
  by (rule ext) (simp add: bind_def throw_def)

lemma bind_lift_Inr [simp]: "bind (lift (Inr x)) f = f x"
  by (rule ext) (simp add: bind_def lift_def)

lemma bind_lift_Inl [simp]: "bind (lift (Inl e)) f = throw e"
  by (rule ext) (simp add: bind_def lift_def throw_def)

lemma bind_console_log [simp]:
  "bind (console_log s) f w = f () (w\<lparr>console := console w @ [(Stdout, s)]\<rparr>)"
  by (simp add: bind_def console_log_def)

lemma bind_console_error [simp]:
  "bind (console_error s) f w = f () (w\<lparr>console := console w @ [(Stderr, s)]\<rparr>)"
  by (simp add: bind_def console_error_def)

lemma bind_tl_getVariable [simp]: "bind (tl_getVariable n) f w = f (variables w n) w"
  by (simp add: bind_def tl_getVariable_def)

lemma logDebug_eq: "logDebug msg w = (Inr (), w\<lparr>console := console w @ debugLines w msg\<rparr>)"
  by (simp add: logDebug_def isSystemDebugEnabled_def debugLines_def debugEnabled_def
      console_log_def ret_def bind_def tl_getVariable_def split: option.splits)

lemma bind_logDebug [simp]:
  "bind (logDebug msg) f w = f () (w\<lparr>console := console w @ debugLines w msg\<rparr>)"
  by (simp add: bind_def logDebug_eq)

lemma bind_client_get:
  "bind (client_get env url) f w =
     (case transport env url (length (requests w)) of
        Inl e \<Rightarrow> (Inl e, w\<lparr>trace := trace w @ [HttpGet url]\<rparr>)
      | Inr body \<Rightarrow> f body (w\<lparr>trace := trace w @ [HttpGet url]\<rparr>))"
  by (simp add: bind_def client_get_def split: sum.splits)

lemma requests_simps [simp]:
  "requests (w\<lparr>console := c\<rparr>) = requests w"
  "requests (w\<lparr>files := fs\<rparr>) = requests w"
  "requests (w\<lparr>taskResult := r\<rparr>) = requests w"
  "requests (w\<lparr>variables := v\<rparr>) = requests w"
  "requests (w\<lparr>trace := t\<rparr>) = filter isHttpGet t"
  by (simp_all add: requests_def)

lemma debugLines_simps [simp]:
  "debugLines (w\<lparr>console := c\<rparr>) = debugLines w"
  "debugLines (w\<lparr>files := fs\<rparr>) = debugLines w"
  "debugLines (w\<lparr>taskResult := r\<rparr>) = debugLines w"
  "debugLines (w\<lparr>trace := t\<rparr>) = debugLines w"
  by (simp_all add: debugLines_def debugEnabled_def fun_eq_iff)

lemma world_update_order [simp]:
  "w\<lparr>console := c, files := f\<rparr> = w\<lparr>files := f, console := c\<rparr>"
  "w\<lparr>console := c, variables := v\<rparr> = w\<lparr>variables := v, console := c\<rparr>"
  "w\<lparr>console := c, trace := t\<rparr> = w\<lparr>trace := t, console := c\<rparr>"
  "w\<lparr>console := c, taskResult := r\<rparr> = w\<lparr>taskResult := r, console := c\<rparr>"
  "w\<lparr>taskResult := r, files := f\<rparr> = w\<lparr>files := f, taskResult := r\<rparr>"
  "w\<lparr>taskResult := r, variables := v\<rparr> = w\<lparr>variables := v, taskResult := r\<rparr>"
  "w\<lparr>taskResult := r, trace := t\<rparr> = w\<lparr>trace := t, taskResult := r\<rparr>"
  "w\<lparr>trace := t, files := f\<rparr> = w\<lparr>files := f, trace := t\<rparr>"
  "w\<lparr>trace := t, variables := v\<rparr> = w\<lparr>variables := v, trace := t\<rparr>"
  "w\<lparr>variables := v, files := f\<rparr> = w\<lparr>files := f, variables := v\<rparr>"
  by (cases w, simp)+

declare download_loop.simps [simp del]

lemma download_loop_succeeds:
  "k \<le> nat r \<Longrightarrow> 0 \<le> r \<Longrightarrow>
   \<forall>i<k. isl (transport env url (length (requests w) + i)) \<Longrightarrow>
   transport env url (length (requests w) + k) = Inr body \<Longrightarrow>
   \<exists>c. download_loop env url r resp w =
     (Inr (None, Some body), w\<lparr>trace := trace w @ replicate (Suc k) (HttpGet url), console := c\<rparr>)"
proof (induction k arbitrary: r w)
  case 0
  then show ?case
    by (subst download_loop.simps) (auto simp add: bind_client_get ret_def)
next
  case (Suc k)
  from Suc.prems(3) have "isl (transport env url (length (requests w)))"
    by (metis add.right_neutral zero_less_Suc)
  then obtain e where e: "transport env url (length (requests w)) = Inl e"
    by (cases "transport env url (length (requests w))") auto
  let ?w2 = "w\<lparr>trace := trace w @ [HttpGet url], console := console w @ [(Stdout, ''Downloading ZIP from '' @ dquoted url @ ''...''),
      (Stderr, ''Error trying to download ZIP ('' @ show_int (r - 1 + 1) @ '' tries left)''),
      (Stderr, message e)]\<rparr>"
  have r: "0 \<le> r - 1" "k \<le> nat (r - 1)" using Suc.prems(1,2) by auto
  have len: "length (requests ?w2) = Suc (length (requests w))"
    by (simp add: requests_def)
  have step: "download_loop env url r resp w = download_loop env url (r - 1) resp ?w2"
    using r by (subst download_loop.simps) (simp add: bind_client_get e console_error_def Let_def)
  have "\<forall>i<k. isl (transport env url (length (requests ?w2) + i))"
    using Suc.prems(3) unfolding len by (metis Suc_less_eq add_Suc_shift)
  moreover have "transport env url (length (requests ?w2) + k) = Inr body"
    using Suc.prems(4) unfolding len by simp
  ultimately obtain c where
    "download_loop env url (r - 1) resp ?w2 =
       (Inr (None, Some body), ?w2\<lparr>trace := trace ?w2 @ replicate (Suc k) (HttpGet url), console := c\<rparr>)"
    using Suc.IH[OF r(2) r(1), of ?w2] by blast
  then show ?case
    unfolding step by (auto simp: replicate_app_Cons_same)
qed


lemma download_loop_fails:
  "0 \<le> r \<Longrightarrow>
   \<forall>i\<le>nat r. isl (transport env url (length (requests w) + i)) \<Longrightarrow>
   \<exists>c. download_loop env url r resp w =
     (Inr (Some (projl (transport env url (length (requests w) + nat r))), resp),
      w\<lparr>trace := trace w @ replicate (Suc (nat r)) (HttpGet url), console := c\<rparr>)"
proof (induction "nat r" arbitrary: r w)
  case 0
  then have r: "r = 0" by simp
  from 0 obtain e where e: "transport env url (length (requests w)) = Inl e"
    by (cases "transport env url (length (requests w))") auto
  show ?case
    unfolding r by (subst download_loop.simps) (auto simp add: bind_client_get e console_error_def Let_def)
next
  case (Suc n)
  from Suc.prems(2) have "isl (transport env url (length (requests w) + 0))" by blast
  then obtain e where e: "transport env url (length (requests w)) = Inl e"
    by (cases "transport env url (length (requests w))") auto
  have r: "0 \<le> r - 1" "n = nat (r - 1)" "nat r = Suc (nat (r - 1))" using Suc.hyps(2) by auto
  have "\<exists>c0. download_loop env url r resp w =
      download_loop env url (r - 1) resp (w\<lparr>trace := trace w @ [HttpGet url], console := c0\<rparr>)"
    using r by (subst download_loop.simps) (auto simp add: bind_client_get e console_error_def Let_def)
  then obtain c0 where step: "download_loop env url r resp w =
      download_loop env url (r - 1) resp (w\<lparr>trace := trace w @ [HttpGet url], console := c0\<rparr>)"
    by blast
  let ?w2 = "w\<lparr>trace := trace w @ [HttpGet url], console := c0\<rparr>"
  have len: "length (requests ?w2) = Suc (length (requests w))"
    by (simp add: requests_def)
  have "\<forall>i\<le>nat (r - 1). isl (transport env url (length (requests ?w2) + i))"
  proof (intro allI impI)
    fix i assume "i \<le> nat (r - 1)"
    then have "Suc i \<le> nat r" using r(3) by simp
    then have "isl (transport env url (length (requests w) + Suc i))" using Suc.prems(2) by blast
    then show "isl (transport env url (length (requests ?w2) + i))" unfolding len by simp
  qed
  then obtain c where
    "download_loop env url (r - 1) resp ?w2 =
       (Inr (Some (projl (transport env url (length (requests ?w2) + nat (r - 1)))), resp),
        ?w2\<lparr>trace := trace ?w2 @ replicate (Suc (nat (r - 1))) (HttpGet url), console := c\<rparr>)"
    using Suc.hyps(1)[OF r(2) r(1), of ?w2] by blast
  then show ?case
    unfolding step len r(3) by (auto simp: replicate_app_Cons_same)
qed

lemma download_loop_bound:
  "0 \<le> r \<Longrightarrow>
   \<exists>m c res. m \<le> Suc (nat r) \<and> download_loop env url r resp w =
     (Inr res, w\<lparr>trace := trace w @ replicate m (HttpGet url), console := c\<rparr>)"
proof (cases "\<forall>i\<le>nat r. isl (transport env url (length (requests w) + i))")
  case True
  assume "0 \<le> r"
  from download_loop_fails[OF this True, of resp] show ?thesis by blast
next
  case False
  assume r: "0 \<le> r"
  define k where "k = (LEAST i. \<not> isl (transport env url (length (requests w) + i)))"
  from False obtain j where j: "j \<le> nat r" "\<not> isl (transport env url (length (requests w) + j))" by blast
  have k: "\<not> isl (transport env url (length (requests w) + k))"
    unfolding k_def using j(2) by (rule LeastI)
  have kj: "k \<le> j" unfolding k_def using j(2) by (rule Least_le)
  have before: "\<forall>i<k. isl (transport env url (length (requests w) + i))"
    unfolding k_def using not_less_Least by blast
  from k obtain body where "transport env url (length (requests w) + k) = Inr body"
    by (cases "transport env url (length (requests w) + k)") auto
  from download_loop_succeeds[OF _ r before this, of resp] kj j(1)
  obtain c where "download_loop env url r resp w =
     (Inr (None, Some body), w\<lparr>trace := trace w @ replicate (Suc k) (HttpGet url), console := c\<rparr>)"
    by auto
  moreover have "Suc k \<le> Suc (nat r)" using kj j(1) by simp
  ultimately show ?thesis by blast
qed


section \<open>The download\<close>

lemma downloadPackage_start:
  assumes "pathname env url = Inr p"
    and "path_resolve (cwd env) [Some (basename p)] = Inr installPackage"
  shows "downloadPackage env url w =
      bind (download_loop env url 5 None) (\<lambda>(tmpError, response).
        case tmpError of
          Some error \<Rightarrow> throw error
        | None \<Rightarrow>
            bind (logDebug ''Download was successful, saving downloaded ZIP file...'') (\<lambda>_.
            bind (case response of
                    None \<Rightarrow> throw (Error ''Cannot read properties of undefined (reading message)'')
                  | Some body \<Rightarrow> pipe_to_file env installPackage body) (\<lambda>_.
            bind (logDebug ''Downloaded ZIP file has been saved.'') (\<lambda>_.
            ret installPackage)))) w"
  by (simp add: downloadPackage_def assms tl_resolve_def)

lemma path_resolve_single: "\<exists>s. path_resolve dir [Some x] = Inr s"
  by (simp add: path_resolve_def)

lemma downloadPackage_bound:
  "length (requests (snd (downloadPackage env url w))) \<le> length (requests w) + 6"
proof (cases "pathname env url")
  case (Inl e)
  then show ?thesis by (simp add: downloadPackage_def throw_def)
next
  case (Inr p)
  obtain installPackage where ip: "path_resolve (cwd env) [Some (basename p)] = Inr installPackage"
    using path_resolve_single by blast
  obtain m c res where m: "m \<le> Suc (nat 5)"
    and loop: "download_loop env url 5 None w = (Inr res, w\<lparr>trace := trace w @ replicate m (HttpGet url), console := c\<rparr>)"
    using download_loop_bound[of 5 env url None w] by auto
  show ?thesis
    using m unfolding downloadPackage_start[OF Inr ip]
    by (cases res) (auto simp: bind_def loop throw_def ret_def pipe_to_file_def requests_def logDebug_eq
        split: option.splits sum.splits prod.splits)
qed

lemma downloadPackage_saves:
  assumes "pathname env url = Inr p"
    and "path_resolve (cwd env) [Some (basename p)] = Inr installPackage"
    and "k \<le> 5"
    and "\<forall>i<k. isl (transport env url (length (requests w) + i))"
    and "transport env url (length (requests w) + k) = Inr body"
    and "writeFile (fs_path (cwd env) installPackage) body (files w) = Inr fs"
  shows "\<exists>c. downloadPackage env url w =
     (Inr installPackage,
      w\<lparr>files := fs,
        trace := trace w @ replicate (Suc k) (HttpGet url) @ [WriteStream (fs_path (cwd env) installPackage)],
        console := c\<rparr>)"
proof -
  obtain c where loop: "download_loop env url 5 None w =
      (Inr (None, Some body), w\<lparr>trace := trace w @ replicate (Suc k) (HttpGet url), console := c\<rparr>)"
    using download_loop_succeeds[of k 5 env url w body None] assms(3-5) by auto
  show ?thesis
    unfolding downloadPackage_start[OF assms(1,2)]
    by (auto simp add: bind_def loop ret_def pipe_to_file_def logDebug_eq assms(6))
qed

lemma downloadPackage_gives_up:
  assumes "pathname env url = Inr p"
    and "\<forall>i<6. isl (transport env url (length (requests w) + i))"
  shows "\<exists>c. downloadPackage env url w =
     (Inl (projl (transport env url (length (requests w) + 5))),
      w\<lparr>trace := trace w @ replicate 6 (HttpGet url), console := c\<rparr>)"
proof -
  obtain installPackage where ip: "path_resolve (cwd env) [Some (basename p)] = Inr installPackage"
    using path_resolve_single by blast
  from assms(2) have "\<forall>i\<le>nat 5. isl (transport env url (length (requests w) + i))" by auto
  then obtain c where loop: "download_loop env url 5 None w =
      (Inr (Some (projl (transport env url (length (requests w) + nat 5))), None),
       w\<lparr>trace := trace w @ replicate (Suc (nat 5)) (HttpGet url), console := c\<rparr>)"
    using download_loop_fails[of 5 env url w None] by auto
  show ?thesis
    unfolding downloadPackage_start[OF assms(1) ip]
    by (auto simp add: bind_def loop throw_def eval_nat_numeral)
qed

text \<open>
  C2, as amended. \<open>downloadPackage\<close> makes at most 6 requests. When the transport fails
  on the first \<open>k \<le> 5\<close> attempts and answers the next one, and the write stream finishes,
  the body is saved in the local file and nothing is thrown. When 6 attempts in a row
  fail, the error of the last attempt is thrown (each pass of the loop replaces
  \<open>tmpError\<close>). The URL is one the URL parser accepts.
\<close>

theorem downloadPackage_attempts:
  assumes "pathname env url = Inr p"
    and "path_resolve (cwd env) [Some (basename p)] = Inr installPackage"
  shows "length (requests (snd (downloadPackage env url w))) \<le> length (requests w) + 6
    \<and> (k \<le> 5 \<and> (\<forall>i<k. isl (transport env url (length (requests w) + i)))
         \<and> transport env url (length (requests w) + k) = Inr body
         \<and> writeFile (fs_path (cwd env) installPackage) body (files w) = Inr fs
       \<longrightarrow> fst (downloadPackage env url w) = Inr installPackage
           \<and> files (snd (downloadPackage env url w)) = fs
           \<and> trace (snd (downloadPackage env url w))
               = trace w @ replicate (Suc k) (HttpGet url) @ [WriteStream (fs_path (cwd env) installPackage)])
    \<and> ((\<forall>i<6. isl (transport env url (length (requests w) + i)))
       \<longrightarrow> fst (downloadPackage env url w) = Inl (projl (transport env url (length (requests w) + 5)))
           \<and> files (snd (downloadPackage env url w)) = files w
           \<and> trace (snd (downloadPackage env url w)) = trace w @ replicate 6 (HttpGet url))"
proof (intro conjI impI)
  show "length (requests (snd (downloadPackage env url w))) \<le> length (requests w) + 6"
    by (rule downloadPackage_bound)
next
  assume h: "k \<le> 5 \<and> (\<forall>i<k. isl (transport env url (length (requests w) + i)))
         \<and> transport env url (length (requests w) + k) = Inr body
         \<and> writeFile (fs_path (cwd env) installPackage) body (files w) = Inr fs"
  from downloadPackage_saves[OF assms, of k w body fs] h
  obtain c where "downloadPackage env url w =
     (Inr installPackage,
      w\<lparr>files := fs,
        trace := trace w @ replicate (Suc k) (HttpGet url) @ [WriteStream (fs_path (cwd env) installPackage)],
        console := c\<rparr>)"
    by blast
  then show "fst (downloadPackage env url w) = Inr installPackage"
    and "files (snd (downloadPackage env url w)) = fs"
    and "trace (snd (downloadPackage env url w))
               = trace w @ replicate (Suc k) (HttpGet url) @ [WriteStream (fs_path (cwd env) installPackage)]"
    by simp_all
next
  assume h: "\<forall>i<6. isl (transport env url (length (requests w) + i))"
  from downloadPackage_gives_up[OF assms(1) h]
  obtain c where "downloadPackage env url w =
     (Inl (projl (transport env url (length (requests w) + 5))),
      w\<lparr>trace := trace w @ replicate 6 (HttpGet url), console := c\<rparr>)"
    by blast
  then show "fst (downloadPackage env url w) = Inl (projl (transport env url (length (requests w) + 5)))"
    and "files (snd (downloadPackage env url w)) = files w"
    and "trace (snd (downloadPackage env url w)) = trace w @ replicate 6 (HttpGet url)"
    by simp_all
qed

text \<open>The theorem at an agent whose transport fails three times and then answers.\<close>

theorem downloadPackage_attempts_witness:
  "fst (downloadPackage (example_env no_inputs False hang_up_thrice) ''https://host/files/dc.zip'' (example_world example_files))
     = Inr ''/agent/work/dc.zip''
   \<and> files (snd (downloadPackage (example_env no_inputs False hang_up_thrice) ''https://host/files/dc.zip'' (example_world example_files)))
     = example_files @ [([''agent'', ''work'', ''dc.zip''], File ''PK'' False)]
   \<and> trace (snd (downloadPackage (example_env no_inputs False hang_up_thrice) ''https://host/files/dc.zip'' (example_world example_files)))
     = replicate 4 (HttpGet ''https://host/files/dc.zip'') @ [WriteStream [''agent'', ''work'', ''dc.zip'']]"
proof -
  let ?E = "example_env no_inputs False hang_up_thrice"
  let ?W = "example_world example_files"
  let ?url = "''https://host/files/dc.zip''"
  have h1: "pathname ?E ?url = Inr ''/files/dc.zip''"
    by code_simp
  have h2: "path_resolve (cwd ?E) [Some (basename ''/files/dc.zip'')] = Inr ''/agent/work/dc.zip''"
    by code_simp
  have h3: "(\<forall>i<3. isl (transport ?E ?url (length (requests ?W) + i)))
      \<and> transport ?E ?url (length (requests ?W) + 3) = Inr ''PK''"
    by (simp add: example_env_def hang_up_thrice_def example_world_def requests_def)
  have h4: "writeFile (fs_path (cwd ?E) ''/agent/work/dc.zip'') ''PK'' (files ?W)
          = Inr (example_files @ [([''agent'', ''work'', ''dc.zip''], File ''PK'' False)])"
    by code_simp
  from downloadPackage_attempts[OF h1 h2, of ?W 3 "''PK''" "example_files @ [([''agent'', ''work'', ''dc.zip''], File ''PK'' False)]"] h3 h4
  have "fst (downloadPackage ?E ?url ?W) = Inr ''/agent/work/dc.zip''
      \<and> files (snd (downloadPackage ?E ?url ?W)) = example_files @ [([''agent'', ''work'', ''dc.zip''], File ''PK'' False)]
      \<and> trace (snd (downloadPackage ?E ?url ?W))
          = trace ?W @ replicate (Suc 3) (HttpGet ?url) @ [WriteStream (fs_path (cwd ?E) ''/agent/work/dc.zip'')]"
    by simp
  moreover have "trace ?W = []"
    by (simp add: example_world_def)
  moreover have "fs_path (cwd ?E) ''/agent/work/dc.zip'' = [''agent'', ''work'', ''dc.zip'']"
    by code_simp
  moreover have "Suc 3 = 4"
    by simp
  ultimately show ?thesis by (simp del: replicate_Suc replicate.simps)
qed

text \<open>
  C2 as stated says that the error of the first failed attempt is thrown. With a transport
  that fails every request with a message of its own, the first attempt fails with
  \<open>request 1\<close> and \<open>downloadPackage\<close> throws \<open>request 6\<close>.
\<close>

theorem downloadPackage_first_error_counterexample:
  "always_refused ''https://host/files/dc.zip'' 0 = Inl (Error ''connection refused, request 1'')
   \<and> fst (downloadPackage (example_env no_inputs False always_refused) ''https://host/files/dc.zip'' (example_world example_files))
       = Inl (Error ''connection refused, request 6'')"
proof -
  let ?E = "example_env no_inputs False always_refused"
  let ?W = "example_world example_files"
  let ?url = "''https://host/files/dc.zip''"
  have h1: "pathname ?E ?url = Inr ''/files/dc.zip''"
    by code_simp
  have h2: "\<forall>i<6. isl (transport ?E ?url (length (requests ?W) + i))"
    by (simp add: example_env_def always_refused_def)
  have d: "digits (Suc 0) = ''1''" "digits 6 = ''6''"
    by code_simp+
  have h3: "transport ?E ?url (length (requests ?W) + 5) = Inl (Error ''connection refused, request 6'')"
    by (simp add: example_env_def always_refused_def example_world_def requests_def d del: digits.simps)
  have "always_refused ?url 0 = Inl (Error ''connection refused, request 1'')"
    by (simp add: always_refused_def d del: digits.simps)
  moreover have "fst (downloadPackage ?E ?url ?W) = Inl (Error ''connection refused, request 6'')"
    using downloadPackage_gives_up[OF h1 h2] h3 by auto
  ultimately show ?thesis by simp
qed

section \<open>The extraction\<close>

lemma unzipFileTo_total: "fst (unzipFileTo env filePath targetPath w) = Inr ()"
  by (auto simp: unzipFileTo_def try_catch_def bind_def console_log_def console_error_def Zip_new_def
      extractAllTo_def split: option.splits node.splits sum.splits prod.splits)

lemma unzipFileTo_logs_failure:
  "fst (bind (Zip_new env filePath) (\<lambda>zipFile. extractAllTo env zipFile targetPath) w) = Inl e \<Longrightarrow>
   (Stderr, ''Extracting '' @ quoted filePath @ '' failed'') \<in> set (console (snd (unzipFileTo env filePath targetPath w)))
   \<and> taskResult (snd (unzipFileTo env filePath targetPath w)) = taskResult w"
  by (auto simp: unzipFileTo_def try_catch_def bind_def console_log_def console_error_def Zip_new_def
      extractAllTo_def split: option.splits node.splits sum.splits prod.splits)

lemma unzipFromUrl_eq:
  assumes "downloadPackage env zipUrl w = (Inr installZipPath, w1)"
  shows "\<exists>w2 c. unzipFromUrl env zipUrl unzipLocation w =
     (Inr (), w2\<lparr>files := remove (fs_path (cwd env) installZipPath) (files w2),
                 trace := trace w2 @ [RmRF (fs_path (cwd env) installZipPath)], console := c\<rparr>)"
proof -
  obtain r w2 where u: "unzipFileTo env installZipPath unzipLocation w1 = (r, w2)"
    by (cases "unzipFileTo env installZipPath unzipLocation w1")
  with unzipFileTo_total[of env installZipPath unzipLocation w1] have r: "r = Inr ()" by simp
  have "unzipFromUrl env zipUrl unzipLocation w =
      bind (logDebug ''Unzipping complete, removing ZIP file now...'') (\<lambda>_.
      bind (tl_rmRF (fs_path (cwd env) installZipPath)) (\<lambda>_.
      logDebug ''ZIP file has been removed'')) w2"
    by (simp add: unzipFromUrl_def bind_def assms u r)
  then show ?thesis
    by (auto simp: bind_def tl_rmRF_def logDebug_eq)
qed

text \<open>
  C3. \<open>unzipFileTo\<close> never throws: when opening or extracting the archive fails, the
  failure is printed on the error stream and nothing else happens (no task result is
  set). A call of \<open>unzipFromUrl\<close> completes exactly when the download does, also when the
  extraction failed, and then its last effect is the removal of the downloaded archive:
  no file is left at or below the archive's path.
\<close>

theorem unzip_swallows_failure_and_removes_archive:
  "fst (unzipFileTo env filePath targetPath w) = Inr ()
   \<and> (fst (bind (Zip_new env filePath) (\<lambda>zipFile. extractAllTo env zipFile targetPath) w) = Inl e \<longrightarrow>
        (Stderr, ''Extracting '' @ quoted filePath @ '' failed'') \<in> set (console (snd (unzipFileTo env filePath targetPath w)))
        \<and> taskResult (snd (unzipFileTo env filePath targetPath w)) = taskResult w)
   \<and> (fst (downloadPackage env zipUrl w) = Inr installZipPath \<longrightarrow>
        fst (unzipFromUrl env zipUrl unzipLocation w) = Inr ()
        \<and> (\<forall>q \<in> fst ` set (files (snd (unzipFromUrl env zipUrl unzipLocation w))).
              \<not> prefix (fs_path (cwd env) installZipPath) q)
        \<and> last (trace (snd (unzipFromUrl env zipUrl unzipLocation w))) = RmRF (fs_path (cwd env) installZipPath))
   \<and> (fst (unzipFromUrl env zipUrl unzipLocation w) = Inr () \<longrightarrow>
        (\<exists>installZipPath. fst (downloadPackage env zipUrl w) = Inr installZipPath))"
proof (intro conjI impI)
  show "fst (unzipFileTo env filePath targetPath w) = Inr ()"
    by (rule unzipFileTo_total)
next
  assume "fst (bind (Zip_new env filePath) (\<lambda>zipFile. extractAllTo env zipFile targetPath) w) = Inl e"
  from unzipFileTo_logs_failure[OF this]
  show "(Stderr, ''Extracting '' @ quoted filePath @ '' failed'') \<in> set (console (snd (unzipFileTo env filePath targetPath w)))"
    and "taskResult (snd (unzipFileTo env filePath targetPath w)) = taskResult w"
    by simp_all
next
  assume "fst (downloadPackage env zipUrl w) = Inr installZipPath"
  then obtain w1 where "downloadPackage env zipUrl w = (Inr installZipPath, w1)"
    by (cases "downloadPackage env zipUrl w") simp
  from unzipFromUrl_eq[OF this, of unzipLocation]
  obtain w2 c where eq: "unzipFromUrl env zipUrl unzipLocation w =
     (Inr (), w2\<lparr>files := remove (fs_path (cwd env) installZipPath) (files w2),
                 trace := trace w2 @ [RmRF (fs_path (cwd env) installZipPath)], console := c\<rparr>)"
    by blast
  show "fst (unzipFromUrl env zipUrl unzipLocation w) = Inr ()"
    and "\<forall>q \<in> fst ` set (files (snd (unzipFromUrl env zipUrl unzipLocation w))).
              \<not> prefix (fs_path (cwd env) installZipPath) q"
    and "last (trace (snd (unzipFromUrl env zipUrl unzipLocation w))) = RmRF (fs_path (cwd env) installZipPath)"
    unfolding eq by (auto simp: remove_def)
next
  assume "fst (unzipFromUrl env zipUrl unzipLocation w) = Inr ()"
  then show "\<exists>installZipPath. fst (downloadPackage env zipUrl w) = Inr installZipPath"
    by (cases "downloadPackage env zipUrl w"; cases "fst (downloadPackage env zipUrl w)")
       (auto simp: unzipFromUrl_def bind_def)
qed


text \<open>The theorem at an agent whose download answers with a page that is no archive.\<close>

theorem unzip_swallows_failure_and_removes_archive_witness:
  "fst (unzipFromUrl (example_env no_inputs False answers_garbage) ''https://host/files/dc.zip'' ''/agent/work''
          (example_world example_files)) = Inr ()
   \<and> [''agent'', ''work'', ''dc.zip'']
       \<notin> fst ` set (files (snd (unzipFromUrl (example_env no_inputs False answers_garbage)
                ''https://host/files/dc.zip'' ''/agent/work'' (example_world example_files))))
   \<and> (Stderr, ''Extracting '' @ quoted ''/agent/work/dc.zip'' @ '' failed'')
       \<in> set (console (snd (unzipFileTo (example_env no_inputs False answers_garbage) ''/agent/work/dc.zip'' ''/agent/work''
                (example_world (example_files @ [([''agent'', ''work'', ''dc.zip''], File ''<html>404</html>'' False)])))))"
proof -
  let ?E = "example_env no_inputs False answers_garbage"
  let ?W = "example_world example_files"
  let ?W2 = "example_world (example_files @ [([''agent'', ''work'', ''dc.zip''], File ''<html>404</html>'' False)])"
  let ?url = "''https://host/files/dc.zip''"
  have h1: "pathname ?E ?url = Inr ''/files/dc.zip''"
    by code_simp
  have h2: "path_resolve (cwd ?E) [Some (basename ''/files/dc.zip'')] = Inr ''/agent/work/dc.zip''"
    by code_simp
  have h3: "transport ?E ?url (length (requests ?W) + 0) = Inr ''<html>404</html>''"
    by (simp add: example_env_def answers_garbage_def)
  have h4: "writeFile (fs_path (cwd ?E) ''/agent/work/dc.zip'') ''<html>404</html>'' (files ?W)
          = Inr (example_files @ [([''agent'', ''work'', ''dc.zip''], File ''<html>404</html>'' False)])"
    by code_simp
  have dl: "fst (downloadPackage ?E ?url ?W) = Inr ''/agent/work/dc.zip''"
    using downloadPackage_saves[OF h1 h2 _ _ h3 h4] by auto
  have p: "fs_path (cwd ?E) ''/agent/work/dc.zip'' = [''agent'', ''work'', ''dc.zip'']"
    by code_simp
  have fails: "fst (bind (Zip_new ?E ''/agent/work/dc.zip'') (\<lambda>zipFile. extractAllTo ?E zipFile ''/agent/work'') ?W2)
      = Inl (Error ''Invalid or unsupported zip format'')"
    by (simp add: bind_def Zip_new_def p example_world_def stat_def example_files_def)
       (simp add: example_env_def example_unzip_def)
  note T = unzip_swallows_failure_and_removes_archive[where env = ?E and zipUrl = ?url and w = ?W
      and installZipPath = "''/agent/work/dc.zip''" and unzipLocation = "''/agent/work''"]
  note T2 = unzip_swallows_failure_and_removes_archive[where env = ?E and filePath = "''/agent/work/dc.zip''"
      and targetPath = "''/agent/work''" and w = ?W2 and e = "Error ''Invalid or unsupported zip format''"]
  from T dl have "fst (unzipFromUrl ?E ?url ''/agent/work'' ?W) = Inr ()"
    and "\<forall>q \<in> fst ` set (files (snd (unzipFromUrl ?E ?url ''/agent/work'' ?W))).
              \<not> prefix (fs_path (cwd ?E) ''/agent/work/dc.zip'') q"
    by blast+
  moreover from T2 fails have "(Stderr, ''Extracting '' @ quoted ''/agent/work/dc.zip'' @ '' failed'')
       \<in> set (console (snd (unzipFileTo ?E ''/agent/work/dc.zip'' ''/agent/work'' ?W2)))"
    by blast
  ultimately show ?thesis
    unfolding p by auto
qed

section \<open>The release description\<close>

lemma find_first:
  "list = before @ x # after \<Longrightarrow> \<forall>a \<in> set before. \<not> P a \<Longrightarrow> P x \<Longrightarrow> find P list = Some x"
  by (induction before arbitrary: list) auto

lemma getDependencyCheckDownloadUrl_trace:
  "trace (snd (getDependencyCheckDownloadUrl env version w)) = trace w @ [HttpGet (releaseUrl version)]"
  by (auto simp: getDependencyCheckDownloadUrl_def client_get_def lift_def bind_def throw_def ret_def logDebug_eq
      Let_def split: sum.splits option.splits prod.splits)

lemma releaseUrl_eq:
  "releaseUrl version =
     (if toLowerCase version = ''latest''
      then ''https://api.github.com/repos/jeremylong/DependencyCheck/releases/latest''
      else ''https://api.github.com/repos/jeremylong/DependencyCheck/releases/tags/v'' @ version)"
  by (simp add: releaseUrl_def DependencyCheckReleaseApi_def DependencyCheckVersionLatest_def)

text \<open>
  C4. For every version string \<open>getDependencyCheckDownloadUrl\<close> makes one request: to
  \<open>{releases}/latest\<close> when the lower-cased version is \<open>latest\<close>, to
  \<open>{releases}/tags/v{version}\<close> otherwise. When the request is answered and the parsed
  answer lists assets, it returns the \<open>browser_download_url\<close> of the first asset whose
  \<open>content_type\<close> is \<open>application/zip\<close>.
\<close>

theorem getDependencyCheckDownloadUrl_first_zip_asset:
  "trace (snd (getDependencyCheckDownloadUrl env version w))
     = trace w @ [HttpGet (if toLowerCase version = ''latest''
                           then ''https://api.github.com/repos/jeremylong/DependencyCheck/releases/latest''
                           else ''https://api.github.com/repos/jeremylong/DependencyCheck/releases/tags/v'' @ version)]
   \<and> (transport env (releaseUrl version) (length (requests w)) = Inr body
        \<and> JSON_parse env body = Inr info
        \<and> assets info = Some (before @ asset # after)
        \<and> (\<forall>a \<in> set before. map_of a ''content_type'' \<noteq> Some ''application/zip'')
        \<and> map_of asset ''content_type'' = Some ''application/zip''
      \<longrightarrow> fst (getDependencyCheckDownloadUrl env version w) = Inr (map_of asset ''browser_download_url''))"
proof (intro conjI impI)
  show "trace (snd (getDependencyCheckDownloadUrl env version w))
     = trace w @ [HttpGet (if toLowerCase version = ''latest''
                           then ''https://api.github.com/repos/jeremylong/DependencyCheck/releases/latest''
                           else ''https://api.github.com/repos/jeremylong/DependencyCheck/releases/tags/v'' @ version)]"
    unfolding getDependencyCheckDownloadUrl_trace releaseUrl_eq by simp
next
  assume h: "transport env (releaseUrl version) (length (requests w)) = Inr body
        \<and> JSON_parse env body = Inr info
        \<and> assets info = Some (before @ asset # after)
        \<and> (\<forall>a \<in> set before. map_of a ''content_type'' \<noteq> Some ''application/zip'')
        \<and> map_of asset ''content_type'' = Some ''application/zip''"
  then have "find (\<lambda>a. map_of a ''content_type'' = Some ''application/zip'') (before @ asset # after) = Some asset"
    by (intro find_first[where before = before and after = after]) auto
  with h show "fst (getDependencyCheckDownloadUrl env version w) = Inr (map_of asset ''browser_download_url'')"
    by (simp add: getDependencyCheckDownloadUrl_def bind_client_get Let_def ret_def)
qed

text \<open>The theorem at the example agent, whose release description lists a gzip asset
  before the zip asset, for the version \<open>Latest\<close>.\<close>

theorem getDependencyCheckDownloadUrl_first_zip_asset_witness:
  "fst (getDependencyCheckDownloadUrl (example_env no_inputs False answers_release) ''Latest'' (example_world example_files))
     = Inr (Some ''https://host/files/dc.zip'')
   \<and> trace (snd (getDependencyCheckDownloadUrl (example_env no_inputs False answers_release) ''Latest'' (example_world example_files)))
     = [HttpGet ''https://api.github.com/repos/jeremylong/DependencyCheck/releases/latest'']"
proof -
  let ?E = "example_env no_inputs False answers_release"
  let ?W = "example_world example_files"
  let ?gz = "[(''content_type'', ''application/gzip''), (''browser_download_url'', ''https://host/files/dc.tar.gz'')]"
  let ?zip = "[(''content_type'', ''application/zip''), (''browser_download_url'', ''https://host/files/dc.zip'')]"
  have low: "toLowerCase ''Latest'' = ''latest''"
    by code_simp
  have h: "transport ?E (releaseUrl ''Latest'') (length (requests ?W)) = Inr ''{release}''
        \<and> JSON_parse ?E ''{release}'' = Inr \<lparr>assets = Some [?gz, ?zip]\<rparr>
        \<and> assets \<lparr>assets = Some [?gz, ?zip]\<rparr> = Some ([?gz] @ ?zip # [])
        \<and> (\<forall>a \<in> set [?gz]. map_of a ''content_type'' \<noteq> Some ''application/zip'')
        \<and> map_of ?zip ''content_type'' = Some ''application/zip''"
    by (simp add: example_env_def answers_release_def example_parse_def)
  from getDependencyCheckDownloadUrl_first_zip_asset[of ?E "''Latest''" ?W "''{release}''" "\<lparr>assets = Some [?gz, ?zip]\<rparr>" "[?gz]" ?zip "[]"] h
  have "trace (snd (getDependencyCheckDownloadUrl ?E ''Latest'' ?W))
          = trace ?W @ [HttpGet (if toLowerCase ''Latest'' = ''latest''
                           then ''https://api.github.com/repos/jeremylong/DependencyCheck/releases/latest''
                           else ''https://api.github.com/repos/jeremylong/DependencyCheck/releases/tags/v'' @ ''Latest'')]"
    and "fst (getDependencyCheckDownloadUrl ?E ''Latest'' ?W) = Inr (map_of ?zip ''browser_download_url'')"
    by blast+
  then show ?thesis
    by (simp add: low example_world_def)
qed

section \<open>Cleaning a directory\<close>

lemma wildcard_literal: "CHR ''*'' \<notin> set p \<Longrightarrow> wildcard p s = (p = s)"
  by (induction p s rule: wildcard.induct) auto

lemma minimatch_Exact:
  "minimatch d (map Exact root @ ps) q = (\<exists>r. q = root @ r \<and> minimatch d ps r)"
proof (induction root arbitrary: q)
  case Nil
  then show ?case by simp
next
  case (Cons x root)
  show ?case
  proof (cases q)
    case Nil
    then show ?thesis by simp
  next
    case (Cons f fs)
    then show ?thesis using Cons.IH[of fs] by auto
  qed
qed

lemma minimatch_Globstar_only: "minimatch True [Globstar] r = (r \<noteq> [])"
  by (cases r) (simp_all add: list_all_iff)

lemma minimatch_data: "minimatch True [Glob ''data''] r = (r = [''data''])"
proof (cases r)
  case Nil
  then show ?thesis by simp
next
  case (Cons f fs)
  have "wildcard ''data'' f = (''data'' = f)"
    by (rule wildcard_literal) simp
  then show ?thesis using Cons by (cases fs) auto
qed

lemma minimatch_data_below:
  "minimatch True [Glob ''data'', Globstar] r = (\<exists>rest. r = ''data'' # rest \<and> rest \<noteq> [])"
proof (cases r)
  case Nil
  then show ?thesis by simp
next
  case (Cons f fs)
  have "wildcard ''data'' f = (''data'' = f)"
    by (rule wildcard_literal) simp
  then show ?thesis using Cons by (auto simp: minimatch_Globstar_only)
qed

lemma clean_patterns:
  "trim ''**'' = ''**''" "trim ''!data'' = ''!data''" "trim ''!data/**'' = ''!data/**''"
  "trim ''data'' = ''data''" "trim ''data/**'' = ''data/**''"
  "pattern_segments ''**'' = [Globstar]"
  "pattern_segments ''data'' = [Glob ''data'']"
  "pattern_segments ''data/**'' = [Glob ''data'', Globstar]"
  by code_simp+

lemma literalSegments_Exact: "literalSegments (map Exact root @ [Globstar]) = root"
  by (induction root) simp_all

lemma matches_default: "matches \<lparr>dot = True, matchBase = False\<rparr> segs = minimatch True segs"
  by (rule ext) (simp add: matches_def)

lemma findMatch_patterns_clean:
  "findMatch_patterns root defaultMatchOptions fs [''**'', ''!data'', ''!data/**''] [] =
     filter (\<lambda>q. \<not> minimatch True (map Exact root @ [Glob ''data'', Globstar]) q)
       (filter (\<lambda>q. \<not> minimatch True (map Exact root @ [Glob ''data'']) q)
         (remdups (filter (minimatch True (map Exact root @ [Globstar])) (find_paths root fs))))"
  by (simp add: Let_def clean_patterns rooted_def basenameOnly_def defaultMatchOptions_def matches_default
      isAbsolute_def literalSegments_Exact)

lemma below_data:
  "(\<exists>r. q = root @ r \<and> r \<noteq> []) \<and> \<not> (\<exists>r. q = root @ r \<and> r = [''data''])
     \<and> \<not> (\<exists>r. q = root @ r \<and> (\<exists>rest. r = ''data'' # rest \<and> rest \<noteq> []))
   \<longleftrightarrow> strict_prefix root q \<and> \<not> prefix (root @ [''data'']) q"
proof
  assume l: "(\<exists>r. q = root @ r \<and> r \<noteq> []) \<and> \<not> (\<exists>r. q = root @ r \<and> r = [''data''])
     \<and> \<not> (\<exists>r. q = root @ r \<and> (\<exists>rest. r = ''data'' # rest \<and> rest \<noteq> []))"
  then obtain r where r: "q = root @ r" "r \<noteq> []" by blast
  have "strict_prefix root q" using r by (simp add: strict_prefix_def)
  moreover have "\<not> prefix (root @ [''data'']) q"
  proof
    assume "prefix (root @ [''data'']) q"
    then obtain s where "q = (root @ [''data'']) @ s" by (auto simp: prefix_def)
    then have "q = root @ ''data'' # s" by simp
    with l show False by (cases s) auto
  qed
  ultimately show "strict_prefix root q \<and> \<not> prefix (root @ [''data'']) q" ..
next
  assume rhs: "strict_prefix root q \<and> \<not> prefix (root @ [''data'']) q"
  then obtain r where r: "q = root @ r" "r \<noteq> []"
    by (auto simp: strict_prefix_def prefix_def)
  have "\<not> (\<exists>r. q = root @ r \<and> r = [''data''])"
    using rhs by auto
  moreover have "\<not> (\<exists>r. q = root @ r \<and> (\<exists>rest. r = ''data'' # rest \<and> rest \<noteq> []))"
    using rhs by (auto simp: prefix_def)
  ultimately show "(\<exists>r. q = root @ r \<and> r \<noteq> []) \<and> \<not> (\<exists>r. q = root @ r \<and> r = [''data''])
     \<and> \<not> (\<exists>r. q = root @ r \<and> (\<exists>rest. r = ''data'' # rest \<and> rest \<noteq> []))"
    using r by blast
qed

lemma findMatch_clean_set:
  "set (findMatch root [''**'', ''!data'', ''!data/**''] defaultMatchOptions fs) =
     {q \<in> fst ` set fs. strict_prefix root q \<and> \<not> prefix (root @ [''data'']) q}"
proof -
  have "set (findMatch root [''**'', ''!data'', ''!data/**''] defaultMatchOptions fs) =
      {q \<in> fst ` set fs. prefix root q \<and> ((\<exists>r. q = root @ r \<and> r \<noteq> []) \<and> \<not> (\<exists>r. q = root @ r \<and> r = [''data''])
     \<and> \<not> (\<exists>r. q = root @ r \<and> (\<exists>rest. r = ''data'' # rest \<and> rest \<noteq> [])))}"
    unfolding findMatch_def findMatch_patterns_clean
    by (auto simp: minimatch_Exact minimatch_Globstar_only minimatch_data minimatch_data_below find_paths_def)
  also have "\<dots> = {q \<in> fst ` set fs. strict_prefix root q \<and> \<not> prefix (root @ [''data'']) q}"
    unfolding below_data by (auto simp: strict_prefix_def)
  finally show ?thesis .
qed

lemma forEach_rmRF:
  "forEach xs tl_rmRF w = (Inr (), w\<lparr>files := fold remove xs (files w), trace := trace w @ map RmRF xs\<rparr>)"
proof (induction xs arbitrary: w)
  case Nil
  then show ?case by (simp add: ret_def)
next
  case (Cons x xs)
  have "tl_rmRF x w = (Inr (), w\<lparr>files := remove x (files w), trace := trace w @ [RmRF x]\<rparr>)"
    by (simp add: tl_rmRF_def)
  then show ?case
    by (simp add: bind_def Cons.IH)
qed

lemma fold_remove:
  "fold remove xs fs = filter (\<lambda>(q, n). \<not> (\<exists>p \<in> set xs. prefix p q)) fs"
proof (induction xs arbitrary: fs)
  case Nil
  then show ?case by simp
next
  case (Cons x xs)
  have "fold remove (x # xs) fs = filter (\<lambda>(q, n). \<not> (\<exists>p \<in> set xs. prefix p q)) (remove x fs)"
    by (simp add: Cons.IH)
  also have "\<dots> = filter (\<lambda>(q, n). \<not> (\<exists>p \<in> set (x # xs). prefix p q)) fs"
    unfolding remove_def filter_filter by (rule filter_cong) auto
  finally show ?case .
qed

lemma cleanDirectory_eq:
  "cleanDirectory env dir patterns w =
     (Inr (), w\<lparr>files := fold remove (findMatch (fs_path (cwd env) dir) patterns defaultMatchOptions (files w)) (files w),
               trace := trace w @ map RmRF (findMatch (fs_path (cwd env) dir) patterns defaultMatchOptions (files w))\<rparr>)"
  by (simp add: cleanDirectory_def bind_def tl_findMatch_def forEach_rmRF)

lemma deleted_iff:
  assumes "q \<in> fst ` set fs"
  shows "(\<exists>p \<in> {q \<in> fst ` set fs. strict_prefix root q \<and> \<not> prefix (root @ [''data'']) q}. prefix p q)
     \<longleftrightarrow> strict_prefix root q \<and> \<not> prefix (root @ [''data'']) q"
proof
  assume "\<exists>p \<in> {q \<in> fst ` set fs. strict_prefix root q \<and> \<not> prefix (root @ [''data'']) q}. prefix p q"
  then obtain p where p: "strict_prefix root p" "\<not> prefix (root @ [''data'']) p" "prefix p q" by blast
  from p(1) obtain x r where pr: "p = root @ x # r"
    by (cases "drop (length root) p") (auto simp: strict_prefix_def prefix_def)
  from p(2) pr have x: "x \<noteq> ''data''" by (auto simp: prefix_def)
  from p(3) pr obtain s where q: "q = root @ x # r @ s" by (auto simp: prefix_def)
  have "strict_prefix root q" unfolding q by (simp add: strict_prefix_def)
  moreover have "\<not> prefix (root @ [''data'']) q" unfolding q using x by (auto simp: prefix_def)
  ultimately show "strict_prefix root q \<and> \<not> prefix (root @ [''data'']) q" ..
next
  assume "strict_prefix root q \<and> \<not> prefix (root @ [''data'']) q"
  with assms show "\<exists>p \<in> {q \<in> fst ` set fs. strict_prefix root q \<and> \<not> prefix (root @ [''data'']) q}. prefix p q"
    by blast
qed

text \<open>
  C6. For every directory, \<open>cleanDirectory(dir, ['**', '!data', '!data/**'])\<close> completes
  and keeps exactly the entries of the file system that are not below the directory or
  are its \<open>data\<close> subdirectory or below that, each unchanged: everything else below the
  directory is deleted.
\<close>

theorem cleanDirectory_keeps_data:
  "fst (cleanDirectory env dir [''**'', ''!data'', ''!data/**''] w) = Inr ()
   \<and> files (snd (cleanDirectory env dir [''**'', ''!data'', ''!data/**''] w))
     = filter (\<lambda>(q, n). \<not> strict_prefix (fs_path (cwd env) dir) q
                          \<or> prefix (fs_path (cwd env) dir @ [''data'']) q) (files w)"
proof -
  have "filter (\<lambda>(q, n). \<not> (\<exists>p \<in> {q \<in> fst ` set (files w). strict_prefix (fs_path (cwd env) dir) q
              \<and> \<not> prefix (fs_path (cwd env) dir @ [''data'']) q}. prefix p q)) (files w)
     = filter (\<lambda>(q, n). \<not> strict_prefix (fs_path (cwd env) dir) q
                          \<or> prefix (fs_path (cwd env) dir @ [''data'']) q) (files w)"
  proof (rule filter_cong[OF refl])
    fix e assume e: "e \<in> set (files w)"
    obtain q n where qn: "e = (q, n)" by (cases e)
    with e have "q \<in> fst ` set (files w)" by force
    from deleted_iff[OF this, of "fs_path (cwd env) dir"] qn
    show "(case e of (q, n) \<Rightarrow> \<not> (\<exists>p \<in> {q \<in> fst ` set (files w). strict_prefix (fs_path (cwd env) dir) q
              \<and> \<not> prefix (fs_path (cwd env) dir @ [''data'']) q}. prefix p q))
       = (case e of (q, n) \<Rightarrow> \<not> strict_prefix (fs_path (cwd env) dir) q
                          \<or> prefix (fs_path (cwd env) dir @ [''data'']) q)"
      by auto
  qed
  then show ?thesis
    by (simp add: cleanDirectory_eq fold_remove findMatch_clean_set)
qed


text \<open>The theorem at an agent with an installation from an earlier run.\<close>

theorem cleanDirectory_keeps_data_witness:
  "files (snd (cleanDirectory (example_env no_inputs False always_refused) ''/agent/work/dependency-check''
                 [''**'', ''!data'', ''!data/**''] (example_world installed_files)))
     = example_files @
       [([''agent'', ''work'', ''dependency-check''], Directory),
        ([''agent'', ''work'', ''dependency-check'', ''data''], Directory),
        ([''agent'', ''work'', ''dependency-check'', ''data'', ''odc.mv.db''], File ''vulnerabilities'' False),
        ([''agent'', ''work'', ''dependency-check'', ''data'', ''cache'', ''x.lock''], File [] False)]"
proof -
  let ?E = "example_env no_inputs False always_refused"
  have d: "fs_path (cwd ?E) ''/agent/work/dependency-check'' = [''agent'', ''work'', ''dependency-check'']"
    by code_simp
  have "files (snd (cleanDirectory ?E ''/agent/work/dependency-check'' [''**'', ''!data'', ''!data/**'']
                 (example_world installed_files)))
     = filter (\<lambda>(q, n). \<not> strict_prefix (fs_path (cwd ?E) ''/agent/work/dependency-check'') q
                          \<or> prefix (fs_path (cwd ?E) ''/agent/work/dependency-check'' @ [''data'']) q)
         (files (example_world installed_files))"
    using cleanDirectory_keeps_data[of ?E "''/agent/work/dependency-check''" "example_world installed_files"]
    by (rule conjunct2)
  also have "\<dots> = example_files @
       [([''agent'', ''work'', ''dependency-check''], Directory),
        ([''agent'', ''work'', ''dependency-check'', ''data''], Directory),
        ([''agent'', ''work'', ''dependency-check'', ''data'', ''odc.mv.db''], File ''vulnerabilities'' False),
        ([''agent'', ''work'', ''dependency-check'', ''data'', ''cache'', ''x.lock''], File [] False)]"
    unfolding d by (simp add: example_world_def installed_files_def example_files_def)
  finally show ?thesis .
qed

section \<open>The update step\<close>

lemma bind_total: "fst (m w) = Inr x \<Longrightarrow> bind m f w = f x (snd (m w))"
  by (cases "m w") (simp add: bind_def)

lemma bind_assoc [simp]: "bind (bind m f) g = bind m (\<lambda>x. bind (f x) g)"
  by (rule ext) (simp add: bind_def split: prod.splits sum.splits)

lemma bind_fails: "fst (m w) = Inl e \<Longrightarrow> bind m f w = (Inl e, snd (m w))"
  by (cases "m w") (simp add: bind_def)

lemma bind_tl_setVariable [simp]:
  "bind (tl_setVariable name val) f w =
     f () (w\<lparr>variables := (variables w)(name \<mapsto> val), trace := trace w @ [SetVariable name val]\<rparr>)"
  by (simp add: bind_def tl_setVariable_def)

lemma bind_tl_checkPath:
  "bind (tl_checkPath env p name) f w =
     (if p = [] \<or> stat (files w) (fs_path (cwd env) p) = None
      then (Inl (Error (''Not found '' @ name @ '': '' @ p)), w) else f () w)"
  by (simp add: bind_def tl_checkPath_def)

lemma path_resolve_nonempty: "path_resolve dir args = Inr s \<Longrightarrow> s \<noteq> []"
  by (auto simp: path_resolve_def render_def split: sum.splits)

lemma executions_simps [simp]:
  "executions (w\<lparr>console := c\<rparr>) = executions w"
  "executions (w\<lparr>files := fs\<rparr>) = executions w"
  "executions (w\<lparr>taskResult := r\<rparr>) = executions w"
  "executions (w\<lparr>variables := v\<rparr>) = executions w"
  "executions (w\<lparr>trace := t\<rparr>) = filter isExec t"
  by (simp_all add: executions_def)

lemma forEach_quiet:
  assumes "\<And>x w. fst (f x w) = Inr ()"
    and "\<And>x w. Q (snd (f x w)) = Q w"
  shows "fst (forEach xs f w) = Inr () \<and> Q (snd (forEach xs f w)) = Q w"
proof (induction xs arbitrary: w)
  case Nil
  then show ?case by (simp add: ret_def)
next
  case (Cons x xs)
  show ?case
    using Cons.IH[of "snd (f x w)"] assms(2)[of x w]
    by (simp add: bind_total[OF assms(1)])
qed

lemma removeLockFile_each_quiet:
  "fst (removeLockFile_each env x w) = Inr ()"
  "executions (snd (removeLockFile_each env x w)) = executions w"
  "taskResult (snd (removeLockFile_each env x w)) = taskResult w"
  by (simp_all add: removeLockFile_each_def Let_def try_catch_def bind_def tl_exist_def console_log_def
      tl_rmRF_def executions_def)

lemma removeLockFile_quiet:
  "fst (removeLockFile env dir w) = Inr ()
   \<and> executions (snd (removeLockFile env dir w)) = executions w
   \<and> taskResult (snd (removeLockFile env dir w)) = taskResult w"
proof -
  have q: "fst (forEach xs (removeLockFile_each env) v) = Inr ()
      \<and> (executions (snd (forEach xs (removeLockFile_each env) v)), taskResult (snd (forEach xs (removeLockFile_each env) v)))
          = (executions v, taskResult v)" for xs v
    by (rule forEach_quiet[where Q = "\<lambda>w. (executions w, taskResult w)"])
       (simp_all add: removeLockFile_each_quiet)
  show ?thesis
    unfolding removeLockFile_def
    using q by (simp add: tl_findMatch_def bind_def console_log_def)
qed

lemma bind_eq: "m w = (Inr x, w') \<Longrightarrow> bind m f w = f x w'"
  by (simp add: bind_def)

lemma getDependencyCheckScriptPath_found:
  assumes "path_resolve (cwd env) [Some dir, Some ''bin'',
              Some (if windows env then ''dependency-check.bat'' else ''dependency-check.sh'')] = Inr script"
    and "stat (files w) (fs_path (cwd env) script) \<noteq> None"
  shows "getDependencyCheckScriptPath env dir w =
     (Inr script, w\<lparr>console := console w @ [(Stdout, ''Dependency Check script set to '' @ script)]\<rparr>)"
  using assms path_resolve_nonempty[OF assms(1)]
  by (simp add: getDependencyCheckScriptPath_def tl_resolve_def bind_def lift_def console_log_def
      tl_checkPath_def ret_def Let_def)

lemma updateDependencyCheckData_start:
  assumes "path_resolve (cwd env) [Some dir, Some ''bin'',
              Some (if windows env then ''dependency-check.bat'' else ''dependency-check.sh'')] = Inr script"
    and "stat (files w) (fs_path (cwd env) script) \<noteq> None"
  shows "\<exists>c. updateDependencyCheckData env dir hasLocalInstallation dcOptions w =
     bind (tool_exec env script (Arg cliArguments_Version) False False) (\<lambda>_.
     bind (if \<not> hasLocalInstallation then removeLockFile env dir else ret ()) (\<lambda>_.
     bind (runDependencyCheck env script (getExecutableArguments dcOptions)) (\<lambda>exitCode.
     ret ())))
     (w\<lparr>variables := (variables w)(''JAVA_OPTS'' \<mapsto> ''-Xss8192k''),
        trace := trace w @ [SetVariable ''JAVA_OPTS'' ''-Xss8192k''], console := c\<rparr>)"
  unfolding updateDependencyCheckData_def
    bind_eq[where m = "getDependencyCheckScriptPath env dir", OF getDependencyCheckScriptPath_found[OF assms]]
  by (auto simp add: Let_def intro!: exI)


lemma getExecutableArguments_eq:
  "getExecutableArguments dcOptions =
     (if isVerboseEnabled dcOptions then ''--updateonly --log '' @ logFilePath dcOptions else ''--updateonly'')"
  by (simp add: getExecutableArguments_def cliArguments_UpdateOnly_def cliArguments_LogFile_def)

lemma lock_step_quiet:
  "fst ((if \<not> hasLocalInstallation then removeLockFile env dir else ret ()) w) = Inr ()
   \<and> executions (snd ((if \<not> hasLocalInstallation then removeLockFile env dir else ret ()) w)) = executions w
   \<and> taskResult (snd ((if \<not> hasLocalInstallation then removeLockFile env dir else ret ()) w)) = taskResult w"
  using removeLockFile_quiet[of env dir w] by (simp add: ret_def)

subsection \<open>The location of the script\<close>

lemma normalizeString_append:
  "normalizeString acc (xs @ ys) = normalizeString (normalizeString acc xs) ys"
  by (induction xs arbitrary: acc) simp_all

lemma split_nonempty: "split c s \<noteq> []"
  by (induction s) (auto split: list.splits)

lemma split_append: "split c (a @ c # b) = split c a @ split c b"
proof (induction a)
  case Nil
  then show ?case by simp
next
  case (Cons x a)
  then show ?case
    using split_nonempty[of c a] by (cases "split c a") auto
qed

lemma split_no_separator: "x \<in> set (split c s) \<Longrightarrow> c \<notin> set x"
  by (induction s arbitrary: x) (auto split: if_splits list.splits)

lemma split_none: "c \<notin> set x \<Longrightarrow> split c x = [x]"
  by (induction x) auto

lemma clean_butlast: "clean p \<Longrightarrow> clean (butlast p)"
  by (auto simp: clean_def dest: in_set_butlastD)

lemma clean_snoc: "clean acc \<Longrightarrow> s \<noteq> [] \<Longrightarrow> s \<noteq> ''.'' \<Longrightarrow> s \<noteq> ''..'' \<Longrightarrow> CHR ''/'' \<notin> set s \<Longrightarrow> clean (acc @ [s])"
  unfolding clean_def by simp

lemma normalizeString_clean:
  "clean acc \<Longrightarrow> \<forall>x \<in> set xs. CHR ''/'' \<notin> set x \<Longrightarrow> clean (normalizeString acc xs)"
proof (induction xs arbitrary: acc)
  case Nil
  then show ?case by simp
next
  case (Cons x xs)
  have xs: "\<forall>x \<in> set xs. CHR ''/'' \<notin> set x" and x: "CHR ''/'' \<notin> set x"
    using Cons.prems(2) by simp_all
  show ?case
  proof (cases "x = [] \<or> x = ''.''")
    case True
    then show ?thesis using Cons.IH[OF Cons.prems(1) xs] by auto
  next
    case False
    show ?thesis
    proof (cases "x = ''..''")
      case True
      then show ?thesis using Cons.IH[OF clean_butlast[OF Cons.prems(1)] xs] by simp
    next
      case n: False
      have "clean (acc @ [x])" using False n x Cons.prems(1) by (intro clean_snoc) simp_all
      from Cons.IH[OF this xs] False n show ?thesis by simp
    qed
  qed
qed

lemma normalizeString_of_clean: "clean p \<Longrightarrow> normalizeString acc p = acc @ p"
proof (induction p arbitrary: acc)
  case Nil
  then show ?case by simp
next
  case (Cons x p)
  then have "clean p" and "x \<noteq> []" and "x \<noteq> ''.''" and "x \<noteq> ''..''"
    unfolding clean_def by simp_all
  with Cons.IH[of "acc @ [x]"] show ?case by simp
qed

lemma split_join: "\<forall>s \<in> set p. c \<notin> set s \<Longrightarrow> p \<noteq> [] \<Longrightarrow> split c (join [c] p) = p"
proof (induction p)
  case Nil
  then show ?case by simp
next
  case (Cons x p)
  show ?case
  proof (cases p)
    case Nil
    with Cons.prems show ?thesis by (simp add: split_none)
  next
    case (Cons y ys)
    with Cons.prems Cons.IH have "split c (join [c] (y # ys)) = y # ys" by simp
    with Cons Cons.prems show ?thesis by (simp add: split_append split_none)
  qed
qed

lemma fs_path_render:
  assumes "clean p" and "p \<noteq> []"
  shows "fs_path dir (render p) = p"
proof -
  have a: "isAbsolute (render p)" by (simp add: render_def isAbsolute_def)
  have "split (CHR ''/'') (render p) = [] # p"
    using assms split_join[of p "CHR ''/''"] by (simp add: render_def clean_def)
  then have "normalizeString [] (split (CHR ''/'') (render p)) = p"
    using normalizeString_of_clean[OF assms(1), of "[]"] by simp
  with a show ?thesis by (simp add: fs_path_def)
qed

lemma script_location:
  assumes r: "path_resolve dir0 [Some dir, Some ''bin'', Some name] = Inr script"
    and n: "clean [name]"
  shows "fs_path dir0 script = fs_path dir0 dir @ [''bin'', name]"
proof -
  have name: "name \<noteq> []" "name \<noteq> ''.''" "name \<noteq> ''..''" "CHR ''/'' \<notin> set name"
    using n by (simp_all add: clean_def)
  then have na: "\<not> isAbsolute name"
    by (cases name) (auto simp: isAbsolute_def)
  define B where "B = (if dir = [] then dir0 else if isAbsolute dir then dir else dir0 @ ''/'' @ dir)"
  define N where "N = normalizeString [] (split (CHR ''/'') B)"
  have res: "resolve_from_right dir0 [] (rev [Some dir, Some ''bin'', Some name])
      = Inr (B @ CHR ''/'' # (''bin'' @ CHR ''/'' # (name @ CHR ''/'' # [])))"
    using name(1) na by (simp add: B_def isAbsolute_def)
  have sp: "split (CHR ''/'') (B @ CHR ''/'' # (''bin'' @ CHR ''/'' # (name @ CHR ''/'' # [])))
      = split (CHR ''/'') B @ [''bin'', name, []]"
    unfolding split_append using name(4) by (simp add: split_none)
  have norm: "normalizeString [] (split (CHR ''/'') B @ [''bin'', name, []]) = N @ [''bin'', name]"
    unfolding normalizeString_append N_def using name by simp
  have script: "script = render (N @ [''bin'', name])"
    using r res sp norm by (simp add: path_resolve_def)
  have "clean []" by (simp add: clean_def)
  then have "clean N"
    unfolding N_def by (rule normalizeString_clean) (auto dest: split_no_separator)
  then have c: "clean (N @ [''bin'', name])"
    using name by (simp add: clean_def)
  have root: "fs_path dir0 dir = N"
  proof (cases "dir = []")
    case True
    have "split (CHR ''/'') (dir0 @ CHR ''/'' # []) = split (CHR ''/'') dir0 @ [[]]"
      unfolding split_append by simp
    then show ?thesis
      using True by (simp add: fs_path_def N_def B_def isAbsolute_def normalizeString_append)
  next
    case False
    then show ?thesis by (simp add: fs_path_def N_def B_def)
  qed
  show ?thesis
    unfolding script root using fs_path_render[OF c] by simp
qed


subsection \<open>The script and the lock files\<close>

lemma path_resolve_absolute: "path_resolve d pathSegments = Inr s \<Longrightarrow> isAbsolute s"
  by (auto simp: path_resolve_def render_def isAbsolute_def split: sum.splits)

lemma map_of_filter_key:
  "(\<And>n. P (p, n)) \<Longrightarrow> map_of (filter P fs) p = map_of fs p"
  by (induction fs) auto

lemma stat_remove: "\<not> prefix q p \<Longrightarrow> stat (remove q fs) p = stat fs p"
  unfolding stat_def remove_def
  by (simp add: map_of_filter_key)

lemma lock_pattern:
  "findMatch_patterns root \<lparr>dot = False, matchBase = True\<rparr> fs [''*.lock''] []
     = remdups (filter (matches \<lparr>dot = False, matchBase = True\<rparr> [Glob ''*.lock'']) (find_paths root fs))"
proof -
  have t: "trim ''*.lock'' = ''*.lock''"
    by code_simp
  show ?thesis
    by (simp add: t Let_def rooted_def basenameOnly_def isAbsolute_def pattern_segments_def)
qed

lemma findMatch_lock:
  assumes "q \<in> set (findMatch root [''*.lock''] \<lparr>dot = False, matchBase = True\<rparr> fs)"
  shows "prefix root q \<and> q \<noteq> [] \<and> segment_matches False (Glob ''*.lock'') (last q)"
  using assms unfolding findMatch_def lock_pattern
  by (auto simp: matches_def find_paths_def)

lemma lock_names:
  "\<not> segment_matches False (Glob ''*.lock'') ''bin''"
  "\<not> segment_matches False (Glob ''*.lock'') ''dependency-check.sh''"
  "\<not> segment_matches False (Glob ''*.lock'') ''dependency-check.bat''"
  by code_simp+

lemma script_kept:
  assumes q: "prefix root q" "q \<noteq> []" "segment_matches False (Glob ''*.lock'') (last q)"
    and r: "root = [] \<or> \<not> segment_matches False (Glob ''*.lock'') (last root)"
    and n: "name = ''dependency-check.sh'' \<or> name = ''dependency-check.bat''"
  shows "\<not> prefix q (root @ [''bin'', name])"
proof
  assume p: "prefix q (root @ [''bin'', name])"
  from q(1) obtain s where s: "q = root @ s" by (auto simp: prefix_def)
  with p have "prefix s [''bin'', name]" by simp
  then have "s = [] \<or> s = [''bin''] \<or> s = [''bin'', name]"
    by (cases s) (auto simp: prefix_Cons)
  then show False
    using q(2,3) r n s lock_names by auto
qed

lemma removeLockFile_each_files:
  "files (snd (removeLockFile_each env x w)) = files w \<or> files (snd (removeLockFile_each env x w)) = remove x (files w)"
  by (simp add: removeLockFile_each_def Let_def try_catch_def bind_def tl_exist_def console_log_def tl_rmRF_def)

lemma forEach_lock_keeps:
  "\<forall>q \<in> set xs. \<not> prefix q p \<Longrightarrow>
   stat (files (snd (forEach xs (removeLockFile_each env) v))) p = stat (files v) p"
proof (induction xs arbitrary: v)
  case Nil
  then show ?case by (simp add: ret_def)
next
  case (Cons x xs)
  have k: "stat (files (snd (removeLockFile_each env x v))) p = stat (files v) p"
    using removeLockFile_each_files[of env x v] Cons.prems by (auto simp: stat_remove)
  have "forEach (x # xs) (removeLockFile_each env) v
      = forEach xs (removeLockFile_each env) (snd (removeLockFile_each env x v))"
    by (simp add: bind_total[OF removeLockFile_each_quiet(1)])
  with Cons.IH[of "snd (removeLockFile_each env x v)"] Cons.prems k show ?case by simp
qed

lemma removeLockFile_keeps:
  assumes "\<forall>q \<in> set (findMatch (fs_path (cwd env) dir) [''*.lock''] \<lparr>dot = False, matchBase = True\<rparr> (files w)).
             \<not> prefix q p"
  shows "stat (files (snd (removeLockFile env dir w))) p = stat (files w) p"
  unfolding removeLockFile_def
  using forEach_lock_keeps[OF assms, of env]
  by (simp add: tl_findMatch_def bind_def console_log_def)


subsection \<open>Finding and running the tool\<close>

lemma isExecutableFile_stat:
  "stat fs' (fs_path (cwd env) s) = stat fs (fs_path (cwd env) s) \<Longrightarrow>
   isExecutableFile env fs' s = isExecutableFile env fs s"
  by (simp add: isExecutableFile_def)

lemma isExecutableFile_exists: "isExecutableFile env fs s \<Longrightarrow> stat fs (fs_path (cwd env) s) \<noteq> None"
  by (auto simp: isExecutableFile_def isFile_def split: option.splits)

lemma which_found: "isAbsolute s \<Longrightarrow> isExecutableFile env fs s \<Longrightarrow> which env fs s = Some s"
  by (simp add: which_def tryGetExecutablePath_def)

lemma tool_exec_not_found:
  "tool \<noteq> [] \<Longrightarrow> which env (files w) tool = None \<Longrightarrow>
   tool_exec env tool args failOnStdErr ignoreReturnCode w = (Inl (Error (whichNotFound env tool)), w)"
  by (simp add: tool_exec_def)

lemma tool_exec_found:
  "tool \<noteq> [] \<Longrightarrow> which env (files w) tool = Some toolPath \<Longrightarrow>
   tool_exec env tool args failOnStdErr ignoreReturnCode w =
     (fst (tool_exec env tool args failOnStdErr ignoreReturnCode w), w\<lparr>trace := trace w @ [Exec toolPath args]\<rparr>)"
  by (simp add: tool_exec_def)

lemma tool_exec_default:
  "tool \<noteq> [] \<Longrightarrow> which env (files w) tool = Some toolPath \<Longrightarrow>
   fst (tool_exec env tool args False False w) =
     (case spawn env toolPath args of
        SpawnFailed msg \<Rightarrow>
          Inl (Error (''There was an error when attempting to execute the process '' @ quoted toolPath
                      @ ''. This may indicate the process failed to start. Error: '' @ msg))
      | Exited exitCode stderr \<Rightarrow>
          if exitCode \<noteq> 0
          then Inl (Error (''The process '' @ quoted toolPath @ '' failed with exit code '' @ show_int exitCode))
          else Inr 0)"
  by (simp add: tool_exec_def split: exit.splits)

lemma runDependencyCheck_eq:
  "script \<noteq> [] \<Longrightarrow> which env (files w) script = Some toolPath \<Longrightarrow>
   spawn env toolPath (Line args) = Exited exitCode stderr \<Longrightarrow>
   runDependencyCheck env script args w =
     (Inr exitCode,
      w\<lparr>trace := trace w @ [Exec toolPath (Line args)],
        console := console w @ [(Stdout, ''Dependency Check completed with exit code '' @ show_int exitCode @ ''.'')]\<rparr>)"
  by (simp add: runDependencyCheck_def bind_def tool_exec_def console_log_def ret_def)

lemma lock_step_keeps:
  assumes r: "path_resolve (cwd env) [Some dir, Some ''bin'',
              Some (if windows env then ''dependency-check.bat'' else ''dependency-check.sh'')] = Inr script"
    and d: "hasLocalInstallation \<or> fs_path (cwd env) dir = []
            \<or> \<not> segment_matches False (Glob ''*.lock'') (last (fs_path (cwd env) dir))"
  shows "stat (files (snd ((if \<not> hasLocalInstallation then removeLockFile env dir else ret ()) w)))
           (fs_path (cwd env) script)
         = stat (files w) (fs_path (cwd env) script)"
proof (cases hasLocalInstallation)
  case True
  then show ?thesis by (simp add: ret_def)
next
  case False
  let ?name = "if windows env then ''dependency-check.bat'' else ''dependency-check.sh''"
  have n: "?name = ''dependency-check.sh'' \<or> ?name = ''dependency-check.bat''" by simp
  have "clean [?name]" by (simp add: clean_def)
  from script_location[OF r this]
  have loc: "fs_path (cwd env) script = fs_path (cwd env) dir @ [''bin'', ?name]" .
  have "\<forall>q \<in> set (findMatch (fs_path (cwd env) dir) [''*.lock''] \<lparr>dot = False, matchBase = True\<rparr> (files w)).
          \<not> prefix q (fs_path (cwd env) script)"
  proof
    fix q assume "q \<in> set (findMatch (fs_path (cwd env) dir) [''*.lock''] \<lparr>dot = False, matchBase = True\<rparr> (files w))"
    from findMatch_lock[OF this]
    have q: "prefix (fs_path (cwd env) dir) q" "q \<noteq> []" "segment_matches False (Glob ''*.lock'') (last q)"
      by simp_all
    from d False have "fs_path (cwd env) dir = []
        \<or> \<not> segment_matches False (Glob ''*.lock'') (last (fs_path (cwd env) dir))" by simp
    from script_kept[OF q this n] show "\<not> prefix q (fs_path (cwd env) script)"
      unfolding loc .
  qed
  from removeLockFile_keeps[OF this] False show ?thesis by simp
qed









section \<open>What a run leaves alone\<close>

lemma preserves_ret: "preserves Q (ret x)"
  by (simp add: preserves_def ret_def)

lemma preserves_throw: "preserves Q (throw e)"
  by (simp add: preserves_def throw_def)

lemma preserves_lift: "preserves Q (lift r)"
  by (simp add: preserves_def lift_def)

lemma preserves_bind:
  "preserves Q m \<Longrightarrow> (\<And>x. preserves Q (f x)) \<Longrightarrow> preserves Q (bind m f)"
  by (auto simp: preserves_def bind_def split: prod.splits sum.splits) (metis snd_conv)+

lemma preserves_try_catch:
  "preserves Q m \<Longrightarrow> (\<And>e. preserves Q (h e)) \<Longrightarrow> preserves Q (try_catch m h)"
  by (auto simp: preserves_def try_catch_def split: prod.splits sum.splits) (metis snd_conv)+

lemma preserves_if:
  "(c \<Longrightarrow> preserves Q a) \<Longrightarrow> (\<not> c \<Longrightarrow> preserves Q b) \<Longrightarrow> preserves Q (if c then a else b)"
  by simp

lemma preserves_option:
  "preserves Q a \<Longrightarrow> (\<And>x. preserves Q (f x)) \<Longrightarrow> preserves Q (case v of None \<Rightarrow> a | Some x \<Rightarrow> f x)"
  by (cases v) simp_all

lemma preserves_prod:
  "(\<And>x y. preserves Q (f x y)) \<Longrightarrow> preserves Q (case v of (x, y) \<Rightarrow> f x y)"
  by (cases v) simp

lemma preserves_forEach:
  "(\<And>x. preserves Q (f x)) \<Longrightarrow> preserves Q (forEach xs f)"
  by (induction xs) (simp_all add: preserves_ret preserves_bind)

lemmas preserves_rules =
  preserves_ret preserves_throw preserves_lift preserves_bind preserves_try_catch preserves_if
  preserves_option preserves_prod preserves_forEach

lemma taskResult_library:
  "preserves taskResult (console_log s)"
  "preserves taskResult (console_error s)"
  "preserves taskResult (tl_getVariable name)"
  "preserves taskResult (tl_setVariable name val)"
  "preserves taskResult (tl_resolve env pathSegments)"
  "preserves taskResult (tl_exist env p)"
  "preserves taskResult (tl_mkdirP env p)"
  "preserves taskResult (tl_checkPath env s name)"
  "preserves taskResult (tl_rmRF q)"
  "preserves taskResult (tl_findMatch env root patterns opts)"
  "preserves taskResult (client_get env url)"
  "preserves taskResult (pipe_to_file env s body)"
  "preserves taskResult (Zip_new env s)"
  "preserves taskResult (extractAllTo env entries s)"
  "preserves taskResult (tool_exec env s args b1 b2)"
  by (simp_all add: preserves_def console_log_def console_error_def tl_getVariable_def tl_setVariable_def
      tl_resolve_def lift_def tl_exist_def tl_mkdirP_def tl_checkPath_def tl_rmRF_def tl_findMatch_def
      client_get_def pipe_to_file_def Zip_new_def extractAllTo_def tool_exec_def
      split: sum.splits option.splits node.splits prod.splits)

lemma taskResult_logDebug: "preserves taskResult (logDebug msg)"
  unfolding logDebug_def isSystemDebugEnabled_def
  by (intro preserves_rules taskResult_library)

lemma taskResult_download_loop: "preserves taskResult (download_loop env url 5 None)"
proof -
  have "taskResult (snd (download_loop env url 5 None w)) = taskResult w" for w
    using download_loop_bound[of 5 env url None w] by auto
  then show ?thesis by (simp add: preserves_def)
qed

lemma taskResult_task:
  "preserves taskResult (getDependencyCheckDownloadUrl env version)"
  "preserves taskResult (cleanDirectory env dir patterns)"
  "preserves taskResult (downloadPackage env url)"
  "preserves taskResult (unzipFileTo env filePath targetPath)"
  "preserves taskResult (getDependencyCheckScriptPath env dir)"
  "preserves taskResult (removeLockFile env dir)"
  "preserves taskResult (runDependencyCheck env scriptPath line)"
  "preserves taskResult (DependencyCheckOptionsBuilder_new env)"
  unfolding getDependencyCheckDownloadUrl_def cleanDirectory_def downloadPackage_def unzipFileTo_def
    getDependencyCheckScriptPath_def removeLockFile_def removeLockFile_each_def runDependencyCheck_def
    DependencyCheckOptionsBuilder_new_def Let_def
  by (intro preserves_rules taskResult_library taskResult_logDebug taskResult_download_loop)+

lemma taskResult_unzipFromUrl: "preserves taskResult (unzipFromUrl env zipUrl unzipLocation)"
  unfolding unzipFromUrl_def
  by (intro preserves_rules taskResult_library taskResult_logDebug taskResult_task)

lemma taskResult_update: "preserves taskResult (updateDependencyCheckData env dir hasLocalInstallation dcOptions)"
  unfolding updateDependencyCheckData_def Let_def
  by (intro preserves_rules taskResult_library taskResult_task)

lemma taskResult_run_try: "preserves taskResult (run_try env)"
  unfolding run_try_def run_options_def run_install_def installZipUrl_of_def Let_def
  by (intro preserves_rules taskResult_library taskResult_task taskResult_unzipFromUrl taskResult_update)

lemma taskResult_run_data_task_try: "preserves taskResult (run_data_task_try env)"
  unfolding run_data_task_try_def run_data_task_install_def installZipUrl_of_def Let_def
  by (intro preserves_rules taskResult_library taskResult_task taskResult_unzipFromUrl)

lemma unzipFileTo_failure_console:
  "fst (bind (Zip_new env filePath) (\<lambda>zipFile. extractAllTo env zipFile targetPath) w) = Inl e \<Longrightarrow>
   console (snd (unzipFileTo env filePath targetPath w))
     = console w @ [(Stdout, ''Extracting '' @ quoted filePath @ '' to '' @ quoted targetPath),
                    (Stderr, ''Extracting '' @ quoted filePath @ '' failed'')]"
  by (auto simp: unzipFileTo_def try_catch_def bind_def console_log_def console_error_def Zip_new_def
      extractAllTo_def split: option.splits node.splits sum.splits prod.splits)





section \<open>The requests of a run\<close>

lemma only_requests_preserves: "preserves requests m \<Longrightarrow> only_requests url m"
  unfolding preserves_def only_requests_def
  by (metis append_Nil2 replicate_0)

lemma only_requests_bind:
  assumes "only_requests url m" and "\<And>x. only_requests url (f x)"
  shows "only_requests url (bind m f)"
  unfolding only_requests_def
proof
  fix w
  obtain r w1 where m: "m w = (r, w1)" by (cases "m w")
  from assms(1) obtain k where k: "requests w1 = requests w @ replicate k (HttpGet url)"
    unfolding only_requests_def using m by (metis snd_conv)
  show "\<exists>k. requests (snd (bind m f w)) = requests w @ replicate k (HttpGet url)"
  proof (cases r)
    case (Inl e)
    then show ?thesis using m k by (auto simp: bind_def)
  next
    case (Inr x)
    from assms(2)[of x] obtain j where "requests (snd (f x w1)) = requests w1 @ replicate j (HttpGet url)"
      unfolding only_requests_def by blast
    then have "requests (snd (bind m f w)) = requests w @ replicate (k + j) (HttpGet url)"
      using m Inr k by (simp add: bind_def replicate_add)
    then show ?thesis by blast
  qed
qed

lemma only_requests_if:
  "(c \<Longrightarrow> only_requests url a) \<Longrightarrow> (\<not> c \<Longrightarrow> only_requests url b) \<Longrightarrow> only_requests url (if c then a else b)"
  by simp

lemma only_requests_option:
  "only_requests url a \<Longrightarrow> (\<And>x. only_requests url (f x)) \<Longrightarrow>
   only_requests url (case v of None \<Rightarrow> a | Some x \<Rightarrow> f x)"
  by (cases v) simp_all

lemma only_requests_prod:
  "(\<And>x y. only_requests url (f x y)) \<Longrightarrow> only_requests url (case v of (x, y) \<Rightarrow> f x y)"
  by (cases v) simp

lemmas only_requests_rules = only_requests_bind only_requests_if only_requests_option only_requests_prod

lemma requests_library:
  "preserves requests (console_log s)"
  "preserves requests (console_error s)"
  "preserves requests (tl_getVariable name)"
  "preserves requests (tl_setVariable name val)"
  "preserves requests (tl_resolve env pathSegments)"
  "preserves requests (tl_exist env p)"
  "preserves requests (tl_mkdirP env p)"
  "preserves requests (tl_checkPath env s name)"
  "preserves requests (tl_rmRF q)"
  "preserves requests (tl_findMatch env root patterns opts)"
  "preserves requests (pipe_to_file env s body)"
  "preserves requests (Zip_new env s)"
  "preserves requests (extractAllTo env entries s)"
  "preserves requests (tool_exec env s args b1 b2)"
  by (simp_all add: preserves_def console_log_def console_error_def tl_getVariable_def tl_setVariable_def
      tl_resolve_def lift_def tl_exist_def tl_mkdirP_def tl_checkPath_def tl_rmRF_def tl_findMatch_def
      pipe_to_file_def Zip_new_def extractAllTo_def tool_exec_def requests_def
      split: sum.splits option.splits node.splits prod.splits)

lemma requests_logDebug: "preserves requests (logDebug msg)"
  unfolding logDebug_def isSystemDebugEnabled_def
  by (intro preserves_rules requests_library)

lemma requests_task:
  "preserves requests (cleanDirectory env dir patterns)"
  "preserves requests (unzipFileTo env filePath targetPath)"
  "preserves requests (getDependencyCheckScriptPath env dir)"
  "preserves requests (removeLockFile env dir)"
  "preserves requests (runDependencyCheck env scriptPath line)"
  "preserves requests (DependencyCheckOptionsBuilder_new env)"
  unfolding cleanDirectory_def unzipFileTo_def
    getDependencyCheckScriptPath_def removeLockFile_def removeLockFile_each_def runDependencyCheck_def
    DependencyCheckOptionsBuilder_new_def Let_def
  by (intro preserves_rules requests_library requests_logDebug)+

lemma requests_update: "preserves requests (updateDependencyCheckData env dir hasLocalInstallation dcOptions)"
  unfolding updateDependencyCheckData_def Let_def
  by (intro preserves_rules requests_library requests_task)

lemma requests_run_options:
  "preserves requests (run_options env verbose logDir exportDir sourcesDir artifactDir)"
  unfolding run_options_def
  by (intro preserves_rules requests_library requests_task)

lemma only_requests_download_loop: "only_requests url (download_loop env url 5 None)"
  unfolding only_requests_def
proof
  fix w
  obtain m c res where "download_loop env url 5 None w =
      (Inr res, w\<lparr>trace := trace w @ replicate m (HttpGet url), console := c\<rparr>)"
    using download_loop_bound[of 5 env url None w] by auto
  then have "requests (snd (download_loop env url 5 None w)) = requests w @ replicate m (HttpGet url)"
    by (simp add: requests_def)
  then show "\<exists>k. requests (snd (download_loop env url 5 None w)) = requests w @ replicate k (HttpGet url)"
    by blast
qed

lemmas requests_quiet =
  requests_library requests_logDebug requests_task requests_update requests_run_options
  preserves_ret preserves_throw preserves_lift

lemma only_requests_downloadPackage: "only_requests url (downloadPackage env url)"
  unfolding downloadPackage_def Let_def
  by (intro only_requests_rules only_requests_download_loop only_requests_preserves requests_quiet)

lemma only_requests_unzipFromUrl: "only_requests url (unzipFromUrl env url unzipLocation)"
  unfolding unzipFromUrl_def
  by (intro only_requests_rules only_requests_downloadPackage only_requests_preserves requests_quiet)

lemma installZipUrl_of_custom:
  "truthy customRepoUrl \<Longrightarrow>
   installZipUrl_of env customRepoUrl version w =
     (Inr customRepoUrl,
      w\<lparr>console := console w @ [(Stdout, ''Downloading Dependency Check installer from '' @ toString customRepoUrl @ ''...'')]\<rparr>)"
  by (simp add: installZipUrl_of_def ret_def)

lemma only_requests_run_install:
  "truthy customRepoUrl \<Longrightarrow>
   only_requests (toString customRepoUrl) (run_install env customRepoUrl version options)"
  unfolding run_install_def installZipUrl_of_def if_P[of "truthy customRepoUrl"] bind_assoc bind_ret
  by (intro only_requests_rules only_requests_unzipFromUrl
      only_requests_preserves requests_quiet)

lemma only_requests_run_data_task_install:
  "truthy customRepoUrl \<Longrightarrow>
   only_requests (toString customRepoUrl) (run_data_task_install env customRepoUrl version)"
  unfolding run_data_task_install_def installZipUrl_of_def if_P[of "truthy customRepoUrl"] bind_assoc bind_ret
  by (intro only_requests_rules only_requests_unzipFromUrl
      only_requests_preserves requests_quiet)

lemma only_requests_run_try:
  "truthy (opt_trim (getInput env ''customRepoUrl'')) \<Longrightarrow>
   only_requests (toString (opt_trim (getInput env ''customRepoUrl''))) (run_try env)"
  unfolding run_try_def Let_def
  by (intro only_requests_rules only_requests_run_install only_requests_preserves requests_quiet)

lemma only_requests_run_data_task_try:
  "truthy (opt_trim (getInput env ''customRepoUrl'')) \<Longrightarrow>
   only_requests (toString (opt_trim (getInput env ''customRepoUrl''))) (run_data_task_try env)"
  unfolding run_data_task_try_def Let_def
  by (intro only_requests_rules only_requests_run_data_task_install only_requests_preserves requests_quiet)

lemma requests_caught:
  "requests (snd (bind (console_log start) (\<lambda>_. bind (try_catch body run_catch) (\<lambda>_. console_log ending)) w))
     = requests (snd (body (w\<lparr>console := console w @ [(Stdout, start)]\<rparr>)))"
  by (simp add: try_catch_def run_catch_def tl_setResult_Failed_def bind_def console_log_def
      split: prod.splits sum.splits)

section \<open>The install branch\<close>

lemma world_but_console:
  "files (a::world) = files (b::world) \<Longrightarrow> variables a = variables b \<Longrightarrow> taskResult a = taskResult b \<Longrightarrow>
   a = b\<lparr>trace := trace a, console := console a\<rparr>"
  by (cases a, cases b) simp

lemma still_library:
  "preserves (\<lambda>w. (files w, variables w, taskResult w)) (console_log s)"
  "preserves (\<lambda>w. (files w, variables w, taskResult w)) (console_error s)"
  "preserves (\<lambda>w. (files w, variables w, taskResult w)) (tl_getVariable name)"
  "preserves (\<lambda>w. (files w, variables w, taskResult w)) (tl_resolve env pathSegments)"
  "preserves (\<lambda>w. (files w, variables w, taskResult w)) (tl_exist env p)"
  "preserves (\<lambda>w. (files w, variables w, taskResult w)) (tl_checkPath env s name)"
  "preserves (\<lambda>w. (files w, variables w, taskResult w)) (tl_findMatch env root patterns opts)"
  "preserves (\<lambda>w. (files w, variables w, taskResult w)) (client_get env url)"
  by (simp_all add: preserves_def console_log_def console_error_def tl_getVariable_def
      tl_resolve_def lift_def tl_exist_def tl_checkPath_def tl_findMatch_def client_get_def)

lemma still_logDebug: "preserves (\<lambda>w. (files w, variables w, taskResult w)) (logDebug msg)"
  unfolding logDebug_def isSystemDebugEnabled_def
  by (intro preserves_rules still_library)

lemma still_getDependencyCheckDownloadUrl:
  "preserves (\<lambda>w. (files w, variables w, taskResult w)) (getDependencyCheckDownloadUrl env version)"
  unfolding getDependencyCheckDownloadUrl_def Let_def
  by (intro preserves_rules still_library still_logDebug)

lemma getDependencyCheckDownloadUrl_effect:
  "\<exists>c. snd (getDependencyCheckDownloadUrl env version w) =
     w\<lparr>trace := trace w @ [HttpGet (releaseUrl version)], console := c\<rparr>"
proof -
  let ?w = "snd (getDependencyCheckDownloadUrl env version w)"
  have "files ?w = files w" "variables ?w = variables w" "taskResult ?w = taskResult w"
    using still_getDependencyCheckDownloadUrl[of env version] by (simp_all add: preserves_def)
  from world_but_console[OF this]
  have "?w = w\<lparr>trace := trace w @ [HttpGet (releaseUrl version)], console := console ?w\<rparr>"
    by (simp add: getDependencyCheckDownloadUrl_trace)
  then show ?thesis by blast
qed

lemma installZipUrl_of_effect:
  assumes "fst (installZipUrl_of env customRepoUrl version w) = Inr r"
  shows "\<exists>c. installZipUrl_of env customRepoUrl version w =
     (Inr r, w\<lparr>trace := trace w @ (if truthy customRepoUrl then [] else [HttpGet (releaseUrl version)]),
               console := c\<rparr>)"
proof (cases "truthy customRepoUrl")
  case True
  with assms show ?thesis
    by (auto simp: installZipUrl_of_custom)
next
  case False
  let ?w1 = "w\<lparr>console := console w @ [(Stdout, ''Downloading Dependency Check '' @ version @ '' installer from GitHub...'')]\<rparr>"
  have eq: "installZipUrl_of env customRepoUrl version w = getDependencyCheckDownloadUrl env version ?w1"
    using False by (simp add: installZipUrl_of_def)
  obtain c where "snd (getDependencyCheckDownloadUrl env version ?w1) =
      ?w1\<lparr>trace := trace ?w1 @ [HttpGet (releaseUrl version)], console := c\<rparr>"
    using getDependencyCheckDownloadUrl_effect by blast
  then have "installZipUrl_of env customRepoUrl version w =
      (Inr r, w\<lparr>trace := trace w @ [HttpGet (releaseUrl version)], console := c\<rparr>)"
    using assms unfolding eq by (cases "getDependencyCheckDownloadUrl env version ?w1") simp
  then show ?thesis using False by auto
qed

lemma stat_root: "stat fs [] = Some Directory"
  by (simp add: stat_def)

lemma map_of_replaced:
  "p \<in> fst ` set fs \<Longrightarrow> map_of (map (\<lambda>(q, m). if q = p then (q, n) else (q, m)) fs) p = Some n"
proof (induction fs)
  case Nil
  then show ?case by simp
next
  case (Cons a fs)
  obtain q m where a: "a = (q, m)" by (cases a)
  show ?case
  proof (cases "q = p")
    case True
    then show ?thesis by (simp add: a)
  next
    case False
    with Cons.prems a have "p \<in> fst ` set fs" by auto
    from Cons.IH[OF this] False show ?thesis by (simp add: a)
  qed
qed

lemma stat_put: "p \<noteq> [] \<Longrightarrow> stat (put p n fs) p = Some n"
proof (cases "p \<in> fst ` set fs")
  case True
  then show "p \<noteq> [] \<Longrightarrow> ?thesis" by (simp add: stat_def put_def map_of_replaced)
next
  case False
  then have "map_of fs p = None" by (simp add: map_of_eq_None_iff)
  with False show "p \<noteq> [] \<Longrightarrow> ?thesis" by (simp add: stat_def put_def map_add_def)
qed

lemma writeFile_stat:
  "writeFile p body fs = Inr fs' \<Longrightarrow> stat fs' p = Some (File body (isUnixExecutable (stat fs p)))"
  by (cases "p = []") (auto simp: writeFile_def stat_put stat_root split: if_splits)

lemma unzipFileTo_extracts:
  assumes "stat (files w) (fs_path (cwd env) filePath) = Some (File content mode)"
    and "zip_entries env content = Inr entries"
    and "extract_entries (fs_path (cwd env) targetPath) entries (files w) = (None, fs)"
  shows "\<exists>c. unzipFileTo env filePath targetPath w =
     (Inr (), w\<lparr>files := fs, trace := trace w @ [ExtractAllTo (fs_path (cwd env) targetPath)], console := c\<rparr>)"
  using assms
  by (auto simp: unzipFileTo_def try_catch_def bind_def console_log_def Zip_new_def extractAllTo_def)

lemma tl_mkdirP_creates:
  assumes "s \<noteq> []" and "mkdirs (fs_path (cwd env) s) (files w) = Inr fs"
  shows "tl_mkdirP env (Some s) w = (Inr (), w\<lparr>files := fs, trace := trace w @ [MkdirP (fs_path (cwd env) s)]\<rparr>)"
  using assms by (simp add: tl_mkdirP_def)


lemma fold_remove_clean:
  "fold remove (findMatch root [''**'', ''!data'', ''!data/**''] defaultMatchOptions fs) fs
     = filter (\<lambda>(q, n). \<not> strict_prefix root q \<or> prefix (root @ [''data'']) q) fs"
proof -
  have "filter (\<lambda>(q, n). \<not> (\<exists>p \<in> {q \<in> fst ` set fs. strict_prefix root q
              \<and> \<not> prefix (root @ [''data'']) q}. prefix p q)) fs
     = filter (\<lambda>(q, n). \<not> strict_prefix root q \<or> prefix (root @ [''data'']) q) fs"
  proof (rule filter_cong[OF refl])
    fix e assume e: "e \<in> set fs"
    obtain q n where qn: "e = (q, n)" by (cases e)
    with e have "q \<in> fst ` set fs" by force
    from deleted_iff[OF this, of root] qn
    show "(case e of (q, n) \<Rightarrow> \<not> (\<exists>p \<in> {q \<in> fst ` set fs. strict_prefix root q
              \<and> \<not> prefix (root @ [''data'']) q}. prefix p q))
       = (case e of (q, n) \<Rightarrow> \<not> strict_prefix root q \<or> prefix (root @ [''data'']) q)"
      by auto
  qed
  then show ?thesis
    by (simp add: fold_remove findMatch_clean_set)
qed

lemma requests_append [simp]: "filter isHttpGet (map RmRF xs) = []"
  by (induction xs) simp_all

lemma unzipFromUrl_extracts:
  assumes p: "pathname env url = Inr urlPath"
    and z: "path_resolve (cwd env) [Some (basename urlPath)] = Inr zipPath"
    and k: "k \<le> 5"
    and f: "\<forall>i<k. isl (transport env url (length (requests w) + i))"
    and s: "transport env url (length (requests w) + k) = Inr body"
    and wr: "writeFile (fs_path (cwd env) zipPath) body (files w) = Inr fs3"
    and e: "zip_entries env body = Inr entries"
    and x: "extract_entries (fs_path (cwd env) unzipLocation) entries fs3 = (None, fs4)"
  shows "\<exists>c. unzipFromUrl env url unzipLocation w =
     (Inr (),
      w\<lparr>files := remove (fs_path (cwd env) zipPath) fs4,
        trace := trace w @ replicate (Suc k) (HttpGet url)
                   @ [WriteStream (fs_path (cwd env) zipPath), ExtractAllTo (fs_path (cwd env) unzipLocation),
                      RmRF (fs_path (cwd env) zipPath)],
        console := c\<rparr>)"
proof -
  let ?zp = "fs_path (cwd env) zipPath"
  obtain c4 where dl: "downloadPackage env url w =
     (Inr zipPath, w\<lparr>files := fs3, trace := trace w @ replicate (Suc k) (HttpGet url) @ [WriteStream ?zp], console := c4\<rparr>)"
    using downloadPackage_saves[OF p z k f s wr] by blast
  let ?w4 = "w\<lparr>files := fs3, trace := trace w @ replicate (Suc k) (HttpGet url) @ [WriteStream ?zp], console := c4\<rparr>"
  have st: "stat (files ?w4) ?zp = Some (File body (isUnixExecutable (stat (files w) ?zp)))"
    using writeFile_stat[OF wr] by simp
  have x4: "extract_entries (fs_path (cwd env) unzipLocation) entries (files ?w4) = (None, fs4)"
    using x by simp
  obtain c5 where uf: "unzipFileTo env zipPath unzipLocation ?w4 =
     (Inr (), ?w4\<lparr>files := fs4, trace := trace ?w4 @ [ExtractAllTo (fs_path (cwd env) unzipLocation)], console := c5\<rparr>)"
    using unzipFileTo_extracts[OF st e x4] by blast
  show ?thesis
    unfolding unzipFromUrl_def
    apply (subst bind_eq[where m = "downloadPackage env url", OF dl])
    apply (subst bind_eq[where m = "unzipFileTo env zipPath unzipLocation", OF uf])
    apply (auto simp: bind_def tl_rmRF_def logDebug_eq)
    done
qed

lemma run_install_steps:
  assumes r: "path_resolve (cwd env) [Some ''.'', Some ''dependency-check''] = Inr installPath"
    and m: "mkdirs (fs_path (cwd env) installPath) (files w) = Inr fs1"
    and u: "fst (installZipUrl_of env customRepoUrl version
                  (w\<lparr>files := fs1, trace := trace w @ [MkdirP (fs_path (cwd env) installPath)]\<rparr>)) = Inr (Some url)"
    and p: "pathname env url = Inr urlPath"
    and z: "path_resolve (cwd env) [Some (basename urlPath)] = Inr zipPath"
    and k: "k \<le> 5"
    and f: "\<forall>i<k. isl (transport env url (length (requests w) + (if truthy customRepoUrl then 0 else 1) + i))"
    and s: "transport env url (length (requests w) + (if truthy customRepoUrl then 0 else 1) + k) = Inr body"
    and wr: "writeFile (fs_path (cwd env) zipPath) body
               (filter (\<lambda>(q, n). \<not> strict_prefix (fs_path (cwd env) installPath) q
                                   \<or> prefix (fs_path (cwd env) installPath @ [''data'']) q) fs1) = Inr fs3"
    and h: "path_resolve (cwd env) [Some ''./''] = Inr unzipLocation"
    and e: "zip_entries env body = Inr entries"
    and x: "extract_entries (fs_path (cwd env) unzipLocation) entries fs3 = (None, fs4)"
  shows "\<exists>c. run_install env customRepoUrl version options w =
     updateDependencyCheckData env installPath False options
       (w\<lparr>files := remove (fs_path (cwd env) zipPath) fs4,
          trace := trace w @ [MkdirP (fs_path (cwd env) installPath)]
                     @ (if truthy customRepoUrl then [] else [HttpGet (releaseUrl version)])
                     @ map RmRF (findMatch (fs_path (cwd env) installPath) [''**'', ''!data'', ''!data/**'']
                                   defaultMatchOptions fs1)
                     @ replicate (Suc k) (HttpGet url)
                     @ [WriteStream (fs_path (cwd env) zipPath), ExtractAllTo (fs_path (cwd env) unzipLocation),
                        RmRF (fs_path (cwd env) zipPath)],
          console := c\<rparr>)"
proof -
  let ?d = "fs_path (cwd env) installPath"
  let ?gets = "if truthy customRepoUrl then [] else [HttpGet (releaseUrl version)]"
  let ?L = "findMatch ?d [''**'', ''!data'', ''!data/**''] defaultMatchOptions fs1"
  let ?w1 = "w\<lparr>files := fs1, trace := trace w @ [MkdirP ?d]\<rparr>"
  have mk: "tl_mkdirP env (Some installPath) w = (Inr (), ?w1)"
    using tl_mkdirP_creates[OF path_resolve_nonempty[OF r] m] .
  obtain c2 where iz: "installZipUrl_of env customRepoUrl version ?w1 =
      (Inr (Some url), ?w1\<lparr>trace := trace ?w1 @ ?gets, console := c2\<rparr>)"
    using installZipUrl_of_effect[OF u] by blast
  let ?w2 = "?w1\<lparr>trace := trace ?w1 @ ?gets, console := c2\<rparr>"
  let ?w3 = "?w2\<lparr>files := fold remove ?L fs1, trace := trace ?w2 @ map RmRF ?L\<rparr>"
  have cl: "cleanDirectory env installPath [''**'', ''!data'', ''!data/**''] ?w2 = (Inr (), ?w3)"
    by (simp add: cleanDirectory_eq)
  have n: "length (requests ?w3) = length (requests w) + (if truthy customRepoUrl then 0 else 1)"
    by (simp add: requests_def)
  have f3: "\<forall>i<k. isl (transport env url (length (requests ?w3) + i))"
    using f unfolding n .
  have s3: "transport env url (length (requests ?w3) + k) = Inr body"
    using s unfolding n .
  have wr3: "writeFile (fs_path (cwd env) zipPath) body (files ?w3) = Inr fs3"
    using wr by (simp add: fold_remove_clean)
  obtain c where uz: "unzipFromUrl env url unzipLocation ?w3 =
     (Inr (),
      ?w3\<lparr>files := remove (fs_path (cwd env) zipPath) fs4,
        trace := trace ?w3 @ replicate (Suc k) (HttpGet url)
                   @ [WriteStream (fs_path (cwd env) zipPath), ExtractAllTo (fs_path (cwd env) unzipLocation),
                      RmRF (fs_path (cwd env) zipPath)],
        console := c\<rparr>)"
    using unzipFromUrl_extracts[OF p z k f3 s3 wr3 e x] by blast
  have "run_install env customRepoUrl version options w =
     updateDependencyCheckData env installPath False options
       (?w3\<lparr>files := remove (fs_path (cwd env) zipPath) fs4,
        trace := trace ?w3 @ replicate (Suc k) (HttpGet url)
                   @ [WriteStream (fs_path (cwd env) zipPath), ExtractAllTo (fs_path (cwd env) unzipLocation),
                      RmRF (fs_path (cwd env) zipPath)],
        console := c\<rparr>)"
    unfolding run_install_def tl_resolve_def DependencyCheckFolderName_def r h bind_lift_Inr
    apply (subst bind_eq[where m = "tl_mkdirP env (Some installPath)", OF mk])
    apply (subst bind_eq[where m = "installZipUrl_of env customRepoUrl version", OF iz])
    apply (subst bind_eq[where m = "cleanDirectory env installPath [''**'', ''!data'', ''!data/**'']", OF cl])
    apply (simp only: toString.simps)
    apply (subst bind_eq[where m = "unzipFromUrl env url unzipLocation", OF uz])
    apply (rule refl)
    done
  then show ?thesis
    by (auto intro!: exI)
qed


lemma run_try_dispatch:
  assumes "opt_trim (getPathInput env ''localInstallPath'') = variables w ''Build.SourcesDirectory''"
    and "isVersionFormatValid (requestedVersion env)"
    and "fst (run_options env (getBoolInput env ''enableVerbose'') (opt_trim (getPathInput env ''logDirectory''))
                (opt_trim (getPathInput env ''exportDirectory'')) (variables w ''Build.SourcesDirectory'')
                (variables w ''Build.ArtifactStagingDirectory'') w) = Inr options"
  shows "run_try env w =
     run_install env (opt_trim (getInput env ''customRepoUrl'')) (requestedVersion env) options
       (snd (run_options env (getBoolInput env ''enableVerbose'') (opt_trim (getPathInput env ''logDirectory''))
                (opt_trim (getPathInput env ''exportDirectory'')) (variables w ''Build.SourcesDirectory'')
                (variables w ''Build.ArtifactStagingDirectory'') w))"
  unfolding run_try_def Let_def bind_tl_getVariable
  apply (subst bind_total[where m = "run_options env (getBoolInput env ''enableVerbose'') (opt_trim (getPathInput env ''logDirectory''))
                (opt_trim (getPathInput env ''exportDirectory'')) (variables w ''Build.SourcesDirectory'')
                (variables w ''Build.ArtifactStagingDirectory'')", OF assms(3)])
  using assms(1,2) apply (simp add: requestedVersion_def)
  done

lemma run_data_task_install_requires_directory:
  assumes "path_resolve (cwd env) [Some ''./dependency-check''] = Inr installPath"
    and "stat (files w) (fs_path (cwd env) installPath) = None"
  shows "run_data_task_install env customRepoUrl version w =
     (Inl (Error (''Not found Dependency Check installer: '' @ installPath)), w)"
  unfolding run_data_task_install_def tl_resolve_def assms(1) bind_lift_Inr
  using assms(2) by (simp add: bind_tl_checkPath)

lemma map_of_directories: "p \<in> set ps \<Longrightarrow> map_of (map (\<lambda>q. (q, Directory)) ps) p = Some Directory"
  by (induction ps) auto

lemma stat_append: "stat (fs @ ys) p = (case stat fs p of None \<Rightarrow> map_of ys p | Some v \<Rightarrow> Some v)"
  by (simp add: stat_def map_add_def split: option.splits)

lemma mkdirs_creates:
  assumes "\<not> list_ex (\<lambda>q. isFile (stat fs q)) (prefixes p)"
  shows "\<exists>fs'. mkdirs p fs = Inr fs' \<and> stat fs' p = Some Directory"
proof -
  let ?new = "map (\<lambda>q. (q, Directory)) (filter (\<lambda>q. stat fs q = None) (prefixes p))"
  have mk: "mkdirs p fs = Inr (fs @ ?new)"
    using assms by (simp add: mkdirs_def)
  have "stat (fs @ ?new) p = Some Directory"
  proof (cases "stat fs p")
    case None
    then have "p \<in> set (filter (\<lambda>q. stat fs q = None) (prefixes p))" by simp
    from map_of_directories[OF this] None show ?thesis
      by (simp add: stat_append)
  next
    case (Some v)
    have "\<not> isFile (stat fs p)" using assms by (auto simp: list_ex_iff)
    with Some have "v = Directory" by (cases v) (simp_all add: isFile_def)
    with Some show ?thesis
      by (simp add: stat_append)
  qed
  with mk show ?thesis by blast
qed


text \<open>
  C8, as amended. In the task file with the update step, whenever the local install path
  input equals the sources directory, the version format is valid and the statements that
  prepare the directories and the options complete, \<open>run\<close> goes on with the install
  branch. The branch creates \<open>./dependency-check\<close> with \<open>mkdirP\<close>, which succeeds whether or
  not the directory exists (unless a file is in the way) and leaves it existing. Then,
  when the URL of the archive is resolved and the download, the write and the extraction
  succeed, the effects of the branch are, in this order: the creation of the directory,
  the request for the release description (when no custom URL is given), the removal of
  everything below the directory but \<open>data\<close> and what is below it, the requests for the
  archive, its write into the working directory, its extraction into the working
  directory and its removal; the update step follows. In
  \<open>dependency-check-data-task.ts\<close> the branch starts with \<open>checkPath\<close> and throws when the
  directory does not exist.
\<close>

theorem run_install_creates_directory:
  "(opt_trim (getPathInput env ''localInstallPath'') = variables w ''Build.SourcesDirectory''
      \<and> isVersionFormatValid (requestedVersion env)
      \<and> fst (run_options env (getBoolInput env ''enableVerbose'') (opt_trim (getPathInput env ''logDirectory''))
                (opt_trim (getPathInput env ''exportDirectory'')) (variables w ''Build.SourcesDirectory'')
                (variables w ''Build.ArtifactStagingDirectory'') w) = Inr options
    \<longrightarrow> run_try env w =
          run_install env (opt_trim (getInput env ''customRepoUrl'')) (requestedVersion env) options
            (snd (run_options env (getBoolInput env ''enableVerbose'') (opt_trim (getPathInput env ''logDirectory''))
                (opt_trim (getPathInput env ''exportDirectory'')) (variables w ''Build.SourcesDirectory'')
                (variables w ''Build.ArtifactStagingDirectory'') w)))
   \<and> (\<not> list_ex (\<lambda>q. isFile (stat (files v) q)) (prefixes (fs_path (cwd env) installPath))
    \<longrightarrow> (\<exists>fs. mkdirs (fs_path (cwd env) installPath) (files v) = Inr fs
              \<and> stat fs (fs_path (cwd env) installPath) = Some Directory))
   \<and> (path_resolve (cwd env) [Some ''.'', Some ''dependency-check''] = Inr installPath
      \<and> mkdirs (fs_path (cwd env) installPath) (files v) = Inr fs1
      \<and> fst (installZipUrl_of env customRepoUrl version
                (v\<lparr>files := fs1, trace := trace v @ [MkdirP (fs_path (cwd env) installPath)]\<rparr>)) = Inr (Some url)
      \<and> pathname env url = Inr urlPath
      \<and> path_resolve (cwd env) [Some (basename urlPath)] = Inr zipPath
      \<and> k \<le> 5
      \<and> (\<forall>i<k. isl (transport env url (length (requests v) + (if truthy customRepoUrl then 0 else 1) + i)))
      \<and> transport env url (length (requests v) + (if truthy customRepoUrl then 0 else 1) + k) = Inr body
      \<and> writeFile (fs_path (cwd env) zipPath) body
            (filter (\<lambda>(q, n). \<not> strict_prefix (fs_path (cwd env) installPath) q
                                \<or> prefix (fs_path (cwd env) installPath @ [''data'']) q) fs1) = Inr fs3
      \<and> path_resolve (cwd env) [Some ''./''] = Inr unzipLocation
      \<and> zip_entries env body = Inr entries
      \<and> extract_entries (fs_path (cwd env) unzipLocation) entries fs3 = (None, fs4)
    \<longrightarrow> (\<exists>c. run_install env customRepoUrl version dcOptions v =
            updateDependencyCheckData env installPath False dcOptions
              (v\<lparr>files := remove (fs_path (cwd env) zipPath) fs4,
                 trace := trace v @ [MkdirP (fs_path (cwd env) installPath)]
                            @ (if truthy customRepoUrl then [] else [HttpGet (releaseUrl version)])
                            @ map RmRF (findMatch (fs_path (cwd env) installPath) [''**'', ''!data'', ''!data/**'']
                                          defaultMatchOptions fs1)
                            @ replicate (Suc k) (HttpGet url)
                            @ [WriteStream (fs_path (cwd env) zipPath),
                               ExtractAllTo (fs_path (cwd env) unzipLocation),
                               RmRF (fs_path (cwd env) zipPath)],
                 console := c\<rparr>)))
   \<and> (path_resolve (cwd env) [Some ''./dependency-check''] = Inr installPath
      \<and> stat (files v) (fs_path (cwd env) installPath) = None
    \<longrightarrow> run_data_task_install env customRepoUrl version v =
          (Inl (Error (''Not found Dependency Check installer: '' @ installPath)), v))"
proof (intro conjI impI)
  assume "opt_trim (getPathInput env ''localInstallPath'') = variables w ''Build.SourcesDirectory''
      \<and> isVersionFormatValid (requestedVersion env)
      \<and> fst (run_options env (getBoolInput env ''enableVerbose'') (opt_trim (getPathInput env ''logDirectory''))
                (opt_trim (getPathInput env ''exportDirectory'')) (variables w ''Build.SourcesDirectory'')
                (variables w ''Build.ArtifactStagingDirectory'') w) = Inr options"
  then show "run_try env w =
          run_install env (opt_trim (getInput env ''customRepoUrl'')) (requestedVersion env) options
            (snd (run_options env (getBoolInput env ''enableVerbose'') (opt_trim (getPathInput env ''logDirectory''))
                (opt_trim (getPathInput env ''exportDirectory'')) (variables w ''Build.SourcesDirectory'')
                (variables w ''Build.ArtifactStagingDirectory'') w))"
    by (intro run_try_dispatch) simp_all
next
  assume "\<not> list_ex (\<lambda>q. isFile (stat (files v) q)) (prefixes (fs_path (cwd env) installPath))"
  then show "\<exists>fs. mkdirs (fs_path (cwd env) installPath) (files v) = Inr fs
              \<and> stat fs (fs_path (cwd env) installPath) = Some Directory"
    by (rule mkdirs_creates)
next
  assume h: "path_resolve (cwd env) [Some ''.'', Some ''dependency-check''] = Inr installPath
      \<and> mkdirs (fs_path (cwd env) installPath) (files v) = Inr fs1
      \<and> fst (installZipUrl_of env customRepoUrl version
                (v\<lparr>files := fs1, trace := trace v @ [MkdirP (fs_path (cwd env) installPath)]\<rparr>)) = Inr (Some url)
      \<and> pathname env url = Inr urlPath
      \<and> path_resolve (cwd env) [Some (basename urlPath)] = Inr zipPath
      \<and> k \<le> 5
      \<and> (\<forall>i<k. isl (transport env url (length (requests v) + (if truthy customRepoUrl then 0 else 1) + i)))
      \<and> transport env url (length (requests v) + (if truthy customRepoUrl then 0 else 1) + k) = Inr body
      \<and> writeFile (fs_path (cwd env) zipPath) body
            (filter (\<lambda>(q, n). \<not> strict_prefix (fs_path (cwd env) installPath) q
                                \<or> prefix (fs_path (cwd env) installPath @ [''data'']) q) fs1) = Inr fs3
      \<and> path_resolve (cwd env) [Some ''./''] = Inr unzipLocation
      \<and> zip_entries env body = Inr entries
      \<and> extract_entries (fs_path (cwd env) unzipLocation) entries fs3 = (None, fs4)"
  show "\<exists>c. run_install env customRepoUrl version dcOptions v =
            updateDependencyCheckData env installPath False dcOptions
              (v\<lparr>files := remove (fs_path (cwd env) zipPath) fs4,
                 trace := trace v @ [MkdirP (fs_path (cwd env) installPath)]
                            @ (if truthy customRepoUrl then [] else [HttpGet (releaseUrl version)])
                            @ map RmRF (findMatch (fs_path (cwd env) installPath) [''**'', ''!data'', ''!data/**'']
                                          defaultMatchOptions fs1)
                            @ replicate (Suc k) (HttpGet url)
                            @ [WriteStream (fs_path (cwd env) zipPath),
                               ExtractAllTo (fs_path (cwd env) unzipLocation),
                               RmRF (fs_path (cwd env) zipPath)],
                 console := c\<rparr>)"
    by (rule run_install_steps) (use h in blast)+
next
  assume "path_resolve (cwd env) [Some ''./dependency-check''] = Inr installPath
      \<and> stat (files v) (fs_path (cwd env) installPath) = None"
  then show "run_data_task_install env customRepoUrl version v =
          (Inl (Error (''Not found Dependency Check installer: '' @ installPath)), v)"
    by (intro run_data_task_install_requires_directory) simp_all
qed


text \<open>The theorem at the example agent, where \<open>/agent/work/dependency-check\<close> does not
  exist, no custom URL is given and the version is \<open>latest\<close>.\<close>

theorem run_install_creates_directory_witness:
  "stat (files (example_world example_files)) [''agent'', ''work'', ''dependency-check''] = None
   \<and> run_try (example_env no_inputs True example_server) (example_world example_files)
       = run_install (example_env no_inputs True example_server) None ''latest'' verbose_options
           (snd (run_options (example_env no_inputs True example_server) True (Some ''/agent/src'')
                   (Some ''/agent/src'') (Some ''/agent/src'') (Some ''/agent/out'') (example_world example_files)))
   \<and> (\<exists>c. run_install (example_env no_inputs True example_server) None ''latest'' verbose_options
              (example_world example_files)
           = updateDependencyCheckData (example_env no_inputs True example_server) ''/agent/work/dependency-check''
               False verbose_options
               ((example_world example_files)
                  \<lparr>files := unpacked_files,
                   trace := [MkdirP [''agent'', ''work'', ''dependency-check''],
                             HttpGet ''https://api.github.com/repos/jeremylong/DependencyCheck/releases/latest'',
                             HttpGet ''https://host/files/dc.zip'',
                             WriteStream [''agent'', ''work'', ''dc.zip''],
                             ExtractAllTo [''agent'', ''work''],
                             RmRF [''agent'', ''work'', ''dc.zip'']],
                   console := c\<rparr>))
   \<and> run_data_task_install (example_env no_inputs True example_server) None ''latest'' (example_world example_files)
       = (Inl (Error ''Not found Dependency Check installer: /agent/work/dependency-check''),
          example_world example_files)"
proof -
  let ?E = "example_env no_inputs True example_server"
  let ?W = "example_world example_files"
  let ?d = "[''agent'', ''work'', ''dependency-check'']"
  let ?fs1 = "example_files @ [(?d, Directory)]"
  let ?fs3 = "?fs1 @ [([''agent'', ''work'', ''dc.zip''], File ''PK'' False)]"
  let ?fs4 = "?fs3 @ [([''agent'', ''work'', ''dependency-check'', ''bin''], Directory),
      ([''agent'', ''work'', ''dependency-check'', ''bin'', ''dependency-check.sh''], File ''#!/bin/sh'' False)]"
  let ?entries = "[([''dependency-check''], Directory),
                   ([''dependency-check'', ''bin'', ''dependency-check.sh''], File ''#!/bin/sh'' True)]"
  have missing: "stat (files ?W) ?d = None"
    by code_simp
  have v: "variables ?W ''Build.SourcesDirectory'' = Some ''/agent/src''"
      "variables ?W ''Build.ArtifactStagingDirectory'' = Some ''/agent/out''"
      "getBoolInput ?E ''enableVerbose'' = True"
      "opt_trim (getPathInput ?E ''logDirectory'') = Some ''/agent/src''"
      "opt_trim (getPathInput ?E ''exportDirectory'') = Some ''/agent/src''"
      "opt_trim (getInput ?E ''customRepoUrl'') = None"
      "requestedVersion ?E = ''latest''"
    by code_simp+
  have a1: "opt_trim (getPathInput ?E ''localInstallPath'') = variables ?W ''Build.SourcesDirectory''"
    by code_simp
  have a2: "isVersionFormatValid (requestedVersion ?E)"
    by code_simp
  have a3: "fst (run_options ?E True (Some ''/agent/src'') (Some ''/agent/src'') (Some ''/agent/src'')
                  (Some ''/agent/out'') ?W) = Inr verbose_options"
    by code_simp
  have p: "fs_path (cwd ?E) ''/agent/work/dependency-check'' = ?d"
      "fs_path (cwd ?E) ''/agent/work/dc.zip'' = [''agent'', ''work'', ''dc.zip'']"
      "fs_path (cwd ?E) ''/agent/work'' = [''agent'', ''work'']"
    by code_simp+
  have b1: "path_resolve (cwd ?E) [Some ''.'', Some ''dependency-check''] = Inr ''/agent/work/dependency-check''"
    by code_simp
  have b2: "mkdirs (fs_path (cwd ?E) ''/agent/work/dependency-check'') (files ?W) = Inr ?fs1"
    by code_simp
  have b3: "fst (installZipUrl_of ?E None ''latest''
              (?W\<lparr>files := ?fs1, trace := trace ?W @ [MkdirP (fs_path (cwd ?E) ''/agent/work/dependency-check'')]\<rparr>))
            = Inr (Some ''https://host/files/dc.zip'')"
    by code_simp
  have b4: "pathname ?E ''https://host/files/dc.zip'' = Inr ''/files/dc.zip''"
    by code_simp
  have b5: "path_resolve (cwd ?E) [Some (basename ''/files/dc.zip'')] = Inr ''/agent/work/dc.zip''"
    by code_simp
  have b6: "(0::nat) \<le> 5 \<and> (\<forall>i<0::nat. isl (transport ?E ''https://host/files/dc.zip'' (length (requests ?W) + (if truthy None then 0 else 1) + i)))"
    by simp
  have b7: "transport ?E ''https://host/files/dc.zip'' (length (requests ?W) + (if truthy None then 0 else 1) + 0) = Inr ''PK''"
    by (simp add: example_env_def example_server_def)
  have b8: "writeFile (fs_path (cwd ?E) ''/agent/work/dc.zip'') ''PK''
            (filter (\<lambda>(q, n). \<not> strict_prefix (fs_path (cwd ?E) ''/agent/work/dependency-check'') q
                                \<or> prefix (fs_path (cwd ?E) ''/agent/work/dependency-check'' @ [''data'']) q) ?fs1) = Inr ?fs3"
    unfolding p by code_simp
  have b9: "path_resolve (cwd ?E) [Some ''./''] = Inr ''/agent/work''"
    by code_simp
  have b10: "zip_entries ?E ''PK'' = Inr ?entries"
    by code_simp
  have b11: "extract_entries (fs_path (cwd ?E) ''/agent/work'') ?entries ?fs3 = (None, ?fs4)"
    by code_simp
  have c1: "path_resolve (cwd ?E) [Some ''./dependency-check''] = Inr ''/agent/work/dependency-check''"
    by code_simp
  have c2: "stat (files ?W) (fs_path (cwd ?E) ''/agent/work/dependency-check'') = None"
    by code_simp
  have pruned: "findMatch ?d [''**'', ''!data'', ''!data/**''] defaultMatchOptions ?fs1 = []"
    by code_simp
  have final: "remove [''agent'', ''work'', ''dc.zip''] ?fs4 = unpacked_files"
    by code_simp
  have url: "releaseUrl ''latest'' = ''https://api.github.com/repos/jeremylong/DependencyCheck/releases/latest''"
    by code_simp
  have t: "trace ?W = []"
    by (simp add: example_world_def)
  note T = run_install_creates_directory[where env = ?E and w = ?W and options = verbose_options and v = ?W
      and installPath = "''/agent/work/dependency-check''" and ?fs1.0 = ?fs1 and customRepoUrl = None
      and version = "''latest''" and url = "''https://host/files/dc.zip''" and urlPath = "''/files/dc.zip''"
      and zipPath = "''/agent/work/dc.zip''" and k = 0 and body = "''PK''" and ?fs3.0 = ?fs3
      and unzipLocation = "''/agent/work''" and entries = ?entries and ?fs4.0 = ?fs4 and dcOptions = verbose_options]
  from T a1 a2 a3
  have "run_try ?E ?W =
          run_install ?E (opt_trim (getInput ?E ''customRepoUrl'')) (requestedVersion ?E) verbose_options
            (snd (run_options ?E (getBoolInput ?E ''enableVerbose'') (opt_trim (getPathInput ?E ''logDirectory''))
                (opt_trim (getPathInput ?E ''exportDirectory'')) (variables ?W ''Build.SourcesDirectory'')
                (variables ?W ''Build.ArtifactStagingDirectory'') ?W))"
    unfolding v by blast
  moreover from T b1 b2 b3 b4 b5 b6 b7 b8 b9 b10 b11
  have "\<exists>c. run_install ?E None ''latest'' verbose_options ?W =
            updateDependencyCheckData ?E ''/agent/work/dependency-check'' False verbose_options
              (?W\<lparr>files := remove (fs_path (cwd ?E) ''/agent/work/dc.zip'') ?fs4,
                 trace := trace ?W @ [MkdirP (fs_path (cwd ?E) ''/agent/work/dependency-check'')]
                            @ (if truthy None then [] else [HttpGet (releaseUrl ''latest'')])
                            @ map RmRF (findMatch (fs_path (cwd ?E) ''/agent/work/dependency-check'')
                                          [''**'', ''!data'', ''!data/**''] defaultMatchOptions ?fs1)
                            @ replicate (Suc 0) (HttpGet ''https://host/files/dc.zip'')
                            @ [WriteStream (fs_path (cwd ?E) ''/agent/work/dc.zip''),
                               ExtractAllTo (fs_path (cwd ?E) ''/agent/work''),
                               RmRF (fs_path (cwd ?E) ''/agent/work/dc.zip'')],
                 console := c\<rparr>)"
    by blast
  moreover from T c1 c2
  have "run_data_task_install ?E None ''latest'' ?W =
          (Inl (Error (''Not found Dependency Check installer: '' @ ''/agent/work/dependency-check'')), ?W)"
    by blast
  ultimately show ?thesis
    using missing unfolding p pruned final url t v by simp
qed

text \<open>
  C8 as stated fails for \<open>run\<close> of \<open>dependency-check-data-task.ts\<close>: with the local install
  path equal to the sources directory and no directory \<open>/agent/work/dependency-check\<close>,
  the run creates nothing, requests nothing and fails.
\<close>

theorem run_data_task_requires_directory_counterexample:
  "opt_trim (getPathInput (example_env no_inputs True example_server) ''localInstallPath'')
     = variables (example_world example_files) ''Build.SourcesDirectory''
   \<and> stat (files (example_world example_files)) [''agent'', ''work'', ''dependency-check''] = None
   \<and> trace (snd (run_data_task (example_env no_inputs True example_server) (example_world example_files))) = []
   \<and> files (snd (run_data_task (example_env no_inputs True example_server) (example_world example_files)))
       = example_files
   \<and> taskResult (snd (run_data_task (example_env no_inputs True example_server) (example_world example_files)))
       = Some ''Not found Dependency Check installer: /agent/work/dependency-check''"
  by code_simp

section \<open>The custom URL in a run\<close>

lemma run_data_task_try_dispatch:
  assumes "opt_trim (getPathInput env ''localInstallPath'') = variables w ''Build.SourcesDirectory''"
    and "isVersionFormatValid (requestedVersion env)"
  shows "run_data_task_try env w =
     run_data_task_install env (opt_trim (getInput env ''customRepoUrl'')) (requestedVersion env) w"
  unfolding run_data_task_try_def Let_def bind_tl_getVariable
  using assms by (simp add: requestedVersion_def)

lemma run_data_task_install_steps:
  assumes r: "path_resolve (cwd env) [Some ''./dependency-check''] = Inr installPath"
    and m: "stat (files w) (fs_path (cwd env) installPath) \<noteq> None"
    and u: "fst (installZipUrl_of env customRepoUrl version w) = Inr (Some url)"
    and p: "pathname env url = Inr urlPath"
    and z: "path_resolve (cwd env) [Some (basename urlPath)] = Inr zipPath"
    and k: "k \<le> 5"
    and f: "\<forall>i<k. isl (transport env url (length (requests w) + (if truthy customRepoUrl then 0 else 1) + i))"
    and s: "transport env url (length (requests w) + (if truthy customRepoUrl then 0 else 1) + k) = Inr body"
    and wr: "writeFile (fs_path (cwd env) zipPath) body
               (filter (\<lambda>(q, n). \<not> strict_prefix (fs_path (cwd env) installPath) q
                                   \<or> prefix (fs_path (cwd env) installPath @ [''data'']) q) (files w)) = Inr fs3"
    and h: "path_resolve (cwd env) [Some ''./''] = Inr unzipLocation"
    and e: "zip_entries env body = Inr entries"
    and x: "extract_entries (fs_path (cwd env) unzipLocation) entries fs3 = (None, fs4)"
  shows "\<exists>c. run_data_task_install env customRepoUrl version w =
     (Inr (),
      w\<lparr>files := remove (fs_path (cwd env) zipPath) fs4,
        trace := trace w
                   @ (if truthy customRepoUrl then [] else [HttpGet (releaseUrl version)])
                   @ map RmRF (findMatch (fs_path (cwd env) installPath) [''**'', ''!data'', ''!data/**'']
                                 defaultMatchOptions (files w))
                   @ replicate (Suc k) (HttpGet url)
                   @ [WriteStream (fs_path (cwd env) zipPath), ExtractAllTo (fs_path (cwd env) unzipLocation),
                      RmRF (fs_path (cwd env) zipPath)],
        console := c\<rparr>)"
proof -
  let ?d = "fs_path (cwd env) installPath"
  let ?gets = "if truthy customRepoUrl then [] else [HttpGet (releaseUrl version)]"
  let ?L = "findMatch ?d [''**'', ''!data'', ''!data/**''] defaultMatchOptions (files w)"
  have ck: "tl_checkPath env installPath ''Dependency Check installer'' w = (Inr (), w)"
    using m path_resolve_nonempty[OF r] by (simp add: tl_checkPath_def)
  obtain c2 where iz: "installZipUrl_of env customRepoUrl version w =
      (Inr (Some url), w\<lparr>trace := trace w @ ?gets, console := c2\<rparr>)"
    using installZipUrl_of_effect[OF u] by blast
  let ?w2 = "w\<lparr>trace := trace w @ ?gets, console := c2\<rparr>"
  let ?w3 = "?w2\<lparr>files := fold remove ?L (files w), trace := trace ?w2 @ map RmRF ?L\<rparr>"
  have cl: "cleanDirectory env installPath [''**'', ''!data'', ''!data/**''] ?w2 = (Inr (), ?w3)"
    by (simp add: cleanDirectory_eq)
  have n: "length (requests ?w3) = length (requests w) + (if truthy customRepoUrl then 0 else 1)"
    by (simp add: requests_def)
  have f3: "\<forall>i<k. isl (transport env url (length (requests ?w3) + i))"
    using f unfolding n .
  have s3: "transport env url (length (requests ?w3) + k) = Inr body"
    using s unfolding n .
  have wr3: "writeFile (fs_path (cwd env) zipPath) body (files ?w3) = Inr fs3"
    using wr by (simp add: fold_remove_clean)
  obtain c where uz: "unzipFromUrl env url unzipLocation ?w3 =
     (Inr (),
      ?w3\<lparr>files := remove (fs_path (cwd env) zipPath) fs4,
        trace := trace ?w3 @ replicate (Suc k) (HttpGet url)
                   @ [WriteStream (fs_path (cwd env) zipPath), ExtractAllTo (fs_path (cwd env) unzipLocation),
                      RmRF (fs_path (cwd env) zipPath)],
        console := c\<rparr>)"
    using unzipFromUrl_extracts[OF p z k f3 s3 wr3 e x] by blast
  have "run_data_task_install env customRepoUrl version w =
     (Inr (),
      ?w3\<lparr>files := remove (fs_path (cwd env) zipPath) fs4,
        trace := trace ?w3 @ replicate (Suc k) (HttpGet url)
                   @ [WriteStream (fs_path (cwd env) zipPath), ExtractAllTo (fs_path (cwd env) unzipLocation),
                      RmRF (fs_path (cwd env) zipPath)],
        console := c\<rparr>)"
    unfolding run_data_task_install_def tl_resolve_def r h bind_lift_Inr
    apply (subst bind_eq[where m = "tl_checkPath env installPath ''Dependency Check installer''", OF ck])
    apply (subst bind_eq[where m = "installZipUrl_of env customRepoUrl version", OF iz])
    apply (subst bind_eq[where m = "cleanDirectory env installPath [''**'', ''!data'', ''!data/**'']", OF cl])
    apply (simp only: toString.simps)
    apply (rule uz)
    done
  then show ?thesis
    by (auto intro!: exI)
qed

lemma requests_of_run:
  "requests (snd (run env w))
     = requests (snd (run_try env (w\<lparr>console := console w @ [(Stdout, ''Starting Dependency Check download...'')]\<rparr>)))"
  unfolding run_def by (rule requests_caught)

lemma requests_of_run_data_task:
  "requests (snd (run_data_task env w))
     = requests (snd (run_data_task_try env (w\<lparr>console := console w @ [(Stdout, ''Starting Dependency Check download...'')]\<rparr>)))"
  unfolding run_data_task_def by (rule requests_caught)








end
